(* ===== verification/Identifiers.thy ===== *)
theory Identifiers
  imports Prelude
begin

text \<open>
  Validated identifiers and roles of the Managed Gateway: \<^verbatim>\<open>AgentId\<close>, \<^verbatim>\<open>ProtocolVersion\<close>
  and \<^verbatim>\<open>ProtocolDescriptor\<close> (\<^verbatim>\<open>protocol/version.rs\<close>), the \<^verbatim>\<open>resource_id!\<close> newtypes
  (\<^verbatim>\<open>protocol/identifiers.rs\<close>), \<^verbatim>\<open>ActorId\<close>, roles and permissions (\<^verbatim>\<open>identity.rs\<close>).

  Every newtype is built by its \<^verbatim>\<open>FromStr\<close> only.  The locales \<open>text_id\<close> and
  \<open>exact_text_id\<close> state what the rest of the program relies on: a stored identifier
  parses back to itself.
\<close>

section \<open>Definitions\<close>

subsection \<open>Agent and protocol identifiers\<close>

datatype agent_id = AgentId (agent_str: string)

definition AGENT_ID_PREFIX :: string where
  "AGENT_ID_PREFIX = ''agt_''"

definition MAX_AGENT_ID_LENGTH :: nat where
  "MAX_AGENT_ID_LENGTH = 64"

definition agent_id_byte :: "char \<Rightarrow> bool" where
  "agent_id_byte c \<longleftrightarrow> is_ascii_lowercase c \<or> is_ascii_digit c \<or> c = CHR ''_''"

definition AgentId_from_str :: "string \<Rightarrow> agent_id gateway_result" where
  "AgentId_from_str value =
    (let suffix = (case strip_prefix AGENT_ID_PREFIX value of
                     Some suffix \<Rightarrow> if suffix \<noteq> [] then Some suffix else None
                   | None \<Rightarrow> None);
         valid = (length value \<le> MAX_AGENT_ID_LENGTH \<and>
                  (case suffix of Some suffix \<Rightarrow> list_all agent_id_byte suffix | None \<Rightarrow> False))
     in if \<not> valid then Inl (InvalidInput
          (''agent IDs must start with `agt_`, contain only lowercase ASCII letters, '' @
           ''digits, or underscores, and be at most 64 characters''))
        else Inr (AgentId value))"

datatype protocol_version = ProtocolVersion (protocol_version_str: string)

definition GATEWAY_PROTOCOL_VERSION :: string where
  "GATEWAY_PROTOCOL_VERSION = ''2026-10-03''"

definition ProtocolVersion_current :: protocol_version where
  "ProtocolVersion_current = ProtocolVersion GATEWAY_PROTOCOL_VERSION"

text \<open>
  \<open>naive_date value\<close> stands for \<^verbatim>\<open>chrono::NaiveDate::parse_from_str(value, "%Y-%m-%d").is_ok()\<close>.
\<close>

definition iso_date_shape :: "string \<Rightarrow> bool" where
  "iso_date_shape value \<longleftrightarrow> length value = 10 \<and>
    list_all (\<lambda>(index, byte).
      (index \<in> {4, 7} \<and> byte = CHR ''-'') \<or> (index \<notin> {4, 7} \<and> is_ascii_digit byte))
      (List.enumerate 0 value)"

definition ProtocolVersion_from_str ::
    "(string \<Rightarrow> bool) \<Rightarrow> string \<Rightarrow> protocol_version gateway_result" where
  "ProtocolVersion_from_str naive_date value =
    (if \<not> iso_date_shape value \<or> \<not> naive_date value then
       Inl (InvalidInput ''protocol versions must be valid ISO 8601 calendar dates'')
     else Inr (ProtocolVersion value))"

record protocol_descriptor =
  pd_version :: protocol_version
  pd_supported_versions :: "protocol_version list"

definition ProtocolDescriptor_default :: protocol_descriptor where
  "ProtocolDescriptor_default =
    \<lparr>pd_version = ProtocolVersion_current, pd_supported_versions = [ProtocolVersion_current]\<rparr>"

subsection \<open>Resource identifiers\<close>

definition resource_id_byte :: "char \<Rightarrow> bool" where
  "resource_id_byte c \<longleftrightarrow> is_ascii_lowercase c \<or> is_ascii_digit c \<or> c = CHR ''_'' \<or> c = CHR ''-''"

definition resource_id_valid :: "string \<Rightarrow> string \<Rightarrow> bool" where
  "resource_id_valid pre value \<longleftrightarrow> length value \<le> 96 \<and>
    (case strip_prefix pre value of
       Some suffix \<Rightarrow> suffix \<noteq> [] \<and> list_all resource_id_byte suffix
     | None \<Rightarrow> False)"

definition resource_id_from_str ::
    "(string \<Rightarrow> 'i) \<Rightarrow> string \<Rightarrow> string \<Rightarrow> string \<Rightarrow> 'i gateway_result" where
  "resource_id_from_str mk pre label value =
    (if resource_id_valid pre value then Inr (mk value)
     else Inl (InvalidInput (label @ '' must start with `'' @ pre @
       ''`, use lowercase ASCII letters, digits, hyphens, or underscores, and be at most 96 characters'')))"

datatype organization_id = OrganizationId (organization_str: string)
datatype site_id = SiteId (site_str: string)
datatype device_id = DeviceId (device_str: string)
datatype job_id = JobId (job_str: string)
datatype managed_preflight_id = ManagedPreflightId (preflight_str: string)
datatype managed_work_id = ManagedWorkId (work_str: string)
datatype policy_id = PolicyId (policy_str: string)
datatype print_intent_id = PrintIntentId (intent_str: string)

definition OrganizationId_from_str :: "string \<Rightarrow> organization_id gateway_result" where
  "OrganizationId_from_str = resource_id_from_str OrganizationId ''org_'' ''organization IDs''"

definition SiteId_from_str :: "string \<Rightarrow> site_id gateway_result" where
  "SiteId_from_str = resource_id_from_str SiteId ''site_'' ''site IDs''"

definition DeviceId_from_str :: "string \<Rightarrow> device_id gateway_result" where
  "DeviceId_from_str = resource_id_from_str DeviceId ''dev_'' ''device IDs''"

definition JobId_from_str :: "string \<Rightarrow> job_id gateway_result" where
  "JobId_from_str = resource_id_from_str JobId ''job_'' ''job IDs''"

definition ManagedPreflightId_from_str :: "string \<Rightarrow> managed_preflight_id gateway_result" where
  "ManagedPreflightId_from_str =
    resource_id_from_str ManagedPreflightId ''mpf_'' ''Managed Work preflight IDs''"

definition ManagedWorkId_from_str :: "string \<Rightarrow> managed_work_id gateway_result" where
  "ManagedWorkId_from_str = resource_id_from_str ManagedWorkId ''mw_'' ''Managed Work IDs''"

definition PolicyId_from_str :: "string \<Rightarrow> policy_id gateway_result" where
  "PolicyId_from_str = resource_id_from_str PolicyId ''policy_'' ''policy IDs''"

definition PrintIntentId_from_str :: "string \<Rightarrow> print_intent_id gateway_result" where
  "PrintIntentId_from_str = resource_id_from_str PrintIntentId ''pi_v1_'' ''Print Intent IDs''"

subsection \<open>Actors, roles and permissions\<close>

datatype actor_id = ActorId (actor_str: string)

definition ActorId_from_oidc_subject :: "string \<Rightarrow> actor_id" where
  "ActorId_from_oidc_subject subject = ActorId (''oidc:'' @ subject)"

definition ActorId_from_agent :: "agent_id \<Rightarrow> actor_id" where
  "ActorId_from_agent a = ActorId (''agent:'' @ agent_str a)"

definition ActorId_from_str :: "string \<Rightarrow> actor_id gateway_result" where
  "ActorId_from_str value =
    (if value = [] \<or> length value > 512 \<or> list_ex is_control (utf8_chars value) then
       Inl (InvalidInput
         (''actor IDs must be non-empty, contain no control characters, '' @
          ''and be at most 512 bytes''))
     else Inr (ActorId value))"

datatype access_role = Viewer | Operator | EnrollmentAdmin | Administrator

datatype permission =
  FleetRead | JobsWrite | EnrollmentManage | AuditRead | ZenohRead | ZenohWrite | Administration

fun AccessRole_grants :: "access_role \<Rightarrow> permission \<Rightarrow> bool" where
  "AccessRole_grants Administrator p = True"
| "AccessRole_grants Viewer p = (p = FleetRead)"
| "AccessRole_grants Operator p = (p = FleetRead \<or> p = JobsWrite)"
| "AccessRole_grants EnrollmentAdmin p = (p = FleetRead \<or> p = EnrollmentManage)"

record session_identity =
  si_actor_id :: actor_id
  si_display_name :: "string option"
  si_email :: "string option"
  si_roles :: "access_role list"
  si_expires_at :: instant

definition SessionIdentity_grants :: "session_identity \<Rightarrow> permission \<Rightarrow> bool" where
  "SessionIdentity_grants s p = list_ex (\<lambda>role. AccessRole_grants role p) (si_roles s)"

section \<open>The contract of a stored identifier\<close>

text \<open>
  \<open>text_id\<close>: whatever parsed once parses back from its printed form, and printing
  determines the identifier.  \<open>exact_text_id\<close>: parsing does not normalise.
\<close>

locale text_id =
  fixes from_str :: "string \<Rightarrow> 'i gateway_result"
    and as_str :: "'i \<Rightarrow> string"
  assumes reparse: "from_str s = Inr i \<Longrightarrow> from_str (as_str i) = Inr i"
    and as_str_inj: "as_str i = as_str j \<Longrightarrow> i = j"
begin

lemma print_idempotent:
  assumes "from_str s = Inr i" and "from_str (as_str i) = Inr j"
  shows "as_str j = as_str i"
  using assms reparse by simp

lemma stored_list_round_trip:
  assumes "list_all (\<lambda>i. \<exists>s. from_str s = Inr i) ids"
  shows "try_map from_str (map as_str ids) = Inr ids"
  using assms by (induction ids) (auto simp: reparse)

end

locale exact_text_id =
  fixes from_str :: "string \<Rightarrow> 'i gateway_result"
    and as_str :: "'i \<Rightarrow> string"
  assumes exact: "from_str s = Inr i \<Longrightarrow> as_str i = s"
    and exact_as_str_inj: "as_str i = as_str j \<Longrightarrow> i = j"
begin

lemma from_str_inj: "from_str s = Inr i \<Longrightarrow> from_str t = Inr i \<Longrightarrow> s = t"
  using exact by blast

end

sublocale exact_text_id \<subseteq> printed: text_id from_str as_str
  by unfold_locales (use exact exact_as_str_inj in auto)

section \<open>Lemmas\<close>

lemma AgentId_from_str_iff:
  "AgentId_from_str v = Inr a \<longleftrightarrow>
    a = AgentId v \<and> length v \<le> 64 \<and> (\<exists>r. v = ''agt_'' @ r \<and> r \<noteq> [] \<and> list_all agent_id_byte r)"
  by (auto simp: AgentId_from_str_def AGENT_ID_PREFIX_def MAX_AGENT_ID_LENGTH_def Let_def
      strip_prefix_None_iff split: option.splits if_splits)

lemma resource_id_valid_iff:
  "resource_id_valid pre v \<longleftrightarrow>
    length v \<le> 96 \<and> (\<exists>r. v = pre @ r \<and> r \<noteq> [] \<and> list_all resource_id_byte r)"
  by (auto simp: resource_id_valid_def split: option.splits)

lemma resource_id_from_str_iff:
  "resource_id_from_str mk pre label v = Inr i \<longleftrightarrow> i = mk v \<and> resource_id_valid pre v"
  by (auto simp: resource_id_from_str_def)

lemmas resource_id_defs =
  OrganizationId_from_str_def SiteId_from_str_def DeviceId_from_str_def JobId_from_str_def
  ManagedPreflightId_from_str_def ManagedWorkId_from_str_def PolicyId_from_str_def
  PrintIntentId_from_str_def

lemma agent_id_byte_literal:
  assumes "agent_id_byte c"
  shows "c \<notin> {CHR ''/'', CHR ''*'', CHR ''$'', CHR ''#'', CHR ''?''}"
  using assms by (auto simp: agent_id_byte_def is_ascii_lowercase_def is_ascii_digit_def)

interpretation AgentId: exact_text_id AgentId_from_str agent_str
  by unfold_locales (auto simp: AgentId_from_str_iff intro: agent_id.expand)

interpretation OrganizationId: exact_text_id OrganizationId_from_str organization_str
  by unfold_locales (auto simp: resource_id_defs resource_id_from_str_iff intro: organization_id.expand)

interpretation SiteId: exact_text_id SiteId_from_str site_str
  by unfold_locales (auto simp: resource_id_defs resource_id_from_str_iff intro: site_id.expand)

interpretation DeviceId: exact_text_id DeviceId_from_str device_str
  by unfold_locales (auto simp: resource_id_defs resource_id_from_str_iff intro: device_id.expand)

interpretation JobId: exact_text_id JobId_from_str job_str
  by unfold_locales (auto simp: resource_id_defs resource_id_from_str_iff intro: job_id.expand)

interpretation ManagedPreflightId: exact_text_id ManagedPreflightId_from_str preflight_str
  by unfold_locales
    (auto simp: resource_id_defs resource_id_from_str_iff intro: managed_preflight_id.expand)

interpretation ManagedWorkId: exact_text_id ManagedWorkId_from_str work_str
  by unfold_locales (auto simp: resource_id_defs resource_id_from_str_iff intro: managed_work_id.expand)

interpretation PolicyId: exact_text_id PolicyId_from_str policy_str
  by unfold_locales (auto simp: resource_id_defs resource_id_from_str_iff intro: policy_id.expand)

interpretation PrintIntentId: exact_text_id PrintIntentId_from_str intent_str
  by unfold_locales (auto simp: resource_id_defs resource_id_from_str_iff intro: print_intent_id.expand)

interpretation ProtocolVersion: exact_text_id "ProtocolVersion_from_str naive_date" protocol_version_str
  for naive_date
  by unfold_locales
    (auto simp: ProtocolVersion_from_str_def intro: protocol_version.expand split: if_splits)

interpretation ActorId: exact_text_id ActorId_from_str actor_str
  by unfold_locales (auto simp: ActorId_from_str_def intro: actor_id.expand split: if_splits)

end
