(* ===== verification/Protocol.thy ===== *)
theory Protocol
  imports Identifiers
begin

text \<open>
  The messages of the Gateway protocol (\<^verbatim>\<open>inari-gateway/src/protocol\<close>): structured
  payloads, device inventory values, Controller commands, Agent publications, Managed
  Work, and signed Agent State observations, with the operations the source defines on
  them.  Variants that the source repeats in several enums carry a prefix naming the
  enum.  Unsigned integers keep their width as words.
\<close>

section \<open>Structured payloads and snapshots\<close>

text \<open>
  \<^verbatim>\<open>StructuredFields\<close> is an ordered map from names to values; a \<^verbatim>\<open>f64\<close> is kept as its
  bit pattern.
\<close>

datatype structured_value =
    SNull
  | SBoolean bool
  | SUnsigned "64 word"
  | SSigned "64 word"
  | SDecimal "64 word"
  | SText string
  | SList "structured_value list"
  | SObject "(string \<times> structured_value) list"

type_synonym structured_fields = "(string \<times> structured_value) list"

definition StructuredFields_get :: "structured_fields \<Rightarrow> string \<Rightarrow> structured_value option" where
  "StructuredFields_get entries name = map_of entries name"

record service_descriptor =
  svc_name :: "string option"
  svc_version :: "string option"
  svc_attributes :: structured_fields

record security_descriptor =
  sec_mode :: string
  sec_exposure :: string
  sec_tls_required :: bool
  sec_certificate_mode :: string
  sec_mutual_tls_mode :: string
  sec_mutual_tls_enabled :: bool
  sec_certificate_expires_at :: "instant option"
  sec_attributes :: structured_fields

record runtime_descriptor =
  rt_queue :: "(string \<times> 64 word) list"
  rt_devices :: structured_fields
  rt_inventory :: structured_fields

record capability_descriptor =
  cap_supported_device_commands :: "string list"
  cap_supported_controller_actions :: "string list"
  cap_features :: "string list"
  cap_transport :: string
  cap_client_certificate_present :: bool

record gateway_snapshot =
  snap_generated_at :: instant
  snap_protocol :: protocol_descriptor
  snap_service :: service_descriptor
  snap_security :: security_descriptor
  snap_runtime :: runtime_descriptor
  snap_capabilities :: capability_descriptor
  snap_observability :: structured_fields

section \<open>Devices\<close>

datatype device_kind = Printer | Scale | Scanner | Display
datatype device_class = Physical | Virtual
datatype device_state =
  DeviceDiscovered | DevicePendingApproval | DeviceOnline | DeviceOffline | DeviceDegraded | DeviceBlocked
datatype device_transport = Spooler | Network | Usb | Hid | Serial
datatype device_capability = Print | Weigh | Scan | CashDrawer | Cut | Status

section \<open>Keys\<close>

text \<open>The members of \<^verbatim>\<open>jsonwebtoken::jwk::Jwk\<close> that the source reads.\<close>

datatype key_algorithm = EdDSA | OtherAlgorithm string
datatype public_key_use = Signature | OtherUse string
datatype elliptic_curve = Ed25519 | OtherCurve string
datatype algorithm_parameters = OctetKeyPair elliptic_curve string | OtherParameters string

record jwk =
  jwk_key_id :: "string option"
  jwk_key_algorithm :: "key_algorithm option"
  jwk_public_key_use :: "public_key_use option"
  jwk_key_operations :: "string list option"
  jwk_algorithm :: algorithm_parameters

datatype dispatch_kem = DhkemX25519HkdfSha256
datatype dispatch_hpke_suite = DhkemX25519HkdfSha256HkdfSha256Aes256Gcm

record dispatch_encryption_key =
  dk_key_id :: string
  dk_kem :: dispatch_kem
  dk_public_key_base64url :: string

section \<open>Managed Work\<close>

definition MANAGED_WORK_CONTRACT_MAJOR :: "16 word" where
  "MANAGED_WORK_CONTRACT_MAJOR = 1"

definition MANAGED_DISPATCH_VERSION :: "16 word" where
  "MANAGED_DISPATCH_VERSION = 1"

record managed_work_scope =
  sc_database :: string
  sc_company_id :: string
  sc_organization_id :: organization_id
  sc_site_id :: site_id
  sc_agent_id :: agent_id

record agent_managed_scope =
  ams_organization_id :: organization_id
  ams_site_id :: site_id
  ams_agent_id :: agent_id

datatype managed_document_operation = ReportPdf | LabelDocument

fun media_type :: "managed_document_operation \<Rightarrow> string" where
  "media_type ReportPdf = ''application/pdf''"
| "media_type LabelDocument = ''application/vnd.zebra-zpl''"

record report_binding_claim =
  bc_report_binding_id :: string
  bc_binding_revision_id :: string
  bc_report_action_id :: string
  bc_report_contract_digest :: string
  bc_template_digest :: string
  bc_command_profile_id :: "string option"
  bc_layout_profile_id :: "string option"
  bc_hardware_matrix_digest :: "string option"

record managed_work_preflight_request =
  pr_contract_major :: "16 word"
  pr_scope :: managed_work_scope
  pr_device_id :: device_id
  pr_operation :: managed_document_operation
  pr_binding :: report_binding_claim

datatype managed_work_preflight_state = PreflightReady | PreflightBlocked

record managed_work_preflight_result =
  prr_contract_major :: "16 word"
  prr_preflight_id :: "managed_preflight_id option"
  prr_state :: managed_work_preflight_state
  prr_operation :: managed_document_operation
  prr_media_type :: string
  prr_device_id :: device_id
  prr_capability_digest :: "string option"
  prr_expires_at :: "instant option"
  prr_idempotency_expires_at :: "instant option"
  prr_submit_before :: "instant option"
  prr_error_code :: "string option"
  prr_message_key :: string

datatype report_source = Records string "int list" | Wizard string string
datatype report_route = Manual | Automatic

record report_print_origin =
  or_binding :: report_binding_claim
  or_route :: report_route
  or_source :: report_source
  or_rendered_document_index :: "32 word"
  or_copy_ordinal :: "32 word"

datatype managed_document = ReportPdfDocument string | LabelDocumentDocument string

fun document_operation :: "managed_document \<Rightarrow> managed_document_operation" where
  "document_operation (ReportPdfDocument _) = ReportPdf"
| "document_operation (LabelDocumentDocument _) = LabelDocument"

definition document_media_type :: "managed_document \<Rightarrow> string" where
  "document_media_type d = media_type (document_operation d)"

fun document_content :: "managed_document \<Rightarrow> string" where
  "document_content (ReportPdfDocument content_base64) = content_base64"
| "document_content (LabelDocumentDocument content_base64) = content_base64"

record managed_device_work =
  dw_contract_major :: "16 word"
  dw_scope :: managed_work_scope
  dw_print_intent_id :: print_intent_id
  dw_device_id :: device_id
  dw_origin :: report_print_origin
  dw_document :: managed_document
  dw_normalized_device_options :: structured_fields

record sealed_managed_dispatch =
  sd_protocol_version :: "16 word"
  sd_key_id :: string
  sd_suite :: dispatch_hpke_suite
  sd_encapsulated_key_base64url :: string
  sd_ciphertext_base64url :: string

record managed_work_submission =
  sub_contract_major :: "16 word"
  sub_preflight_id :: managed_preflight_id
  sub_payload_fingerprint :: string
  sub_work :: managed_device_work

datatype managed_work_state =
  PendingAgent | Dispatching | WorkAccepted | WorkRejected | WorkCanceled | WorkExpired | RecoveryUncertain

record managed_work_receipt =
  mwr_managed_work_id :: managed_work_id
  mwr_state :: managed_work_state

record managed_dispatch_authenticated_data =
  ad_organization_id :: organization_id
  ad_site_id :: site_id
  ad_agent_id :: agent_id
  ad_managed_work_id :: managed_work_id
  ad_idempotency_key :: string
  ad_payload_fingerprint :: string
  ad_dispatch_epoch :: "64 word"
  ad_sequence :: "64 word"
  ad_issued_at :: int
  ad_expires_at :: int
  ad_work_expires_at :: instant

record dispatch_device_work =
  ddw_managed_work_id :: managed_work_id
  ddw_authenticated_data :: managed_dispatch_authenticated_data
  ddw_sealed_envelope :: sealed_managed_dispatch

text \<open>
  \<^verbatim>\<open>managed_work_fingerprint\<close>: every field is preceded by its length as a big-endian
  \<^verbatim>\<open>u64\<close>.  Base64 decoding, canonical JSON, the deadline format and SHA-256 are
  arguments.
\<close>

definition be_bytes :: "nat \<Rightarrow> nat \<Rightarrow> bytes" where
  "be_bytes k n = map (\<lambda>i. char_of (n div 256 ^ i)) (rev [0..<k])"

definition length_prefixed :: "bytes \<Rightarrow> bytes" where
  "length_prefixed field = be_bytes 8 (unat (word_of_nat (length field) :: 64 word)) @ field"

definition fingerprint_domain :: bytes where
  "fingerprint_domain = ''inari-device-work-fingerprint'' @ [CHR 0x00, CHR 0x01]"

fun operation_name :: "managed_document_operation \<Rightarrow> string" where
  "operation_name ReportPdf = ''report_pdf''"
| "operation_name LabelDocument = ''label_document''"

definition fingerprint_fields ::
    "(instant \<Rightarrow> string) \<Rightarrow> managed_device_work \<Rightarrow> bytes \<Rightarrow> bytes \<Rightarrow> instant \<Rightarrow> bytes list" where
  "fingerprint_fields format_deadline work document options expires_at =
    [be_bytes 4 (unat (dw_contract_major work)),
     operation_name (document_operation (dw_document work)),
     device_str (dw_device_id work),
     document_media_type (dw_document work),
     document,
     options,
     format_deadline expires_at]"

definition managed_work_fingerprint ::
    "(string \<Rightarrow> bytes option) \<Rightarrow> (structured_fields \<Rightarrow> bytes option) \<Rightarrow> (instant \<Rightarrow> string) \<Rightarrow>
     (bytes \<Rightarrow> bytes) \<Rightarrow> managed_device_work \<Rightarrow> instant \<Rightarrow> bytes gateway_result" where
  "managed_work_fingerprint decode canonicalize format_deadline sha256 work expires_at =
    and_then (ok_or (InvalidInput ''Managed Work document is not valid base64'')
               (decode (document_content (dw_document work)))) (\<lambda>document.
    and_then (ok_or Serialization (canonicalize (dw_normalized_device_options work))) (\<lambda>options.
      Inr (sha256 (fingerprint_domain @
        concat (map length_prefixed
          (fingerprint_fields format_deadline work document options expires_at))))))"

section \<open>Controller commands\<close>

datatype device_command =
    OpenCashDrawer
  | PrintTestPage
  | FeedLines "8 word"
  | FeedDots "8 word"
  | CutPaper string

record execute_device_command =
  ex_target_device_id :: string
  ex_command :: device_command
  ex_metadata :: structured_fields

datatype controller_command =
    ExecuteDeviceCommandMessage string string "64 word" instant execute_device_command
  | CancelJobMessage string string "64 word" instant string
  | DispatchDeviceWorkMessage string string "64 word" instant dispatch_device_work

datatype job_kind =
    ExecuteDeviceCommand execute_device_command
  | CancelJob string

fun required_action :: "job_kind \<Rightarrow> string" where
  "required_action (ExecuteDeviceCommand _) = ''commands:execute''"
| "required_action (CancelJob _) = ''jobs:cancel''"

fun JobKind_into_message ::
    "job_kind \<Rightarrow> string \<Rightarrow> string \<Rightarrow> 64 word \<Rightarrow> instant \<Rightarrow> controller_command" where
  "JobKind_into_message (ExecuteDeviceCommand payload) message_id command_id seq issued_at =
    ExecuteDeviceCommandMessage message_id command_id seq issued_at payload"
| "JobKind_into_message (CancelJob job) message_id command_id seq issued_at =
    CancelJobMessage message_id command_id seq issued_at job"

datatype job_state =
  JobQueued | JobPublished | JobAccepted | JobRejected | JobCompleted | JobFailed | JobSuperseded

record job_record =
  jr_job_id :: job_id
  jr_agent_id :: agent_id
  jr_state :: job_state
  jr_issued_at :: instant
  jr_updated_at :: instant

section \<open>Agent publications\<close>

record runtime_event =
  re_sequence :: "64 word"
  re_resource_kind :: string
  re_resource_id :: string
  re_event_type :: string
  re_occurred_at :: instant
  re_payload :: structured_fields

datatype agent_publication =
    PubCommandAccepted string string instant "structured_fields option" string
  | PubCommandRejected string string instant string string
  | PubRuntimeEvent string instant runtime_event "string option" "string option"
  | PubStatusSnapshot string gateway_snapshot
  | PubError string instant string string "string option" bool

fun publication_message_id :: "agent_publication \<Rightarrow> string" where
  "publication_message_id (PubCommandAccepted message_id _ _ _ _) = message_id"
| "publication_message_id (PubCommandRejected message_id _ _ _ _) = message_id"
| "publication_message_id (PubRuntimeEvent message_id _ _ _ _) = message_id"
| "publication_message_id (PubStatusSnapshot message_id _) = message_id"
| "publication_message_id (PubError message_id _ _ _ _ _) = message_id"

fun publication_message_type :: "agent_publication \<Rightarrow> string" where
  "publication_message_type (PubCommandAccepted _ _ _ _ _) = ''agent.command.accepted''"
| "publication_message_type (PubCommandRejected _ _ _ _ _) = ''agent.command.rejected''"
| "publication_message_type (PubRuntimeEvent _ _ _ _ _) = ''agent.runtime.event''"
| "publication_message_type (PubStatusSnapshot _ _) = ''agent.status.snapshot''"
| "publication_message_type (PubError _ _ _ _ _ _) = ''agent.error''"

fun publication_command_id :: "agent_publication \<Rightarrow> string option" where
  "publication_command_id (PubCommandAccepted _ command_id _ _ _) = Some command_id"
| "publication_command_id (PubCommandRejected _ command_id _ _ _) = Some command_id"
| "publication_command_id (PubRuntimeEvent _ _ _ command_id _) = command_id"
| "publication_command_id (PubError _ _ _ _ command_id _) = command_id"
| "publication_command_id (PubStatusSnapshot _ _) = None"

fun publication_snapshot :: "agent_publication \<Rightarrow> gateway_snapshot option" where
  "publication_snapshot (PubStatusSnapshot _ snapshot) = Some snapshot"
| "publication_snapshot _ = None"

section \<open>Agent State observations\<close>

datatype print_job_state =
    PrintAccepted | PrintInProgress | PrintOutputConfirmed | PrintFailed | PrintOutcomeUnknown
  | PrintExpired | PrintCanceled

fun PrintJobState_as_str :: "print_job_state \<Rightarrow> string" where
  "PrintJobState_as_str PrintAccepted = ''accepted''"
| "PrintJobState_as_str PrintInProgress = ''in_progress''"
| "PrintJobState_as_str PrintOutputConfirmed = ''output_confirmed''"
| "PrintJobState_as_str PrintFailed = ''failed''"
| "PrintJobState_as_str PrintOutcomeUnknown = ''outcome_unknown''"
| "PrintJobState_as_str PrintExpired = ''expired''"
| "PrintJobState_as_str PrintCanceled = ''canceled''"

definition is_terminal :: "print_job_state \<Rightarrow> bool" where
  "is_terminal s \<longleftrightarrow> \<not> (s = PrintAccepted \<or> s = PrintInProgress)"

datatype print_job_output_evidence = EvidenceDevice | EvidenceSpooler | EvidenceTransport
datatype managed_print_origin_kind = Report

record managed_print_job_origin =
  po_kind :: managed_print_origin_kind
  po_organization_id :: organization_id
  po_site_id :: site_id
  po_database :: string
  po_company_id :: string
  po_report_binding_id :: string
  po_report_route :: report_route
  po_report_action :: string
  po_source_model :: string
  po_record_ids :: "string list"
  po_wizard_input_digest :: "string option"
  po_rendered_document_index :: "32 word"

record managed_print_job_snapshot =
  pj_print_job_id :: string
  pj_print_intent_id :: print_intent_id
  pj_device_id :: device_id
  pj_origin :: managed_print_job_origin
  pj_managed_work_id :: managed_work_id
  pj_state :: print_job_state
  pj_state_version :: "64 word"
  pj_accepted_at :: instant
  pj_started_at :: "instant option"
  pj_terminal_at :: "instant option"
  pj_expires_at :: instant
  pj_error_code :: "string option"
  pj_message_key :: "string option"
  pj_confirmation_evidence :: "print_job_output_evidence option"
  pj_contract_version :: string

record agent_state_observation =
  ob_contract_major :: "16 word"
  ob_envelope_id :: string
  ob_agent_id :: agent_id
  ob_agent_boot_id :: string
  ob_reconciliation_session_id :: string
  ob_dispatch_epoch :: "64 word"
  ob_envelope_sequence :: "64 word"
  ob_durable_state_sequence :: "64 word"
  ob_observed_at :: instant
  ob_issued_at :: instant
  ob_payload_fingerprint :: string
  ob_job :: managed_print_job_snapshot

record signed_agent_state_observation =
  so_observation :: agent_state_observation
  so_state_envelope :: string

record managed_work_record =
  wr_managed_work_id :: managed_work_id
  wr_print_intent_id :: print_intent_id
  wr_scope :: managed_work_scope
  wr_device_id :: device_id
  wr_operation :: managed_document_operation
  wr_media_type :: string
  wr_state :: managed_work_state
  wr_print_job_id :: "string option"
  wr_print_job_observation :: "signed_agent_state_observation option"
  wr_error_code :: "string option"
  wr_message_key :: string
  wr_admitted_at :: instant
  wr_updated_at :: instant
  wr_expires_at :: instant

end
