(* ===== verification/Schema.thy ===== *)
theory Schema
  imports Protocol
begin

text \<open>
  The Controller database: one record per entity (\<^verbatim>\<open>persistence/entity\<close>), the tables as
  lists of rows, and the statements the repositories issue, with the constraints and
  triggers that the migrations (\<^verbatim>\<open>inari-migration/src\<close>) put on them.  A statement that
  violates a constraint fails with \<^const>\<open>Persistence\<close> and a failed transaction keeps
  nothing; connection failures are not modelled.  Transactions are atomic steps: the
  source takes row and advisory locks to obtain that.

  Where an entity enum repeats a protocol enum variant for variant (device kind, class,
  state, transport, document operation) both are the one datatype of \<^verbatim>\<open>Protocol\<close>.
\<close>

section \<open>Integers and tables\<close>

definition i64_max :: int where
  "i64_max = 9223372036854775807"

definition i64_min :: int where
  "i64_min = - 9223372036854775808"

definition checked_add_i64 :: "int \<Rightarrow> int \<Rightarrow> int option" where
  "checked_add_i64 a b = (if i64_min \<le> a + b \<and> a + b \<le> i64_max then Some (a + b) else None)"

definition u64_of_i64 :: "int \<Rightarrow> 64 word option" where
  "u64_of_i64 i = (if i < 0 then None else Some (word_of_int i))"

definition i64_of_u64 :: "64 word \<Rightarrow> int option" where
  "i64_of_u64 w = (if uint w \<le> i64_max then Some (uint w) else None)"

definition find_by :: "('r \<Rightarrow> 'k) \<Rightarrow> 'k \<Rightarrow> 'r list \<Rightarrow> 'r option" where
  "find_by key k t = find (\<lambda>r. key r = k) t"

definition update_where :: "('r \<Rightarrow> bool) \<Rightarrow> ('r \<Rightarrow> 'r) \<Rightarrow> 'r list \<Rightarrow> 'r list" where
  "update_where P f t = map (\<lambda>r. if P r then f r else r) t"

definition delete_where :: "('r \<Rightarrow> bool) \<Rightarrow> 'r list \<Rightarrow> 'r list" where
  "delete_where P t = filter (\<lambda>r. \<not> P r) t"

definition exists_where :: "('r \<Rightarrow> bool) \<Rightarrow> 'r list \<Rightarrow> bool" where
  "exists_where P t = list_ex P t"

text \<open>
  A transaction body returns the new state and a value, or an error.  An error rolls
  back.  A body that commits and then reports an error returns that error as its value.
\<close>

definition transaction :: "('db \<Rightarrow> 'e + ('db \<times> ('e + 'a))) \<Rightarrow> 'db \<Rightarrow> 'db \<times> ('e + 'a)" where
  "transaction body db = (case body db of Inl e \<Rightarrow> (db, Inl e) | Inr (db', r) \<Rightarrow> (db', r))"

section \<open>Rows\<close>

record organization_row =
  org_organization_id :: string
  org_name :: string
  org_created_at :: instant
  org_updated_at :: instant

record site_row =
  st_site_id :: string
  st_organization_id :: string
  st_name :: string
  st_created_at :: instant
  st_updated_at :: instant

record agent_row =
  ag_agent_id :: string
  ag_organization_id :: string
  ag_site_id :: string
  ag_key_id :: string
  ag_jwk_thumbprint :: string
  ag_public_jwk :: jwk
  ag_dispatch_key :: "dispatch_encryption_key option"
  ag_namespace :: string
  ag_protocol_version :: string
  ag_controller_actions :: "string list"
  ag_enrolled_at :: instant
  ag_last_enrolled_at :: instant

datatype agent_key_purpose = TransportIdentity | AgentState

record agent_key_row =
  ak_key_id :: string
  ak_agent_id :: string
  ak_purpose :: agent_key_purpose
  ak_jwk_thumbprint :: string
  ak_public_jwk :: jwk
  ak_registered_at :: instant
  ak_retired_at :: "instant option"

datatype invitation_state =
  InvCreated | InvEnrolled | InvOnline | InvExpired | InvFailed | InvRevoked

record invitation_row =
  iv_invitation_id :: string
  iv_organization_id :: string
  iv_site_id :: string
  iv_label :: "string option"
  iv_secret_digest :: bytes
  iv_state :: invitation_state
  iv_created_at :: instant
  iv_expires_at :: instant
  iv_enrolled_at :: "instant option"
  iv_online_at :: "instant option"
  iv_revoked_at :: "instant option"
  iv_failed_at :: "instant option"
  iv_last_error :: "string option"
  iv_bound_agent_id :: "string option"
  iv_bound_key_id :: "string option"
  iv_latest_snapshot :: "gateway_snapshot option"
  iv_enrollment_fingerprint :: "bytes option"

record invitation_attempt_row =
  at_invitation_id :: string
  at_attempted_at :: instant

datatype command_state =
  CmdQueued | CmdPublished | CmdAccepted | CmdRejected | CmdCompleted | CmdFailed | CmdSuperseded

datatype command_content = Inline controller_command | ManagedWorkContent managed_work_id

record command_row =
  cm_command_id :: string
  cm_agent_id :: string
  cm_message_id :: string
  cm_sequence :: int
  cm_state :: command_state
  cm_command :: command_content
  cm_request_fingerprint :: bytes
  cm_issued_at :: instant
  cm_published_at :: "instant option"
  cm_updated_at :: instant

datatype publication_type =
  TypeCommandAccepted | TypeCommandRejected | TypeRuntimeEvent | TypeStatusSnapshot | TypeError

fun PublicationType_from_message :: "agent_publication \<Rightarrow> publication_type" where
  "PublicationType_from_message (PubCommandAccepted _ _ _ _ _) = TypeCommandAccepted"
| "PublicationType_from_message (PubCommandRejected _ _ _ _ _) = TypeCommandRejected"
| "PublicationType_from_message (PubRuntimeEvent _ _ _ _ _) = TypeRuntimeEvent"
| "PublicationType_from_message (PubStatusSnapshot _ _) = TypeStatusSnapshot"
| "PublicationType_from_message (PubError _ _ _ _ _ _) = TypeError"

record publication_row =
  pb_message_id :: string
  pb_agent_id :: string
  pb_key_expr :: string
  pb_message_type :: "publication_type option"
  pb_payload :: agent_publication
  pb_received_at :: instant

record audit_event_row =
  ae_event_id :: int
  ae_organization_id :: string
  ae_actor_id :: string
  ae_action :: string
  ae_resource_kind :: string
  ae_resource_id :: "string option"
  ae_outcome :: string
  ae_request_id :: "string option"
  ae_detail :: structured_fields
  ae_occurred_at :: instant

record device_row =
  dv_agent_id :: string
  dv_device_id :: string
  dv_site_id :: string
  dv_kind :: device_kind
  dv_device_class :: device_class
  dv_display_name :: string
  dv_state :: device_state
  dv_transport :: device_transport
  dv_identity_digest :: string
  dv_capabilities :: "device_capability list"
  dv_first_seen_at :: instant
  dv_last_seen_at :: instant

record preflight_row =
  pf_preflight_id :: string
  pf_request :: managed_work_preflight_request
  pf_dispatch_key_id :: string
  pf_capability_digest :: string
  pf_work_expires_at :: instant
  pf_idempotency_expires_at :: instant
  pf_submit_before :: instant
  pf_created_at :: instant

datatype managed_work_state_value =
    PendingAgentValue | DispatchingValue | AcceptedValue | RejectedValue | CanceledValue
  | ExpiredValue | RecoveryUncertainValue

record managed_work_row =
  mw_managed_work_id :: string
  mw_preflight_id :: string
  mw_organization_id :: string
  mw_idempotency_key :: string
  mw_database_name :: string
  mw_company_id :: string
  mw_site_id :: string
  mw_agent_id :: string
  mw_device_id :: string
  mw_print_intent_id :: string
  mw_operation :: managed_document_operation
  mw_media_type :: string
  mw_state :: managed_work_state_value
  mw_binding_claim :: report_binding_claim
  mw_payload_fingerprint :: bytes
  mw_request_fingerprint :: bytes
  mw_payload_bytes :: int
  mw_payload_deleted_at :: "instant option"
  mw_print_job_id :: "string option"
  mw_print_job_observation :: "signed_agent_state_observation option"
  mw_error_code :: "string option"
  mw_message_key :: string
  mw_expires_at :: instant
  mw_idempotency_expires_at :: instant
  mw_admitted_at :: instant
  mw_updated_at :: instant

record managed_payload_row =
  mp_managed_work_id :: string
  mp_ciphertext :: bytes
  mp_nonce :: bytes
  mp_wrapped_data_key :: string
  mp_wrapping_key_version :: int
  mp_authenticated_data_digest :: bytes
  mp_payload_fingerprint :: bytes
  mp_plaintext_bytes :: int
  mp_expires_at :: instant
  mp_created_at :: instant

record state_observation_row =
  so_envelope_id :: string
  so_agent_id :: string
  so_managed_work_id :: string
  so_signed_observation :: signed_agent_state_observation
  so_received_at :: instant

record router_policy_row =
  rp_organization_id :: string
  rp_authority_revision :: int
  rp_policy_revision :: "int option"
  rp_generation :: int
  rp_configuration_digest :: "bytes option"
  rp_policy_digest :: "bytes option"
  rp_signed_policy :: "structured_value option"
  rp_expires_at :: "instant option"
  rp_acknowledged_at :: "instant option"

record gateway_db =
  organizations :: "organization_row list"
  sites :: "site_row list"
  agents :: "agent_row list"
  agent_keys :: "agent_key_row list"
  invitations :: "invitation_row list"
  invitation_attempts :: "invitation_attempt_row list"
  commands :: "command_row list"
  publications :: "publication_row list"
  audit_events :: "audit_event_row list"
  devices :: "device_row list"
  preflights :: "preflight_row list"
  managed_works :: "managed_work_row list"
  managed_payloads :: "managed_payload_row list"
  state_observations :: "state_observation_row list"
  router_policies :: "router_policy_row list"

definition empty_db :: gateway_db where
  "empty_db = \<lparr>organizations = [], sites = [], agents = [], agent_keys = [], invitations = [],
     invitation_attempts = [], commands = [], publications = [], audit_events = [], devices = [],
     preflights = [], managed_works = [], managed_payloads = [], state_observations = [],
     router_policies = []\<rparr>"

section \<open>Router authority triggers\<close>

text \<open>
  \<^verbatim>\<open>initialize_router_policy\<close> and \<^verbatim>\<open>invalidate_router_policy\<close>.  Adding one to the largest
  \<^verbatim>\<open>BIGINT\<close> fails the statement.
\<close>

definition initial_router_policy :: "string \<Rightarrow> router_policy_row" where
  "initial_router_policy organization_id =
    \<lparr>rp_organization_id = organization_id, rp_authority_revision = 0, rp_policy_revision = None,
     rp_generation = 0, rp_configuration_digest = None, rp_policy_digest = None,
     rp_signed_policy = None, rp_expires_at = None, rp_acknowledged_at = None\<rparr>"

definition invalidate_organization :: "string \<Rightarrow> gateway_db \<Rightarrow> gateway_db gateway_result" where
  "invalidate_organization organization_id db =
    (if exists_where (\<lambda>p. rp_organization_id p = organization_id \<and>
          checked_add_i64 (rp_authority_revision p) 1 = None) (router_policies db)
     then Inl Persistence
     else Inr (db\<lparr>router_policies := update_where (\<lambda>p. rp_organization_id p = organization_id)
            (\<lambda>p. p\<lparr>rp_authority_revision := rp_authority_revision p + 1, rp_acknowledged_at := None\<rparr>)
            (router_policies db)\<rparr>))"

definition trigger_agent_update ::
    "agent_row \<Rightarrow> agent_row \<Rightarrow> gateway_db \<Rightarrow> gateway_db gateway_result" where
  "trigger_agent_update old new db =
    and_then (invalidate_organization (ag_organization_id old) db)
      (invalidate_organization (ag_organization_id new))"

definition trigger_agent_key :: "agent_key_row \<Rightarrow> gateway_db \<Rightarrow> gateway_db gateway_result" where
  "trigger_agent_key key db =
    (case find_by ag_agent_id (ak_agent_id key) (agents db) of
       None \<Rightarrow> Inr db
     | Some agent \<Rightarrow> invalidate_organization (ag_organization_id agent) db)"

end
