(* ===== verification/Statements.thy ===== *)
theory Statements
  imports Schema
begin

text \<open>
  The constraints that the migrations declare, one predicate per table, and the INSERT
  and constrained UPDATE statements of the repositories.  A statement applies its change
  and fails with \<^const>\<open>Persistence\<close> when a constraint of its table does not hold
  afterwards; the row triggers on \<^verbatim>\<open>agents\<close>, \<^verbatim>\<open>agent_verification_keys\<close> and
  \<^verbatim>\<open>organizations\<close> run as part of it.  The locale \<open>row_store\<close> is what the repositories
  rely on: an inserted row is new, is found under its key and disturbs no other row.
\<close>

section \<open>Constraints\<close>

definition refers :: "('r \<Rightarrow> 'k) \<Rightarrow> ('p \<Rightarrow> 'k) \<Rightarrow> 'p list \<Rightarrow> 'r list \<Rightarrow> bool" where
  "refers fk pk parents rows = list_all (\<lambda>r. exists_where (\<lambda>p. pk p = fk r) parents) rows"

definition organizations_ok :: "gateway_db \<Rightarrow> bool" where
  "organizations_ok db \<longleftrightarrow> distinct (map org_organization_id (organizations db))"

definition sites_ok :: "gateway_db \<Rightarrow> bool" where
  "sites_ok db \<longleftrightarrow> distinct (map st_site_id (sites db)) \<and>
    distinct (map (\<lambda>s. (st_organization_id s, st_name s)) (sites db)) \<and>
    refers st_organization_id org_organization_id (organizations db) (sites db)"

definition agents_ok :: "gateway_db \<Rightarrow> bool" where
  "agents_ok db \<longleftrightarrow> distinct (map ag_agent_id (agents db)) \<and>
    distinct (map ag_key_id (agents db)) \<and> distinct (map ag_namespace (agents db)) \<and>
    refers ag_organization_id org_organization_id (organizations db) (agents db) \<and>
    refers ag_site_id st_site_id (sites db) (agents db)"

definition agent_keys_ok :: "gateway_db \<Rightarrow> bool" where
  "agent_keys_ok db \<longleftrightarrow> distinct (map ak_key_id (agent_keys db)) \<and>
    distinct (map ak_jwk_thumbprint (agent_keys db)) \<and>
    distinct (map (\<lambda>k. (ak_agent_id k, ak_purpose k))
      (filter (\<lambda>k. ak_retired_at k = None) (agent_keys db))) \<and>
    refers ak_agent_id ag_agent_id (agents db) (agent_keys db)"

definition invitations_ok :: "gateway_db \<Rightarrow> bool" where
  "invitations_ok db \<longleftrightarrow> distinct (map iv_invitation_id (invitations db)) \<and>
    list_all (\<lambda>i. length (iv_secret_digest i) = 32 \<and>
      (case iv_enrollment_fingerprint i of None \<Rightarrow> True | Some f \<Rightarrow> length f = 32)) (invitations db) \<and>
    refers iv_organization_id org_organization_id (organizations db) (invitations db) \<and>
    refers iv_site_id st_site_id (sites db) (invitations db)"

definition invitation_attempts_ok :: "gateway_db \<Rightarrow> bool" where
  "invitation_attempts_ok db \<longleftrightarrow>
    distinct (map (\<lambda>a. (at_invitation_id a, at_attempted_at a)) (invitation_attempts db)) \<and>
    refers at_invitation_id iv_invitation_id (invitations db) (invitation_attempts db)"

definition commands_ok :: "gateway_db \<Rightarrow> bool" where
  "commands_ok db \<longleftrightarrow> distinct (map cm_command_id (commands db)) \<and>
    distinct (map cm_message_id (commands db)) \<and>
    distinct (map (\<lambda>c. (cm_agent_id c, cm_sequence c)) (commands db)) \<and>
    list_all (\<lambda>c. cm_sequence c > 0 \<and> cm_sequence c \<le> i64_max \<and>
      length (cm_request_fingerprint c) = 32) (commands db) \<and>
    refers cm_agent_id ag_agent_id (agents db) (commands db)"

definition publications_ok :: "gateway_db \<Rightarrow> bool" where
  "publications_ok db \<longleftrightarrow> distinct (map pb_message_id (publications db)) \<and>
    refers pb_agent_id ag_agent_id (agents db) (publications db)"

definition audit_events_ok :: "gateway_db \<Rightarrow> bool" where
  "audit_events_ok db \<longleftrightarrow> distinct (map ae_event_id (audit_events db)) \<and>
    refers ae_organization_id org_organization_id (organizations db) (audit_events db)"

definition lowercase_hex :: "char \<Rightarrow> bool" where
  "lowercase_hex c \<longleftrightarrow> is_ascii_digit c \<or> (97 \<le> byte_of c \<and> byte_of c \<le> 102)"

definition devices_ok :: "gateway_db \<Rightarrow> bool" where
  "devices_ok db \<longleftrightarrow> distinct (map (\<lambda>d. (dv_agent_id d, dv_device_id d)) (devices db)) \<and>
    distinct (map (\<lambda>d. (dv_agent_id d, dv_kind d, dv_identity_digest d)) (devices db)) \<and>
    list_all (\<lambda>d. length (dv_identity_digest d) = 64 \<and> list_all lowercase_hex (dv_identity_digest d))
      (devices db) \<and>
    refers dv_agent_id ag_agent_id (agents db) (devices db) \<and>
    refers dv_site_id st_site_id (sites db) (devices db)"

definition preflights_ok :: "gateway_db \<Rightarrow> bool" where
  "preflights_ok db \<longleftrightarrow> distinct (map pf_preflight_id (preflights db))"

definition managed_works_ok :: "gateway_db \<Rightarrow> bool" where
  "managed_works_ok db \<longleftrightarrow> distinct (map mw_managed_work_id (managed_works db)) \<and>
    distinct (map mw_print_intent_id (managed_works db)) \<and>
    distinct (map (\<lambda>w. (mw_organization_id w, mw_idempotency_key w)) (managed_works db)) \<and>
    distinct (map (\<lambda>w. (mw_agent_id w, mw_print_job_id w))
      (filter (\<lambda>w. mw_print_job_id w \<noteq> None) (managed_works db))) \<and>
    list_all (\<lambda>w. length (mw_payload_fingerprint w) = 32 \<and> length (mw_request_fingerprint w) = 32 \<and>
      mw_payload_bytes w > 0) (managed_works db) \<and>
    refers mw_preflight_id pf_preflight_id (preflights db) (managed_works db) \<and>
    refers mw_organization_id org_organization_id (organizations db) (managed_works db) \<and>
    refers mw_site_id st_site_id (sites db) (managed_works db) \<and>
    refers mw_agent_id ag_agent_id (agents db) (managed_works db)"

definition managed_payloads_ok :: "gateway_db \<Rightarrow> bool" where
  "managed_payloads_ok db \<longleftrightarrow> distinct (map mp_managed_work_id (managed_payloads db)) \<and>
    list_all (\<lambda>p. length (mp_nonce p) = 12 \<and> length (mp_authenticated_data_digest p) = 32 \<and>
      length (mp_payload_fingerprint p) = 32 \<and> mp_plaintext_bytes p > 0 \<and>
      mp_wrapping_key_version p > 0) (managed_payloads db) \<and>
    refers mp_managed_work_id mw_managed_work_id (managed_works db) (managed_payloads db)"

definition state_observations_ok :: "gateway_db \<Rightarrow> bool" where
  "state_observations_ok db \<longleftrightarrow> distinct (map so_envelope_id (state_observations db)) \<and>
    refers so_managed_work_id mw_managed_work_id (managed_works db) (state_observations db) \<and>
    refers so_agent_id ag_agent_id (agents db) (state_observations db)"

definition router_policy_row_ok :: "router_policy_row \<Rightarrow> bool" where
  "router_policy_row_ok p \<longleftrightarrow> rp_authority_revision p \<ge> 0 \<and>
    0 \<le> rp_generation p \<and> rp_generation p \<le> 9007199254740991 \<and>
    (case rp_configuration_digest p of None \<Rightarrow> True | Some d \<Rightarrow> length d = 32) \<and>
    (case rp_policy_digest p of None \<Rightarrow> True | Some d \<Rightarrow> length d = 32) \<and>
    ((rp_generation p = 0 \<and> rp_policy_revision p = None \<and> rp_signed_policy p = None \<and>
      rp_policy_digest p = None \<and> rp_configuration_digest p = None \<and> rp_expires_at p = None) \<or>
     (rp_generation p > 0 \<and> rp_policy_revision p \<noteq> None \<and> rp_signed_policy p \<noteq> None \<and>
      rp_policy_digest p \<noteq> None \<and> rp_configuration_digest p \<noteq> None \<and> rp_expires_at p \<noteq> None))"

definition router_policies_ok :: "gateway_db \<Rightarrow> bool" where
  "router_policies_ok db \<longleftrightarrow> distinct (map rp_organization_id (router_policies db)) \<and>
    list_all router_policy_row_ok (router_policies db) \<and>
    refers rp_organization_id org_organization_id (organizations db) (router_policies db)"

definition db_ok :: "gateway_db \<Rightarrow> bool" where
  "db_ok db \<longleftrightarrow> organizations_ok db \<and> sites_ok db \<and> agents_ok db \<and> agent_keys_ok db \<and>
    invitations_ok db \<and> invitation_attempts_ok db \<and> commands_ok db \<and> publications_ok db \<and>
    audit_events_ok db \<and> devices_ok db \<and> preflights_ok db \<and> managed_works_ok db \<and>
    managed_payloads_ok db \<and> state_observations_ok db \<and> router_policies_ok db"

section \<open>Statements\<close>

definition statement :: "(gateway_db \<Rightarrow> bool) \<Rightarrow> gateway_db \<Rightarrow> gateway_db gateway_result" where
  "statement ok db = (if ok db then Inr db else Inl Persistence)"

definition insert_organization :: "organization_row \<Rightarrow> gateway_db \<Rightarrow> gateway_db gateway_result" where
  "insert_organization row db =
    and_then (statement organizations_ok (db\<lparr>organizations := organizations db @ [row]\<rparr>)) (\<lambda>db.
    statement router_policies_ok
      (db\<lparr>router_policies := router_policies db @ [initial_router_policy (org_organization_id row)]\<rparr>))"

definition insert_site :: "site_row \<Rightarrow> gateway_db \<Rightarrow> gateway_db gateway_result" where
  "insert_site row db = statement sites_ok (db\<lparr>sites := sites db @ [row]\<rparr>)"

definition insert_agent :: "agent_row \<Rightarrow> gateway_db \<Rightarrow> gateway_db gateway_result" where
  "insert_agent row db =
    and_then (statement agents_ok (db\<lparr>agents := agents db @ [row]\<rparr>))
      (invalidate_organization (ag_organization_id row))"

text \<open>\<^verbatim>\<open>ActiveModel::update\<close> of one Agent: \<open>new\<close> replaces the row with its primary key.\<close>

definition update_agent :: "agent_row \<Rightarrow> agent_row \<Rightarrow> gateway_db \<Rightarrow> gateway_db gateway_result" where
  "update_agent old new db =
    and_then (statement agents_ok
      (db\<lparr>agents := update_where (\<lambda>a. ag_agent_id a = ag_agent_id old) (\<lambda>_. new) (agents db)\<rparr>))
      (trigger_agent_update old new)"

definition insert_agent_key :: "agent_key_row \<Rightarrow> gateway_db \<Rightarrow> gateway_db gateway_result" where
  "insert_agent_key row db =
    and_then (statement agent_keys_ok (db\<lparr>agent_keys := agent_keys db @ [row]\<rparr>))
      (trigger_agent_key row)"

text \<open>\<^verbatim>\<open>UPDATE agent_verification_keys SET retired_at\<close>: the trigger runs once per changed row.\<close>

definition retire_agent_keys ::
    "(agent_key_row \<Rightarrow> bool) \<Rightarrow> instant \<Rightarrow> gateway_db \<Rightarrow> gateway_db gateway_result" where
  "retire_agent_keys P now db =
    try_fold trigger_agent_key (filter P (agent_keys db))
      (db\<lparr>agent_keys := update_where P (\<lambda>k. k\<lparr>ak_retired_at := Some now\<rparr>) (agent_keys db)\<rparr>)"

definition insert_invitation :: "invitation_row \<Rightarrow> gateway_db \<Rightarrow> gateway_db gateway_result" where
  "insert_invitation row db = statement invitations_ok (db\<lparr>invitations := invitations db @ [row]\<rparr>)"

text \<open>\<^verbatim>\<open>ActiveModel::update\<close> of one invitation.\<close>

definition update_invitation :: "invitation_row \<Rightarrow> gateway_db \<Rightarrow> gateway_db gateway_result" where
  "update_invitation new db = statement invitations_ok (db\<lparr>invitations :=
     update_where (\<lambda>i. iv_invitation_id i = iv_invitation_id new) (\<lambda>_. new) (invitations db)\<rparr>)"

definition insert_invitation_attempt ::
    "invitation_attempt_row \<Rightarrow> gateway_db \<Rightarrow> gateway_db gateway_result" where
  "insert_invitation_attempt row db =
    statement invitation_attempts_ok (db\<lparr>invitation_attempts := invitation_attempts db @ [row]\<rparr>)"

definition insert_command :: "command_row \<Rightarrow> gateway_db \<Rightarrow> gateway_db gateway_result" where
  "insert_command row db = statement commands_ok (db\<lparr>commands := commands db @ [row]\<rparr>)"

text \<open>\<^verbatim>\<open>INSERT ... ON CONFLICT (message_id) DO NOTHING\<close>, with whether a row was inserted.\<close>

definition insert_publication ::
    "publication_row \<Rightarrow> gateway_db \<Rightarrow> (gateway_db \<times> bool) gateway_result" where
  "insert_publication row db =
    (if exists_where (\<lambda>p. pb_message_id p = pb_message_id row) (publications db) then Inr (db, False)
     else and_then (statement publications_ok (db\<lparr>publications := publications db @ [row]\<rparr>))
            (\<lambda>db. Inr (db, True)))"

text \<open>The identity column gives a number above every earlier one.\<close>

definition next_event_id :: "gateway_db \<Rightarrow> int" where
  "next_event_id db = foldr max (map ae_event_id (audit_events db)) 0 + 1"

definition insert_audit_row :: "audit_event_row \<Rightarrow> gateway_db \<Rightarrow> gateway_db gateway_result" where
  "insert_audit_row row db =
    statement audit_events_ok (db\<lparr>audit_events := audit_events db @ [row]\<rparr>)"

definition insert_preflight :: "preflight_row \<Rightarrow> gateway_db \<Rightarrow> gateway_db gateway_result" where
  "insert_preflight row db = statement preflights_ok (db\<lparr>preflights := preflights db @ [row]\<rparr>)"

definition insert_managed_work :: "managed_work_row \<Rightarrow> gateway_db \<Rightarrow> gateway_db gateway_result" where
  "insert_managed_work row db =
    statement managed_works_ok (db\<lparr>managed_works := managed_works db @ [row]\<rparr>)"

definition update_managed_work :: "managed_work_row \<Rightarrow> gateway_db \<Rightarrow> gateway_db gateway_result" where
  "update_managed_work new db = statement managed_works_ok (db\<lparr>managed_works :=
     update_where (\<lambda>w. mw_managed_work_id w = mw_managed_work_id new) (\<lambda>_. new) (managed_works db)\<rparr>)"

definition insert_managed_payload ::
    "managed_payload_row \<Rightarrow> gateway_db \<Rightarrow> gateway_db gateway_result" where
  "insert_managed_payload row db =
    statement managed_payloads_ok (db\<lparr>managed_payloads := managed_payloads db @ [row]\<rparr>)"

definition insert_state_observation ::
    "state_observation_row \<Rightarrow> gateway_db \<Rightarrow> gateway_db gateway_result" where
  "insert_state_observation row db =
    statement state_observations_ok (db\<lparr>state_observations := state_observations db @ [row]\<rparr>)"

definition update_router_policy :: "router_policy_row \<Rightarrow> gateway_db \<Rightarrow> gateway_db gateway_result" where
  "update_router_policy new db = statement router_policies_ok (db\<lparr>router_policies :=
     update_where (\<lambda>p. rp_organization_id p = rp_organization_id new) (\<lambda>_. new) (router_policies db)\<rparr>)"

section \<open>Table lemmas\<close>

lemma find_by_Some:
  "find_by key k t = Some r \<Longrightarrow> r \<in> set t \<and> key r = k"
  by (auto simp: find_by_def find_Some_iff)

lemma find_by_None: "find_by key k t = None \<longleftrightarrow> k \<notin> key ` set t"
  by (auto simp: find_by_def find_None_iff)

lemma find_by_simps [simp]:
  "find_by key k [] = None"
  "find_by key k (r # t) = (if key r = k then Some r else find_by key k t)"
  by (simp_all add: find_by_def)

lemma find_by_append [table_simps]:
  "find_by key k (t @ u) = (case find_by key k t of Some r \<Rightarrow> Some r | None \<Rightarrow> find_by key k u)"
  by (induction t) (auto simp: find_by_def)

lemma find_by_unique:
  assumes "distinct (map key t)" and "r \<in> set t"
  shows "find_by key (key r) t = Some r"
  using assms by (induction t) (auto simp: find_by_def image_iff)

lemma find_by_unique_iff:
  assumes "distinct (map key t)"
  shows "find_by key k t = Some r \<longleftrightarrow> r \<in> set t \<and> key r = k"
  using assms find_by_unique find_by_Some by metis

lemma distinct_key_eq:
  "distinct (map key t) \<Longrightarrow> r \<in> set t \<Longrightarrow> s \<in> set t \<Longrightarrow> key r = key s \<Longrightarrow> r = s"
  by (metis find_by_unique option.inject)

lemma set_update_where [table_simps]:
  "set (update_where P f t) = (\<lambda>r. if P r then f r else r) ` set t"
  by (simp add: update_where_def)

lemma update_where_member:
  assumes "r \<in> set (update_where P f t)"
  obtains (changed) s where "s \<in> set t" "P s" "r = f s" | (kept) "r \<in> set t" "\<not> P r"
  using assms unfolding set_update_where by (auto split: if_splits)

lemma map_update_where:
  assumes "\<And>r. P r \<Longrightarrow> key (f r) = key r"
  shows "map key (update_where P f t) = map key t"
  using assms by (simp add: update_where_def)

lemma find_by_update_where:
  assumes "\<And>r. P r \<Longrightarrow> key (f r) = key r"
  shows "find_by key k (update_where P f t) =
    map_option (\<lambda>r. if P r then f r else r) (find_by key k t)"
  using assms by (induction t) (auto simp: find_by_def update_where_def)

lemma map_replace_row:
  assumes "key new = k" and "distinct (map key t)" and "r \<in> set t" and "key r = k" and "g new = g r"
  shows "map g (update_where (\<lambda>r. key r = k) (\<lambda>_. new) t) = map g t"
  using assms distinct_key_eq unfolding update_where_def by fastforce

lemma set_delete_where [table_simps]: "set (delete_where P t) = {r \<in> set t. \<not> P r}"
  by (auto simp: delete_where_def)

lemma distinct_delete_where: "distinct (map key t) \<Longrightarrow> distinct (map key (delete_where P t))"
  by (simp add: delete_where_def distinct_map_filter)

lemma exists_where_iff [simp]: "exists_where P t \<longleftrightarrow> (\<exists>r \<in> set t. P r)"
  by (auto simp: exists_where_def list_ex_iff)

lemma refers_iff: "refers fk pk parents rows \<longleftrightarrow> fk ` set rows \<subseteq> pk ` set parents"
  by (simp add: refers_def list_all_iff subset_iff image_iff) metis

lemma refers_mono:
  "refers fk pk parents rows \<Longrightarrow> pk ` set parents \<subseteq> pk ` set parents' \<Longrightarrow>
    fk ` set rows' \<subseteq> fk ` set rows \<Longrightarrow> refers fk pk parents' rows'"
  by (auto simp: refers_iff)

lemma statement_Inr [simp]: "statement ok db = Inr db' \<longleftrightarrow> ok db \<and> db' = db"
  by (auto simp: statement_def)

lemma statement_Inl [simp]: "statement ok db = Inl e \<longleftrightarrow> \<not> ok db \<and> e = Persistence"
  by (auto simp: statement_def)

lemma transaction_Inr:
  "transaction body db = (db', Inr x) \<longleftrightarrow> body db = Inr (db', Inr x)"
  by (auto simp: transaction_def split: sum.splits)

lemma transaction_eq:
  "transaction body db = (db', r) \<longleftrightarrow>
    (\<exists>e. body db = Inl e \<and> db' = db \<and> r = Inl e) \<or> body db = Inr (db', r)"
  by (auto simp: transaction_def split: sum.splits)

section \<open>The contract of a keyed table\<close>

locale row_store =
  fixes key :: "'r \<Rightarrow> 'k"
    and rows :: "'db \<Rightarrow> 'r list"
    and insert_row :: "'r \<Rightarrow> 'db \<Rightarrow> 'db gateway_result"
  assumes insert_rows: "insert_row r db = Inr db' \<Longrightarrow> rows db' = rows db @ [r]"
    and insert_unique: "insert_row r db = Inr db' \<Longrightarrow> distinct (map key (rows db'))"
begin

lemma insert_fresh: "insert_row r db = Inr db' \<Longrightarrow> key r \<notin> key ` set (rows db)"
  using insert_rows insert_unique by fastforce

lemma find_inserted: "insert_row r db = Inr db' \<Longrightarrow> find_by key (key r) (rows db') = Some r"
  using insert_rows insert_unique find_by_unique
  by (metis in_set_conv_decomp)

lemma find_other:
  "insert_row r db = Inr db' \<Longrightarrow> k \<noteq> key r \<Longrightarrow> find_by key k (rows db') = find_by key k (rows db)"
  using insert_rows [of r db db'] by (auto simp: find_by_append split: option.splits)

lemma find_kept:
  "insert_row r db = Inr db' \<Longrightarrow> find_by key k (rows db) = Some s \<Longrightarrow>
    find_by key k (rows db') = Some s"
  using insert_rows [of r db db'] by (simp add: find_by_append)

lemma insert_twice: "insert_row r db = Inr db' \<Longrightarrow> \<nexists>db''. insert_row r db' = Inr db''"
  using insert_fresh insert_rows by fastforce

end

section \<open>The statements implement the contract\<close>

text \<open>The triggers touch the policy table only.\<close>

lemma invalidate_organization_Inr:
  "invalidate_organization org db = Inr db' \<Longrightarrow>
    db' = db\<lparr>router_policies := update_where (\<lambda>p. rp_organization_id p = org)
      (\<lambda>p. p\<lparr>rp_authority_revision := rp_authority_revision p + 1, rp_acknowledged_at := None\<rparr>)
      (router_policies db)\<rparr>"
  by (simp add: invalidate_organization_def split: if_splits)

lemma invalidate_organization_frame:
  "invalidate_organization org db = Inr db' \<Longrightarrow> db' = db\<lparr>router_policies := router_policies db'\<rparr>"
  by (drule invalidate_organization_Inr) simp

lemma policies_only_trans:
  assumes "b = a\<lparr>router_policies := router_policies b\<rparr>" and "c = b\<lparr>router_policies := router_policies c\<rparr>"
  shows "c = a\<lparr>router_policies := router_policies c\<rparr>"
proof -
  have "b\<lparr>router_policies := router_policies c\<rparr> = a\<lparr>router_policies := router_policies c\<rparr>"
    using arg_cong [OF assms(1), of "\<lambda>d. d\<lparr>router_policies := router_policies c\<rparr>"] by simp
  then show ?thesis using assms(2) by metis
qed

lemma trigger_agent_update_frame:
  "trigger_agent_update old new db = Inr db' \<Longrightarrow> db' = db\<lparr>router_policies := router_policies db'\<rparr>"
  unfolding trigger_agent_update_def and_then_eq_Inr
  using invalidate_organization_frame policies_only_trans by blast

lemma trigger_agent_key_frame:
  "trigger_agent_key k db = Inr db' \<Longrightarrow> db' = db\<lparr>router_policies := router_policies db'\<rparr>"
  by (auto simp: trigger_agent_key_def intro: invalidate_organization_frame split: option.splits)

lemma trigger_agent_keys_frame:
  assumes "try_fold trigger_agent_key ks db = Inr db'"
  shows "db' = db\<lparr>router_policies := router_policies db'\<rparr>"
  using assms
proof (rule try_fold_invariant)
  fix x u v
  assume "u = db\<lparr>router_policies := router_policies u\<rparr>" and "trigger_agent_key x u = Inr v"
  then show "v = db\<lparr>router_policies := router_policies v\<rparr>"
    using trigger_agent_key_frame policies_only_trans by blast
qed simp

interpretation organization_store: row_store org_organization_id organizations insert_organization
  by unfold_locales (auto simp: insert_organization_def result_simps organizations_ok_def)

interpretation site_store: row_store st_site_id sites insert_site
  by unfold_locales (auto simp: insert_site_def sites_ok_def)

interpretation agent_store: row_store ag_agent_id agents insert_agent
  by unfold_locales
    (auto simp: insert_agent_def result_simps agents_ok_def dest!: invalidate_organization_Inr)

interpretation agent_key_store: row_store ak_key_id agent_keys insert_agent_key
  by unfold_locales
    (auto simp: insert_agent_key_def result_simps agent_keys_ok_def
       dest!: trigger_agent_key_frame dest: arg_cong [where f = agent_keys])

interpretation invitation_store: row_store iv_invitation_id invitations insert_invitation
  by unfold_locales (auto simp: insert_invitation_def invitations_ok_def)

interpretation attempt_store: row_store "\<lambda>a. (at_invitation_id a, at_attempted_at a)"
    invitation_attempts insert_invitation_attempt
  by unfold_locales (auto simp: insert_invitation_attempt_def invitation_attempts_ok_def)

interpretation command_store: row_store cm_command_id commands insert_command
  by unfold_locales (auto simp: insert_command_def commands_ok_def)

interpretation audit_store: row_store ae_event_id audit_events insert_audit_row
  by unfold_locales (auto simp: insert_audit_row_def audit_events_ok_def)

interpretation preflight_store: row_store pf_preflight_id preflights insert_preflight
  by unfold_locales (auto simp: insert_preflight_def preflights_ok_def)

interpretation work_store: row_store mw_managed_work_id managed_works insert_managed_work
  by unfold_locales (auto simp: insert_managed_work_def managed_works_ok_def)

interpretation payload_store: row_store mp_managed_work_id managed_payloads insert_managed_payload
  by unfold_locales (auto simp: insert_managed_payload_def managed_payloads_ok_def)

interpretation observation_store: row_store so_envelope_id state_observations insert_state_observation
  by unfold_locales (auto simp: insert_state_observation_def state_observations_ok_def)

end
