(* ===== verification/Onboarding_Code.thy ===== *)
theory Onboarding_Code
  imports Identifiers
begin

text \<open>
  Invitation codes (\<^verbatim>\<open>onboarding/code.rs\<close>): the public invitation id, the secret, the
  normalised code whose digest is stored, and the grouped form people type.
  The entropy of \<open>generate\<close> comes from \<^verbatim>\<open>getrandom\<close> and its encoding from
  \<^verbatim>\<open>data_encoding\<close>; both are arguments.  \<open>sha256\<close> stands for \<^verbatim>\<open>Sha256::digest\<close>.
\<close>

section \<open>Definitions\<close>

definition ID_LENGTH :: nat where
  "ID_LENGTH = 12"

definition SECRET_LENGTH :: nat where
  "SECRET_LENGTH = 32"

definition PREFIX :: string where
  "PREFIX = ''INR''"

definition ALPHABET :: string where
  "ALPHABET = ''ABCDEFGHIJKLMNOPQRSTUVWXYZ234567''"

datatype invitation_id = InvitationId (invitation_id_str: string)
datatype invitation_secret = InvitationSecret (secret_expose: string)

definition base32_text :: "nat \<Rightarrow> string \<Rightarrow> bool" where
  "base32_text n s \<longleftrightarrow> length s = n \<and> list_all (\<lambda>c. is_ascii c \<and> c \<in> set ALPHABET) s"

definition InvitationId_from_str :: "string \<Rightarrow> invitation_id gateway_result" where
  "InvitationId_from_str value =
    (let normalized = map to_ascii_uppercase (trim value) in
     if \<not> base32_text ID_LENGTH normalized then
       Inl (InvalidInput ''invitation id must contain 12 RFC 4648 base32 characters'')
     else Inr (InvitationId normalized))"

definition InvitationSecret_from_str :: "string \<Rightarrow> invitation_secret gateway_result" where
  "InvitationSecret_from_str value =
    (let normalized = map to_ascii_uppercase (trim value) in
     if \<not> base32_text SECRET_LENGTH normalized then
       Inl (InvalidInput ''invitation secret must contain 32 RFC 4648 base32 characters'')
     else Inr (InvitationSecret normalized))"

definition InvitationId_generate ::
    "(nat \<Rightarrow> string + bytes) \<Rightarrow> (bytes \<Rightarrow> string) \<Rightarrow> invitation_id gateway_result" where
  "InvitationId_generate getrandom base32 =
    (case getrandom 8 of
       Inl error \<Rightarrow> Inl (Unavailable (''secure random generator unavailable: '' @ error))
     | Inr entropy \<Rightarrow> InvitationId_from_str (take ID_LENGTH (base32 entropy)))"

definition InvitationSecret_generate ::
    "(nat \<Rightarrow> string + bytes) \<Rightarrow> (bytes \<Rightarrow> string) \<Rightarrow> invitation_secret gateway_result" where
  "InvitationSecret_generate getrandom base32 =
    (case getrandom 20 of
       Inl error \<Rightarrow> Inl (Unavailable (''secure random generator unavailable: '' @ error))
     | Inr entropy \<Rightarrow> InvitationSecret_from_str (base32 entropy))"

record invitation_code =
  ic_id :: invitation_id
  ic_secret :: invitation_secret

definition InvitationCode_generate ::
    "(nat \<Rightarrow> string + bytes) \<Rightarrow> (bytes \<Rightarrow> string) \<Rightarrow> invitation_code gateway_result" where
  "InvitationCode_generate getrandom base32 =
    and_then (InvitationId_generate getrandom base32) (\<lambda>i.
    and_then (InvitationSecret_generate getrandom base32) (\<lambda>s.
      Inr \<lparr>ic_id = i, ic_secret = s\<rparr>))"

definition normalized :: "invitation_code \<Rightarrow> string" where
  "normalized code = PREFIX @ invitation_id_str (ic_id code) @ secret_expose (ic_secret code)"

definition secret_digest :: "(string \<Rightarrow> bytes) \<Rightarrow> invitation_code \<Rightarrow> bytes" where
  "secret_digest sha256 code = sha256 (normalized code)"

fun chunks :: "nat \<Rightarrow> 'a list \<Rightarrow> 'a list list" where
  "chunks n [] = []"
| "chunks n (x # xs) = (if n = 0 then [] else take n (x # xs) # chunks n (drop n (x # xs)))"

fun join :: "'a list \<Rightarrow> 'a list list \<Rightarrow> 'a list" where
  "join sep [] = []"
| "join sep [xs] = xs"
| "join sep (xs # ys # zs) = xs @ sep @ join sep (ys # zs)"

definition manual :: "invitation_code \<Rightarrow> string" where
  "manual code =
    (let groups = join ''-'' (chunks 4 (secret_expose (ic_secret code)))
     in PREFIX @ ''-'' @ invitation_id_str (ic_id code) @ ''-'' @ groups)"

definition InvitationCode_from_str :: "string \<Rightarrow> invitation_code gateway_result" where
  "InvitationCode_from_str value =
    (if \<not> list_all is_ascii value then Inl (InvalidInput ''invitation code must be ASCII'')
     else
       let norm = map to_ascii_uppercase
                    (filter (\<lambda>byte. \<not> is_ascii_whitespace byte \<and> byte \<noteq> CHR ''-'') value)
       in and_then (ok_or (InvalidInput ''invalid invitation code prefix'') (strip_prefix PREFIX norm))
            (\<lambda>body.
              if length body \<noteq> ID_LENGTH + SECRET_LENGTH then
                Inl (InvalidInput ''invalid invitation code length'')
              else
                and_then (InvitationId_from_str (take ID_LENGTH body)) (\<lambda>i.
                and_then (InvitationSecret_from_str (drop ID_LENGTH body)) (\<lambda>s.
                  Inr \<lparr>ic_id = i, ic_secret = s\<rparr>))))"

text \<open>The codes the program can hold: both parts went through their \<^verbatim>\<open>FromStr\<close>.\<close>

definition code_wf :: "invitation_code \<Rightarrow> bool" where
  "code_wf code \<longleftrightarrow> base32_text ID_LENGTH (invitation_id_str (ic_id code)) \<and>
    base32_text SECRET_LENGTH (secret_expose (ic_secret code))"

section \<open>Lemmas\<close>

subsection \<open>The base32 alphabet\<close>

lemma alphabet_upper: "list_all (\<lambda>c. to_ascii_uppercase c = c) ALPHABET"
  by code_simp

lemma alphabet_plain:
  "list_all (\<lambda>c. is_ascii c \<and> \<not> is_ascii_whitespace c \<and> c \<noteq> CHR ''-'') ALPHABET"
  by code_simp

lemma alphabet_no_white_space:
  "list_all (\<lambda>c. list_all (\<lambda>w. hd w \<noteq> c \<and> last w \<noteq> c \<and> w \<noteq> []) white_space_encodings) ALPHABET"
  by code_simp

lemma base32_upper: "base32_text n s \<Longrightarrow> map to_ascii_uppercase s = s"
  using alphabet_upper by (auto simp: base32_text_def list_all_iff intro: map_idI)

lemma base32_plain:
  assumes "base32_text n s"
  shows "list_all is_ascii s" and "filter (\<lambda>b. \<not> is_ascii_whitespace b \<and> b \<noteq> CHR ''-'') s = s"
  using assms alphabet_plain by (auto simp: base32_text_def list_all_iff intro: filter_True)

lemma strip_any_None:
  assumes "s = [] \<or> list_all (\<lambda>w. hd w \<noteq> hd s) ws" and "list_all (\<lambda>w. w \<noteq> []) ws"
  shows "strip_any ws s = None"
  using assms
proof (induction ws)
  case (Cons w ws)
  then have "strip_prefix w s = None"
    by (cases w) (auto simp: strip_prefix_None_iff)
  then show ?case using Cons by auto
qed simp

lemma trim_fuel_None: "strip_any ws s = None \<Longrightarrow> trim_fuel ws n s = s"
  by (cases n) simp_all

lemma base32_trim:
  assumes "base32_text n s"
  shows "trim s = s"
proof (cases "s = []")
  case False
  have ends: "hd s \<in> set ALPHABET" "last s \<in> set ALPHABET"
    using assms False by (auto simp: base32_text_def list_all_iff)
  have "strip_any white_space_encodings s = None"
    using ends alphabet_no_white_space by (intro strip_any_None) (auto simp: list_all_iff)
  moreover have "strip_any (map rev white_space_encodings) (rev s) = None"
    using ends alphabet_no_white_space False
    by (intro strip_any_None) (auto simp: list_all_iff hd_rev)
  ultimately show ?thesis
    by (simp add: trim_def trim_start_def trim_end_def trim_fuel_None)
qed (simp add: trim_def trim_start_def trim_end_def)

subsection \<open>Parsing and printing\<close>

lemma InvitationId_from_str_base32:
  "base32_text ID_LENGTH s \<Longrightarrow> InvitationId_from_str s = Inr (InvitationId s)"
  by (simp add: InvitationId_from_str_def base32_trim base32_upper)

lemma InvitationSecret_from_str_base32:
  "base32_text SECRET_LENGTH s \<Longrightarrow> InvitationSecret_from_str s = Inr (InvitationSecret s)"
  by (simp add: InvitationSecret_from_str_def base32_trim base32_upper)

lemma InvitationId_from_str_wf:
  "InvitationId_from_str v = Inr i \<Longrightarrow> base32_text ID_LENGTH (invitation_id_str i)"
  by (auto simp: InvitationId_from_str_def Let_def split: if_splits)

lemma InvitationSecret_from_str_wf:
  "InvitationSecret_from_str v = Inr i \<Longrightarrow> base32_text SECRET_LENGTH (secret_expose i)"
  by (auto simp: InvitationSecret_from_str_def Let_def split: if_splits)

interpretation InvitationId: text_id InvitationId_from_str invitation_id_str
proof unfold_locales
  fix s i
  assume "InvitationId_from_str s = Inr i"
  then show "InvitationId_from_str (invitation_id_str i) = Inr i"
    using InvitationId_from_str_base32 InvitationId_from_str_wf by fastforce
qed (rule invitation_id.expand)

interpretation InvitationSecret: text_id InvitationSecret_from_str secret_expose
proof unfold_locales
  fix s i
  assume "InvitationSecret_from_str s = Inr i"
  then show "InvitationSecret_from_str (secret_expose i) = Inr i"
    using InvitationSecret_from_str_base32 InvitationSecret_from_str_wf by fastforce
qed (rule invitation_secret.expand)

lemma concat_chunks: "0 < n \<Longrightarrow> concat (chunks n xs) = xs"
  by (induction n xs rule: chunks.induct) auto

lemma filter_join:
  assumes "filter P sep = []"
  shows "filter P (join sep xss) = concat (map (filter P) xss)"
  using assms by (induction sep xss rule: join.induct) auto

lemma set_join: "set (join sep xss) \<subseteq> set sep \<union> (\<Union>xs \<in> set xss. set xs)"
  by (induction sep xss rule: join.induct) auto

lemma filter_concat_map: "concat (map (filter P) xss) = filter P (concat xss)"
  by (induction xss) auto

lemma InvitationCode_from_str_body:
  assumes "code_wf c" and "list_all is_ascii value"
    and "filter (\<lambda>b. \<not> is_ascii_whitespace b \<and> b \<noteq> CHR ''-'') value = normalized c"
  shows "InvitationCode_from_str value = Inr c"
proof -
  let ?i = "invitation_id_str (ic_id c)" and ?s = "secret_expose (ic_secret c)"
  have wf: "base32_text ID_LENGTH ?i" "base32_text SECRET_LENGTH ?s"
    using assms(1) by (simp_all add: code_wf_def)
  have upper: "map to_ascii_uppercase (normalized c) = PREFIX @ ?i @ ?s"
    using wf by (simp add: normalized_def base32_upper, code_simp)
  have len: "length ?i = ID_LENGTH" "length ?s = SECRET_LENGTH"
    using wf by (simp_all add: base32_text_def)
  show ?thesis
    using assms(2,3) wf len upper
    by (simp add: InvitationCode_from_str_def InvitationId_from_str_base32
        InvitationSecret_from_str_base32)
qed

lemma InvitationCode_from_str_wf:
  assumes "InvitationCode_from_str value = Inr c"
  shows "code_wf c"
  using assms InvitationId_from_str_wf InvitationSecret_from_str_wf
  by (auto simp: InvitationCode_from_str_def code_wf_def result_simps Let_def split: if_splits)

lemma InvitationCode_generate_wf:
  assumes "InvitationCode_generate getrandom base32 = Inr c"
  shows "code_wf c"
  using assms InvitationId_from_str_wf InvitationSecret_from_str_wf
  by (auto simp: InvitationCode_generate_def InvitationId_generate_def InvitationSecret_generate_def
      code_wf_def result_simps split: sum.splits)

section \<open>Properties\<close>

text \<open>
  C27. Invitation codes round-trip: every code the program can hold is recovered by
  parsing its grouped form and by parsing its normalised form, and the stored digest
  of the parsed code is the digest of the original.
\<close>

theorem invitation_code_round_trip:
  assumes "code_wf c"
  shows "InvitationCode_from_str (manual c) = Inr c \<and> InvitationCode_from_str (normalized c) = Inr c"
proof
  let ?i = "invitation_id_str (ic_id c)" and ?s = "secret_expose (ic_secret c)"
  let ?P = "\<lambda>b. \<not> is_ascii_whitespace b \<and> b \<noteq> CHR ''-''"
  have wf: "base32_text ID_LENGTH ?i" "base32_text SECRET_LENGTH ?s"
    using assms by (simp_all add: code_wf_def)
  note plain = base32_plain [OF wf(1)] base32_plain [OF wf(2)]
  have pre: "list_all is_ascii (PREFIX @ ''-'')" "filter ?P PREFIX = PREFIX" "filter ?P ''-'' = []"
    by code_simp+
  have groups: "concat (map (filter ?P) (chunks 4 ?s)) = ?s"
    using plain(4) by (simp add: filter_concat_map concat_chunks)
  have "set (join ''-'' (chunks 4 ?s)) \<subseteq> {CHR ''-''} \<union> set (concat (chunks 4 ?s))"
    using set_join [of "''-''" "chunks 4 ?s"] by simp
  then have "list_all is_ascii (join ''-'' (chunks 4 ?s))"
    using plain(3) pre(1) by (auto simp: concat_chunks list_all_iff)
  then have "list_all is_ascii (manual c)"
    using plain(1) pre(1) by (simp add: manual_def Let_def)
  moreover have "filter ?P (manual c) = normalized c"
    using plain(2) pre groups
    by (simp add: manual_def Let_def normalized_def filter_join)
  ultimately show "InvitationCode_from_str (manual c) = Inr c"
    using assms by (rule InvitationCode_from_str_body [rotated])
  have "filter ?P (normalized c) = normalized c" "list_all is_ascii (normalized c)"
    using plain pre by (simp_all add: normalized_def)
  then show "InvitationCode_from_str (normalized c) = Inr c"
    using assms by (intro InvitationCode_from_str_body)
qed

theorem invitation_code_round_trip_witness:
  "InvitationCode_from_str (manual
     \<lparr>ic_id = InvitationId ''ABCDEFGHIJKL'', ic_secret = InvitationSecret ''ABCDEFGH234567MNABCDEFGH234567MN''\<rparr>)
   = Inr \<lparr>ic_id = InvitationId ''ABCDEFGHIJKL'', ic_secret = InvitationSecret ''ABCDEFGH234567MNABCDEFGH234567MN''\<rparr>"
proof (rule conjunct1 [OF invitation_code_round_trip])
  show "code_wf \<lparr>ic_id = InvitationId ''ABCDEFGHIJKL'',
          ic_secret = InvitationSecret ''ABCDEFGH234567MNABCDEFGH234567MN''\<rparr>"
    by code_simp
qed

end
