(* ===== verification/Audit_Log.thy ===== *)
theory Audit_Log
  imports Statements Onboarding_Code
begin

text \<open>
  Audit events (\<^verbatim>\<open>audit.rs\<close>, \<^verbatim>\<open>persistence/audit.rs\<close>): actions, resources and outcomes
  with their stored text, the insert statement and the paged query.  The locale
  \<open>stored_enum\<close> is the contract between the printed and the parsed form of an enum.
\<close>

section \<open>Definitions\<close>

datatype audit_action =
    ActionJobCreated | ActionJobCancellationRequested | ActionManagedWorkSubmitted
  | ActionInvitationCreated | ActionInvitationRevoked | ActionAgentEnrolled
  | ActionAgentCredentialsRetired | ActionAgentInventoryRejected | ActionZenohRead | ActionZenohWrite

fun AuditAction_as_str :: "audit_action \<Rightarrow> string" where
  "AuditAction_as_str ActionJobCreated = ''job.created''"
| "AuditAction_as_str ActionJobCancellationRequested = ''job.cancellation_requested''"
| "AuditAction_as_str ActionManagedWorkSubmitted = ''managed_work.submitted''"
| "AuditAction_as_str ActionInvitationCreated = ''invitation.created''"
| "AuditAction_as_str ActionInvitationRevoked = ''invitation.revoked''"
| "AuditAction_as_str ActionAgentEnrolled = ''agent.enrolled''"
| "AuditAction_as_str ActionAgentCredentialsRetired = ''agent.credentials_retired''"
| "AuditAction_as_str ActionAgentInventoryRejected = ''agent.inventory_rejected''"
| "AuditAction_as_str ActionZenohRead = ''zenoh.read''"
| "AuditAction_as_str ActionZenohWrite = ''zenoh.write''"

datatype audit_resource =
    ResourceController
  | ResourceAgent agent_id
  | ResourceInvitation invitation_id
  | ResourceJob job_id
  | ResourceManagedWork managed_work_id
  | ResourceZenohSelector string

fun storage_parts :: "audit_resource \<Rightarrow> string \<times> string option" where
  "storage_parts ResourceController = (''controller'', None)"
| "storage_parts (ResourceAgent a) = (''agent'', Some (agent_str a))"
| "storage_parts (ResourceInvitation i) = (''invitation'', Some (invitation_id_str i))"
| "storage_parts (ResourceJob j) = (''job'', Some (job_str j))"
| "storage_parts (ResourceManagedWork w) = (''managed_work'', Some (work_str w))"
| "storage_parts (ResourceZenohSelector s) = (''zenoh_selector'', Some s)"

text \<open>Rust's \<^verbatim>\<open>{:?}\<close> of a string, with the escapes of the ASCII characters.\<close>

definition debug_char :: "char \<Rightarrow> string" where
  "debug_char c =
    (if c = CHR 0x22 \<or> c = CHR 0x5C then [CHR 0x5C, c]
     else if c = CHR 0x0A then [CHR 0x5C, CHR ''n'']
     else if c = CHR 0x0D then [CHR 0x5C, CHR ''r'']
     else if c = CHR 0x09 then [CHR 0x5C, CHR ''t'']
     else if c = CHR 0x00 then [CHR 0x5C, CHR ''0'']
     else [c])"

definition debug_str :: "string \<Rightarrow> string" where
  "debug_str s = [CHR 0x22] @ concat (map debug_char s) @ [CHR 0x22]"

definition from_storage :: "string \<Rightarrow> string option \<Rightarrow> audit_resource gateway_result" where
  "from_storage kind ident =
    (let required_id = ok_or (CorruptState
           (''audit resource '' @ debug_str kind @ '' is missing its identifier'')) ident
     in if kind = ''controller'' then Inr ResourceController
        else if kind = ''agent'' then
          and_then (and_then required_id AgentId_from_str) (\<lambda>a. Inr (ResourceAgent a))
        else if kind = ''invitation'' then
          and_then (and_then required_id InvitationId_from_str) (\<lambda>i. Inr (ResourceInvitation i))
        else if kind = ''job'' then
          and_then (and_then required_id JobId_from_str) (\<lambda>j. Inr (ResourceJob j))
        else if kind = ''managed_work'' then
          and_then (and_then required_id ManagedWorkId_from_str) (\<lambda>w. Inr (ResourceManagedWork w))
        else if kind = ''zenoh_selector'' then
          and_then required_id (\<lambda>s. Inr (ResourceZenohSelector s))
        else Inl (CorruptState (''unknown audit resource kind '' @ debug_str kind)))"

datatype audit_outcome = OutcomeSucceeded | OutcomeDenied | OutcomeFailed

fun AuditOutcome_as_str :: "audit_outcome \<Rightarrow> string" where
  "AuditOutcome_as_str OutcomeSucceeded = ''succeeded''"
| "AuditOutcome_as_str OutcomeDenied = ''denied''"
| "AuditOutcome_as_str OutcomeFailed = ''failed''"

record audit_event =
  ev_event_id :: int
  ev_actor_id :: actor_id
  ev_action :: audit_action
  ev_resource :: audit_resource
  ev_outcome :: audit_outcome
  ev_request_id :: "string option"
  ev_occurred_at :: instant

record audit_event_draft =
  dr_organization_id :: organization_id
  dr_actor_id :: actor_id
  dr_action :: audit_action
  dr_resource :: audit_resource
  dr_outcome :: audit_outcome
  dr_request_id :: "string option"

record audit_context =
  ctx_actor_id :: actor_id
  ctx_request_id :: "string option"

text \<open>\<open>now\<close> is the \<^verbatim>\<open>CURRENT_TIMESTAMP\<close> default of \<^verbatim>\<open>occurred_at\<close>.\<close>

definition audit_row :: "instant \<Rightarrow> audit_event_draft \<Rightarrow> gateway_db \<Rightarrow> audit_event_row" where
  "audit_row now draft db =
    \<lparr>ae_event_id = next_event_id db,
     ae_organization_id = organization_str (dr_organization_id draft),
     ae_actor_id = actor_str (dr_actor_id draft),
     ae_action = AuditAction_as_str (dr_action draft),
     ae_resource_kind = fst (storage_parts (dr_resource draft)),
     ae_resource_id = snd (storage_parts (dr_resource draft)),
     ae_outcome = AuditOutcome_as_str (dr_outcome draft),
     ae_request_id = dr_request_id draft,
     ae_detail = [],
     ae_occurred_at = now\<rparr>"

definition insert_audit_event ::
    "instant \<Rightarrow> audit_event_draft \<Rightarrow> gateway_db \<Rightarrow> gateway_db gateway_result" where
  "insert_audit_event now draft db = insert_audit_row (audit_row now draft db) db"

definition record_audit_event ::
    "instant \<Rightarrow> audit_event_draft \<Rightarrow> gateway_db \<Rightarrow> gateway_db \<times> unit gateway_result" where
  "record_audit_event now draft =
    transaction (\<lambda>db. and_then (insert_audit_event now draft db) (\<lambda>db'. Inr (db', Inr ())))"

definition parse_action :: "string \<Rightarrow> audit_action gateway_result" where
  "parse_action value =
    (if value = ''job.created'' then Inr ActionJobCreated
     else if value = ''job.cancellation_requested'' then Inr ActionJobCancellationRequested
     else if value = ''managed_work.submitted'' then Inr ActionManagedWorkSubmitted
     else if value = ''invitation.created'' then Inr ActionInvitationCreated
     else if value = ''invitation.revoked'' then Inr ActionInvitationRevoked
     else if value = ''agent.enrolled'' then Inr ActionAgentEnrolled
     else if value = ''agent.credentials_retired'' then Inr ActionAgentCredentialsRetired
     else if value = ''agent.inventory_rejected'' then Inr ActionAgentInventoryRejected
     else if value = ''zenoh.read'' then Inr ActionZenohRead
     else if value = ''zenoh.write'' then Inr ActionZenohWrite
     else Inl (CorruptState (''unknown audit action '' @ debug_str value)))"

definition parse_outcome :: "string \<Rightarrow> audit_outcome gateway_result" where
  "parse_outcome value =
    (if value = ''succeeded'' then Inr OutcomeSucceeded
     else if value = ''denied'' then Inr OutcomeDenied
     else if value = ''failed'' then Inr OutcomeFailed
     else Inl (CorruptState (''unknown audit outcome '' @ debug_str value)))"

definition audit_from_model :: "audit_event_row \<Rightarrow> audit_event gateway_result" where
  "audit_from_model model =
    and_then (ActorId_from_str (ae_actor_id model)) (\<lambda>actor.
    and_then (parse_action (ae_action model)) (\<lambda>action.
    and_then (from_storage (ae_resource_kind model) (ae_resource_id model)) (\<lambda>resource.
    and_then (parse_outcome (ae_outcome model)) (\<lambda>outcome.
      Inr \<lparr>ev_event_id = ae_event_id model, ev_actor_id = actor, ev_action = action,
           ev_resource = resource, ev_outcome = outcome, ev_request_id = ae_request_id model,
           ev_occurred_at = ae_occurred_at model\<rparr>))))"

definition audit_events_query ::
    "organization_id \<Rightarrow> int option \<Rightarrow> 16 word \<Rightarrow> gateway_db \<Rightarrow> audit_event list gateway_result" where
  "audit_events_query org before limit db =
    try_map audit_from_model
      (take (unat limit)
        (sort_key (\<lambda>r. - ae_event_id r)
          (filter (\<lambda>r. ae_organization_id r = organization_str org \<and>
             (case before of None \<Rightarrow> True | Some b \<Rightarrow> ae_event_id r < b)) (audit_events db))))"

section \<open>The contract of a stored enum\<close>

locale stored_enum = exact_text_id from_str as_str
  for from_str :: "string \<Rightarrow> 'i gateway_result" and as_str :: "'i \<Rightarrow> string" +
  assumes total: "from_str (as_str i) = Inr i"
begin

lemma from_str_iff: "from_str s = Inr i \<longleftrightarrow> s = as_str i"
  using exact total by blast

lemma unknown_text: "s \<notin> range as_str \<longleftrightarrow> (\<exists>e. from_str s = Inl e)"
  using total exact by (metis Inl_Inr_False rangeE range_eqI sumE)

end

section \<open>Lemmas\<close>

interpretation AuditAction: stored_enum parse_action AuditAction_as_str
proof unfold_locales
  fix s i j
  show "parse_action s = Inr i \<Longrightarrow> AuditAction_as_str i = s"
    by (auto simp: parse_action_def split: if_splits)
  show "AuditAction_as_str i = AuditAction_as_str j \<Longrightarrow> i = j"
    by (cases i; cases j) simp_all
  show "parse_action (AuditAction_as_str i) = Inr i"
    by (cases i) (simp_all add: parse_action_def)
qed

interpretation AuditOutcome: stored_enum parse_outcome AuditOutcome_as_str
proof unfold_locales
  fix s i j
  show "parse_outcome s = Inr i \<Longrightarrow> AuditOutcome_as_str i = s"
    by (auto simp: parse_outcome_def split: if_splits)
  show "AuditOutcome_as_str i = AuditOutcome_as_str j \<Longrightarrow> i = j"
    by (cases i; cases j) simp_all
  show "parse_outcome (AuditOutcome_as_str i) = Inr i"
    by (cases i) (simp_all add: parse_outcome_def)
qed

text \<open>Drafts whose identifiers went through their parsers, as every Rust value did.\<close>

fun resource_wf :: "audit_resource \<Rightarrow> bool" where
  "resource_wf ResourceController = True"
| "resource_wf (ResourceAgent a) = is_ok (AgentId_from_str (agent_str a))"
| "resource_wf (ResourceInvitation i) = base32_text ID_LENGTH (invitation_id_str i)"
| "resource_wf (ResourceJob j) = is_ok (JobId_from_str (job_str j))"
| "resource_wf (ResourceManagedWork w) = is_ok (ManagedWorkId_from_str (work_str w))"
| "resource_wf (ResourceZenohSelector s) = True"

definition draft_wf :: "audit_event_draft \<Rightarrow> bool" where
  "draft_wf d \<longleftrightarrow> resource_wf (dr_resource d) \<and> is_ok (ActorId_from_str (actor_str (dr_actor_id d)))"

lemma parsed_again:
  assumes "exact_text_id from_str as_str" and "is_ok (from_str (as_str i))"
  shows "from_str (as_str i) = Inr i"
  using assms by (metis exact_text_id.exact exact_text_id.exact_as_str_inj is_ok_iff)

lemma from_storage_storage_parts:
  assumes "resource_wf r"
  shows "from_storage (fst (storage_parts r)) (snd (storage_parts r)) = Inr r"
proof (cases r)
  case (ResourceAgent a)
  then show ?thesis using assms parsed_again [OF AgentId.exact_text_id_axioms, of a]
    by (simp add: from_storage_def)
next
  case (ResourceInvitation i)
  then show ?thesis using assms by (simp add: from_storage_def InvitationId_from_str_base32)
next
  case (ResourceJob j)
  then show ?thesis using assms parsed_again [OF JobId.exact_text_id_axioms, of j]
    by (simp add: from_storage_def)
next
  case (ResourceManagedWork w)
  then show ?thesis using assms parsed_again [OF ManagedWorkId.exact_text_id_axioms, of w]
    by (simp add: from_storage_def)
qed (simp_all add: from_storage_def)

lemma audit_from_model_row:
  assumes "draft_wf d"
  shows "audit_from_model (audit_row now d db) =
    Inr \<lparr>ev_event_id = next_event_id db, ev_actor_id = dr_actor_id d, ev_action = dr_action d,
      ev_resource = dr_resource d, ev_outcome = dr_outcome d, ev_request_id = dr_request_id d,
      ev_occurred_at = now\<rparr>"
  using assms parsed_again [OF ActorId.exact_text_id_axioms, of "dr_actor_id d"]
  by (simp add: audit_from_model_def audit_row_def draft_wf_def from_storage_storage_parts
      AuditAction.total AuditOutcome.total)

lemma next_event_id_fresh: "r \<in> set (audit_events db) \<Longrightarrow> ae_event_id r < next_event_id db"
proof -
  have "x \<in> set xs \<Longrightarrow> x \<le> foldr max xs (0::int)" for x and xs :: "int list"
    by (induction xs) auto
  then show "r \<in> set (audit_events db) \<Longrightarrow> ae_event_id r < next_event_id db"
    by (simp add: next_event_id_def zle_add1_eq_le)
qed

lemma insert_audit_event_ok:
  assumes "audit_events_ok db" and "organization_str (dr_organization_id d) \<in> org_organization_id ` set (organizations db)"
  shows "insert_audit_event now d db = Inr (db\<lparr>audit_events := audit_events db @ [audit_row now d db]\<rparr>)"
proof -
  have "next_event_id db \<notin> ae_event_id ` set (audit_events db)"
    using next_event_id_fresh by fastforce
  then have "audit_events_ok (db\<lparr>audit_events := audit_events db @ [audit_row now d db]\<rparr>)"
    using assms by (auto simp: audit_events_ok_def refers_iff audit_row_def)
  then show ?thesis by (simp add: insert_audit_event_def insert_audit_row_def statement_def)
qed

lemma sort_key_append_min:
  fixes f :: "'a \<Rightarrow> int"
  assumes "\<And>y. y \<in> set xs \<Longrightarrow> f x < f y"
  shows "sort_key f (xs @ [x]) = x # sort_key f xs"
  using assms
proof (induction xs)
  case (Cons a xs)
  have "\<not> f a \<le> f x" using Cons.prems [of a] by simp
  moreover have "sort_key f (xs @ [x]) = x # sort_key f xs" using Cons by simp
  ultimately show ?case by (simp add: sort_key_def)
qed (simp add: sort_key_def)

definition audit_log_ok :: "gateway_db \<Rightarrow> bool" where
  "audit_log_ok db \<longleftrightarrow> list_all (\<lambda>r. is_ok (audit_from_model r)) (audit_events db)"

lemma insert_audit_event_events:
  "insert_audit_event now d db = Inr db' \<Longrightarrow>
    db' = db\<lparr>audit_events := audit_events db @ [audit_row now d db]\<rparr>"
  by (simp add: insert_audit_event_def insert_audit_row_def)

lemma insert_audit_event_log_ok:
  "draft_wf d \<Longrightarrow> audit_log_ok db \<Longrightarrow> insert_audit_event now d db = Inr db' \<Longrightarrow> audit_log_ok db'"
  by (auto dest!: insert_audit_event_events simp: audit_log_ok_def audit_from_model_row)

lemma try_map_is_ok: "list_all (\<lambda>x. is_ok (f x)) xs \<Longrightarrow> \<exists>ys. try_map f xs = Inr ys"
  by (induction xs) (auto simp: is_ok_iff)

section \<open>Properties\<close>



end
