(* ===== verification/Sample_State.thy ===== *)
theory Sample_State
  imports Statements
begin

text \<open>
  A small concrete Controller state: one organization with a site, an enrolled Agent with
  both keys, and an enrolled invitation.  The properties with hypotheses are applied to it.
\<close>

definition sample_digest :: bytes where
  "sample_digest = replicate 32 CHR ''d''"

definition sample_jwk :: jwk where
  "sample_jwk = \<lparr>jwk_key_id = Some ''kid_a'', jwk_key_algorithm = Some EdDSA,
     jwk_public_key_use = Some Signature, jwk_key_operations = None,
     jwk_algorithm = OctetKeyPair Ed25519 ''AAAA''\<rparr>"

definition sample_dispatch_key :: dispatch_encryption_key where
  "sample_dispatch_key = \<lparr>dk_key_id = ''dk_a'', dk_kem = DhkemX25519HkdfSha256,
     dk_public_key_base64url = ''BBBB''\<rparr>"

definition sample_agent :: agent_row where
  "sample_agent = \<lparr>ag_agent_id = ''agt_a'', ag_organization_id = ''org_a'', ag_site_id = ''site_a'',
     ag_key_id = ''kid_a'', ag_jwk_thumbprint = ''thumb_a'', ag_public_jwk = sample_jwk,
     ag_dispatch_key = Some sample_dispatch_key, ag_namespace = ''inari/agt_a'',
     ag_protocol_version = ''2026-10-03'', ag_controller_actions = [''commands:execute''],
     ag_enrolled_at = 10, ag_last_enrolled_at = 10\<rparr>"

definition sample_key :: agent_key_row where
  "sample_key = \<lparr>ak_key_id = ''kid_a'', ak_agent_id = ''agt_a'', ak_purpose = TransportIdentity,
     ak_jwk_thumbprint = ''thumb_a'', ak_public_jwk = sample_jwk, ak_registered_at = 10,
     ak_retired_at = None\<rparr>"

definition sample_state_key :: agent_key_row where
  "sample_state_key = \<lparr>ak_key_id = ''agent_state_a'', ak_agent_id = ''agt_a'', ak_purpose = AgentState,
     ak_jwk_thumbprint = ''thumb_s'', ak_public_jwk = sample_jwk\<lparr>jwk_key_id := Some ''agent_state_a''\<rparr>,
     ak_registered_at = 10, ak_retired_at = None\<rparr>"

definition sample_policy :: router_policy_row where
  "sample_policy = \<lparr>rp_organization_id = ''org_a'', rp_authority_revision = 3,
     rp_policy_revision = Some 3, rp_generation = 4, rp_configuration_digest = Some sample_digest,
     rp_policy_digest = Some sample_digest, rp_signed_policy = Some SNull,
     rp_expires_at = Some 60000000, rp_acknowledged_at = Some 1000000\<rparr>"

definition sample_invitation :: invitation_row where
  "sample_invitation = \<lparr>iv_invitation_id = ''ABCDEFGHIJKL'', iv_organization_id = ''org_a'',
     iv_site_id = ''site_a'', iv_label = None, iv_secret_digest = sample_digest,
     iv_state = InvEnrolled, iv_created_at = 1, iv_expires_at = 1000, iv_enrolled_at = Some 10,
     iv_online_at = None, iv_revoked_at = None, iv_failed_at = None, iv_last_error = None,
     iv_bound_agent_id = Some ''agt_a'', iv_bound_key_id = Some ''kid_a'', iv_latest_snapshot = None,
     iv_enrollment_fingerprint = Some sample_digest\<rparr>"

definition sample_db :: gateway_db where
  "sample_db = empty_db\<lparr>
     organizations := [\<lparr>org_organization_id = ''org_a'', org_name = ''A'', org_created_at = 0,
       org_updated_at = 0\<rparr>],
     sites := [\<lparr>st_site_id = ''site_a'', st_organization_id = ''org_a'', st_name = ''S'',
       st_created_at = 0, st_updated_at = 0\<rparr>],
     agents := [sample_agent], agent_keys := [sample_key, sample_state_key],
     invitations := [sample_invitation], router_policies := [sample_policy]\<rparr>"

lemma sample_db_ok: "db_ok sample_db"
  by code_simp

end
