(* ===== verification/Onboarding.thy ===== *)
theory Onboarding
  imports Audit_Log Sample_State
begin

text \<open>
  Invitations (\<^verbatim>\<open>persistence/onboarding.rs\<close>, \<^verbatim>\<open>onboarding/model.rs\<close>, \<^verbatim>\<open>onboarding/service.rs\<close>):
  the organization and site rows, creating, listing, expiring and revoking invitations,
  and the onboarding service on top.  URLs are an argument type with the operations of
  the \<^verbatim>\<open>url\<close> crate that the service calls.
\<close>

section \<open>Definitions\<close>

datatype onboarding_state =
  StateCreated | StateEnrolled | StateOnline | StateExpired | StateFailed | StateRevoked

fun InvitationState_as_str :: "onboarding_state \<Rightarrow> string" where
  "InvitationState_as_str StateCreated = ''created''"
| "InvitationState_as_str StateEnrolled = ''enrolled''"
| "InvitationState_as_str StateOnline = ''online''"
| "InvitationState_as_str StateExpired = ''expired''"
| "InvitationState_as_str StateFailed = ''failed''"
| "InvitationState_as_str StateRevoked = ''revoked''"

fun InvitationState_from :: "invitation_state \<Rightarrow> onboarding_state" where
  "InvitationState_from InvCreated = StateCreated"
| "InvitationState_from InvEnrolled = StateEnrolled"
| "InvitationState_from InvOnline = StateOnline"
| "InvitationState_from InvExpired = StateExpired"
| "InvitationState_from InvFailed = StateFailed"
| "InvitationState_from InvRevoked = StateRevoked"

record invitation_status =
  is_invitation_id :: invitation_id
  is_site_id :: site_id
  is_label :: "string option"
  is_state :: onboarding_state
  is_created_at :: instant
  is_expires_at :: instant
  is_enrolled_at :: "instant option"
  is_online_at :: "instant option"
  is_revoked_at :: "instant option"
  is_failed_at :: "instant option"
  is_last_error :: "string option"
  is_agent_id :: "string option"
  is_key_id :: "string option"
  is_latest_snapshot :: "gateway_snapshot option"

definition InvitationStatus_try_from :: "invitation_row \<Rightarrow> invitation_status gateway_result" where
  "InvitationStatus_try_from model =
    and_then (InvitationId_from_str (iv_invitation_id model)) (\<lambda>invitation_id.
    and_then (SiteId_from_str (iv_site_id model)) (\<lambda>site_id.
      Inr \<lparr>is_invitation_id = invitation_id, is_site_id = site_id, is_label = iv_label model,
        is_state = InvitationState_from (iv_state model), is_created_at = iv_created_at model,
        is_expires_at = iv_expires_at model, is_enrolled_at = iv_enrolled_at model,
        is_online_at = iv_online_at model, is_revoked_at = iv_revoked_at model,
        is_failed_at = iv_failed_at model, is_last_error = iv_last_error model,
        is_agent_id = iv_bound_agent_id model, is_key_id = iv_bound_key_id model,
        is_latest_snapshot = iv_latest_snapshot model\<rparr>))"

definition upsert_organization :: "organization_row \<Rightarrow> gateway_db \<Rightarrow> gateway_db gateway_result" where
  "upsert_organization row db =
    (if exists_where (\<lambda>o'. org_organization_id o' = org_organization_id row) (organizations db)
     then Inr (db\<lparr>organizations := update_where (\<lambda>o'. org_organization_id o' = org_organization_id row)
            (\<lambda>o'. o'\<lparr>org_name := org_name row, org_updated_at := org_updated_at row\<rparr>) (organizations db)\<rparr>)
     else insert_organization row db)"

definition upsert_site :: "site_row \<Rightarrow> gateway_db \<Rightarrow> gateway_db gateway_result" where
  "upsert_site row db =
    (if exists_where (\<lambda>s. st_site_id s = st_site_id row) (sites db)
     then statement sites_ok (db\<lparr>sites := update_where (\<lambda>s. st_site_id s = st_site_id row)
            (\<lambda>s. s\<lparr>st_name := st_name row, st_updated_at := st_updated_at row\<rparr>) (sites db)\<rparr>)
     else insert_site row db)"

definition ensure_organization ::
    "instant \<Rightarrow> organization_id \<Rightarrow> string \<Rightarrow> site_id \<Rightarrow> string \<Rightarrow> gateway_db \<Rightarrow>
     gateway_db \<times> unit gateway_result" where
  "ensure_organization now organization_id organization_name site_id site_name =
    transaction (\<lambda>db.
      and_then (upsert_organization \<lparr>org_organization_id = organization_str organization_id,
        org_name = organization_name, org_created_at = now, org_updated_at = now\<rparr> db) (\<lambda>db.
      and_then (upsert_site \<lparr>st_site_id = site_str site_id,
        st_organization_id = organization_str organization_id, st_name = site_name,
        st_created_at = now, st_updated_at = now\<rparr> db) (\<lambda>db.
      Inr (db, Inr ()))))"

definition stored_label :: "string option \<Rightarrow> string option" where
  "stored_label label = (case label of None \<Rightarrow> None
    | Some value \<Rightarrow> if trim value = [] then None else Some (trim value))"

definition new_invitation ::
    "(string \<Rightarrow> bytes) \<Rightarrow> invitation_code \<Rightarrow> organization_id \<Rightarrow> site_id \<Rightarrow> string option \<Rightarrow>
     instant \<Rightarrow> instant \<Rightarrow> invitation_row" where
  "new_invitation sha256 code organization_id site_id label start_at end_at =
    \<lparr>iv_invitation_id = invitation_id_str (ic_id code),
     iv_organization_id = organization_str organization_id, iv_site_id = site_str site_id,
     iv_label = stored_label label, iv_secret_digest = secret_digest sha256 code,
     iv_state = InvCreated, iv_created_at = start_at, iv_expires_at = end_at, iv_enrolled_at = None,
     iv_online_at = None, iv_revoked_at = None, iv_failed_at = None, iv_last_error = None,
     iv_bound_agent_id = None, iv_bound_key_id = None, iv_latest_snapshot = None,
     iv_enrollment_fingerprint = None\<rparr>"

definition create_invitation ::
    "(string \<Rightarrow> bytes) \<Rightarrow> instant \<Rightarrow> invitation_code \<Rightarrow> organization_id \<Rightarrow> site_id \<Rightarrow> string option \<Rightarrow>
     instant \<Rightarrow> instant \<Rightarrow> audit_context \<Rightarrow> gateway_db \<Rightarrow> gateway_db \<times> unit gateway_result" where
  "create_invitation sha256 now code organization_id site_id label start_at end_at audit =
    transaction (\<lambda>db.
      and_then (insert_invitation
        (new_invitation sha256 code organization_id site_id label start_at end_at) db) (\<lambda>db.
      and_then (insert_audit_event now
        \<lparr>dr_organization_id = organization_id, dr_actor_id = ctx_actor_id audit,
         dr_action = ActionInvitationCreated, dr_resource = ResourceInvitation (ic_id code),
         dr_outcome = OutcomeSucceeded, dr_request_id = ctx_request_id audit\<rparr> db) (\<lambda>db.
      Inr (db, Inr ()))))"

definition expirable_states :: "invitation_state list" where
  "expirable_states = [InvCreated, InvFailed]"

definition expire_invitations_where ::
    "(invitation_row \<Rightarrow> bool) \<Rightarrow> instant \<Rightarrow> gateway_db \<Rightarrow> gateway_db" where
  "expire_invitations_where P now db =
    db\<lparr>invitations := update_where
      (\<lambda>i. P i \<and> iv_expires_at i < now \<and> iv_state i \<in> set expirable_states)
      (\<lambda>i. i\<lparr>iv_state := InvExpired\<rparr>) (invitations db)\<rparr>"

definition expire_invitation :: "string \<Rightarrow> instant \<Rightarrow> gateway_db \<Rightarrow> gateway_db" where
  "expire_invitation invitation_id now =
    expire_invitations_where (\<lambda>i. iv_invitation_id i = invitation_id) now"

definition invitation ::
    "string \<Rightarrow> instant \<Rightarrow> gateway_db \<Rightarrow> gateway_db \<times> invitation_status gateway_result" where
  "invitation invitation_id now db =
    (let db' = expire_invitation invitation_id now db in
     (db', and_then (ok_or (NotFound ''onboarding invitation was not found'')
             (find_by iv_invitation_id invitation_id (invitations db'))) InvitationStatus_try_from))"

definition invitations_list ::
    "instant \<Rightarrow> gateway_db \<Rightarrow> gateway_db \<times> invitation_status list gateway_result" where
  "invitations_list now db =
    (let db' = expire_invitations_where (\<lambda>_. True) now db in
     (db', try_map InvitationStatus_try_from
        (sort_key (\<lambda>i. - iv_created_at i) (invitations db'))))"

definition revocable :: "string \<Rightarrow> invitation_row \<Rightarrow> bool" where
  "revocable invitation_id i \<longleftrightarrow>
    iv_invitation_id i = invitation_id \<and> iv_state i \<notin> {InvOnline, InvRevoked}"

text \<open>The transaction of \<^verbatim>\<open>revoke_invitation\<close> when its update changed a row.\<close>

definition revoke_and_audit ::
    "string \<Rightarrow> instant \<Rightarrow> organization_id \<Rightarrow> audit_context \<Rightarrow> gateway_db \<Rightarrow>
     gateway_db \<times> invitation_id gateway_result" where
  "revoke_and_audit invitation_id now organization_id audit =
    transaction (\<lambda>db.
      and_then (InvitationId_from_str invitation_id) (\<lambda>parsed.
      and_then (insert_audit_event now
        \<lparr>dr_organization_id = organization_id, dr_actor_id = ctx_actor_id audit,
         dr_action = ActionInvitationRevoked, dr_resource = ResourceInvitation parsed,
         dr_outcome = OutcomeSucceeded, dr_request_id = ctx_request_id audit\<rparr>
        (db\<lparr>invitations := update_where (revocable invitation_id)
           (\<lambda>i. i\<lparr>iv_state := InvRevoked, iv_revoked_at := Some now\<rparr>) (invitations db)\<rparr>)) (\<lambda>db.
      Inr (db, Inr parsed))))"

definition revoke_invitation ::
    "string \<Rightarrow> instant \<Rightarrow> organization_id \<Rightarrow> audit_context \<Rightarrow> gateway_db \<Rightarrow>
     gateway_db \<times> invitation_status gateway_result" where
  "revoke_invitation invitation_id now organization_id audit db =
    (if \<not> exists_where (revocable invitation_id) (invitations db) then
       (case invitation invitation_id now db of
          (db', r) \<Rightarrow> (db', and_then r (\<lambda>current.
             case is_state current of
               StateOnline \<Rightarrow> Inl (Conflict
                 ''an online enrollment cannot be revoked through its invitation'')
             | StateRevoked \<Rightarrow> Inr current
             | _ \<Rightarrow> Inl (Conflict ''invitation could not be revoked''))))
     else
       (case revoke_and_audit invitation_id now organization_id audit db of
          (db', Inl e) \<Rightarrow> (db', Inl e)
        | (db', Inr parsed) \<Rightarrow> invitation (invitation_id_str parsed) now db'))"

subsection \<open>The onboarding service\<close>

datatype certificate_mode = CertificateNone | CertificateController | CertificateStepCa

record 'u onboarding_service =
  os_enabled :: bool
  os_public_base_url :: "'u option"
  os_controller_name :: "string option"
  os_controller_instance_id :: string
  os_organization_id :: organization_id
  os_default_site_id :: site_id
  os_invitation_ttl :: duration
  os_supported_protocol_versions :: "protocol_version list"
  os_certificate_mode :: certificate_mode
  os_requires_mutual_tls_after_issuance :: bool

record 'u issued_invitation =
  ii_invitation_id :: invitation_id
  ii_invitation_url :: 'u
  ii_manual_code :: string
  ii_expires_at :: instant
  ii_state :: onboarding_state

definition ensure_onboarding_enabled :: "'u onboarding_service \<Rightarrow> unit gateway_result" where
  "ensure_onboarding_enabled service =
    (if os_enabled service then Inr ()
     else Inl (Unavailable ''managed gateway onboarding is not enabled''))"

text \<open>\<^verbatim>\<open>chrono::Duration::from_std\<close>: at most \<^verbatim>\<open>i64::MAX\<close> milliseconds.\<close>

definition duration_from_std :: "duration \<Rightarrow> duration option" where
  "duration_from_std d = (if d \<le> i64_max * 1000 then Some d else None)"

definition service_create_invitation ::
    "(string \<Rightarrow> bytes) \<Rightarrow> invitation_code gateway_result \<Rightarrow> ('u \<Rightarrow> string \<Rightarrow> string + 'u) \<Rightarrow>
     (string \<Rightarrow> 'u \<Rightarrow> 'u) \<Rightarrow> instant \<Rightarrow> instant \<Rightarrow> 'u onboarding_service \<Rightarrow> string option \<Rightarrow>
     audit_context \<Rightarrow> gateway_db \<Rightarrow> gateway_db \<times> 'u issued_invitation gateway_result" where
  "service_create_invitation sha256 generated url_join url_set_fragment created_at now service
      requested_label audit db =
    (let label = stored_label requested_label;
         prepared =
           and_then (ensure_onboarding_enabled service) (\<lambda>_.
           and_then (if (case label of None \<Rightarrow> False | Some value \<Rightarrow> length (utf8_chars value) > 120)
                     then Inl (InvalidInput ''invitation labels must be 120 characters or fewer'')
                     else Inr ()) (\<lambda>_.
           and_then generated (\<lambda>code.
           and_then (ok_or (InvalidInput ''invitation TTL is out of range'')
                       (duration_from_std (os_invitation_ttl service))) (\<lambda>ttl.
             Inr (code, created_at + ttl)))))
     in case prepared of
          Inl e \<Rightarrow> (db, Inl e)
        | Inr (code, expires_at) \<Rightarrow>
            (case create_invitation sha256 now code (os_organization_id service)
                    (os_default_site_id service) label created_at expires_at audit db of
               (db', Inl e) \<Rightarrow> (db', Inl e)
             | (db', Inr _) \<Rightarrow>
                 (db',
                  and_then (ok_or (Unavailable ''managed onboarding public_base_url is not configured'')
                              (os_public_base_url service)) (\<lambda>base.
                  and_then (map_err (\<lambda>error. InvalidInput (''invalid public onboarding URL: '' @ error))
                              (url_join base (''setup/'' @ invitation_id_str (ic_id code)))) (\<lambda>url.
                    Inr \<lparr>ii_invitation_id = ic_id code,
                      ii_invitation_url = url_set_fragment (''code='' @ manual code) url,
                      ii_manual_code = manual code, ii_expires_at = expires_at,
                      ii_state = StateCreated\<rparr>)))))"

definition service_invitations ::
    "instant \<Rightarrow> 'u onboarding_service \<Rightarrow> gateway_db \<Rightarrow>
     gateway_db \<times> invitation_status list gateway_result" where
  "service_invitations now service db =
    (case ensure_onboarding_enabled service of Inl e \<Rightarrow> (db, Inl e) | Inr _ \<Rightarrow> invitations_list now db)"

definition service_revoke_invitation ::
    "instant \<Rightarrow> 'u onboarding_service \<Rightarrow> invitation_id \<Rightarrow> audit_context \<Rightarrow> gateway_db \<Rightarrow>
     gateway_db \<times> invitation_status gateway_result" where
  "service_revoke_invitation now service invitation_id audit db =
    (case ensure_onboarding_enabled service of
       Inl e \<Rightarrow> (db, Inl e)
     | Inr _ \<Rightarrow> revoke_invitation (invitation_id_str invitation_id) now (os_organization_id service) audit db)"

record InvitationPreview =
  ip_invitation_id :: invitation_id
  ip_site_id :: site_id
  ip_expires_at :: instant
  ip_state :: onboarding_state
  ip_controller_name :: "string option"
  ip_controller_instance_id :: string
  ip_supported_protocol_versions :: "protocol_version list"
  ip_certificate_mode :: certificate_mode
  ip_requires_mutual_tls_after_issuance :: bool

definition invitation_preview ::
    "instant \<Rightarrow> 'u onboarding_service \<Rightarrow> invitation_id \<Rightarrow> gateway_db \<Rightarrow>
     gateway_db \<times> InvitationPreview gateway_result" where
  "invitation_preview now service invitation_id db =
    (case ensure_onboarding_enabled service of
       Inl e \<Rightarrow> (db, Inl e)
     | Inr _ \<Rightarrow>
         (case invitation (invitation_id_str invitation_id) now db of
            (db', r) \<Rightarrow> (db', and_then r (\<lambda>i.
              Inr \<lparr>ip_invitation_id = is_invitation_id i, ip_site_id = is_site_id i,
                ip_expires_at = is_expires_at i, ip_state = is_state i,
                ip_controller_name = os_controller_name service,
                ip_controller_instance_id = os_controller_instance_id service,
                ip_supported_protocol_versions = os_supported_protocol_versions service,
                ip_certificate_mode = os_certificate_mode service,
                ip_requires_mutual_tls_after_issuance =
                  os_requires_mutual_tls_after_issuance service\<rparr>))))"

text \<open>
  The life of an invitation.  Its secret, organization, site and validity never change;
  a revoked invitation stays revoked; once bound to an Agent it stays bound.
\<close>

fun state_may_become :: "invitation_state \<Rightarrow> invitation_state \<Rightarrow> bool" where
  "state_may_become InvCreated s = (s \<noteq> InvFailed)"
| "state_may_become InvEnrolled s = (s \<in> {InvEnrolled, InvOnline, InvRevoked})"
| "state_may_become InvOnline s = (s \<in> {InvOnline, InvRevoked})"
| "state_may_become InvExpired s = (s \<in> {InvExpired, InvRevoked})"
| "state_may_become InvFailed s = (s \<in> {InvFailed, InvExpired, InvRevoked})"
| "state_may_become InvRevoked s = (s = InvRevoked)"

definition invitation_evolves :: "invitation_row \<Rightarrow> invitation_row \<Rightarrow> bool" where
  "invitation_evolves i j \<longleftrightarrow>
    iv_invitation_id j = iv_invitation_id i \<and> iv_organization_id j = iv_organization_id i \<and>
    iv_site_id j = iv_site_id i \<and> iv_secret_digest j = iv_secret_digest i \<and>
    iv_created_at j = iv_created_at i \<and> iv_expires_at j = iv_expires_at i \<and>
    state_may_become (iv_state i) (iv_state j) \<and>
    (iv_state i \<noteq> InvCreated \<longrightarrow> iv_bound_agent_id j = iv_bound_agent_id i \<and>
      iv_bound_key_id j = iv_bound_key_id i \<and> iv_enrolled_at j = iv_enrolled_at i \<and>
      iv_enrollment_fingerprint j = iv_enrollment_fingerprint i)"

definition invitations_evolve :: "gateway_db \<Rightarrow> gateway_db \<Rightarrow> bool" where
  "invitations_evolve db db' \<longleftrightarrow>
    (\<forall>k i. find_by iv_invitation_id k (invitations db) = Some i \<longrightarrow>
      (\<exists>j. find_by iv_invitation_id k (invitations db') = Some j \<and> invitation_evolves i j))"

section \<open>Lemmas\<close>

lemma state_may_become_refl [simp]: "state_may_become s s"
  by (cases s) simp_all

lemma state_may_become_trans:
  "state_may_become a b \<Longrightarrow> state_may_become b c \<Longrightarrow> state_may_become a c"
  by (cases a; cases b; cases c) simp_all

lemma invitation_evolves_refl [simp]: "invitation_evolves i i"
  by (simp add: invitation_evolves_def)

lemma invitation_evolves_trans:
  assumes "invitation_evolves i j" and "invitation_evolves j k"
  shows "invitation_evolves i k"
proof -
  have "iv_state i \<noteq> InvCreated \<Longrightarrow> iv_state j \<noteq> InvCreated"
    using assms(1) by (cases "iv_state i") (auto simp: invitation_evolves_def)
  then show ?thesis
    using assms state_may_become_trans unfolding invitation_evolves_def by metis
qed

lemma invitations_evolve_refl [simp]: "invitations_evolve db db"
  by (simp add: invitations_evolve_def)

lemma invitations_evolve_same:
  "invitations db' = invitations db \<Longrightarrow> invitations_evolve db db'"
  by (simp add: invitations_evolve_def)

lemma invitations_evolve_trans:
  "invitations_evolve a b \<Longrightarrow> invitations_evolve b c \<Longrightarrow> invitations_evolve a c"
  unfolding invitations_evolve_def by (blast intro: invitation_evolves_trans)

lemma invitations_evolve_update:
  assumes "invitations db' = update_where P f (invitations db)"
    and "\<And>i. P i \<Longrightarrow> invitation_evolves i (f i)"
  shows "invitations_evolve db db'"
proof -
  have "find_by iv_invitation_id k (invitations db') =
      map_option (\<lambda>i. if P i then f i else i) (find_by iv_invitation_id k (invitations db))" for k
    unfolding assms(1) using assms(2) by (intro find_by_update_where) (simp add: invitation_evolves_def)
  then show ?thesis using assms(2) by (auto simp: invitations_evolve_def)
qed

lemma expire_invitations_evolve: "invitations_evolve db (expire_invitations_where P now db)"
proof (rule invitations_evolve_update)
  show "invitations (expire_invitations_where P now db) = update_where
      (\<lambda>i. P i \<and> iv_expires_at i < now \<and> iv_state i \<in> set expirable_states)
      (\<lambda>i. i\<lparr>iv_state := InvExpired\<rparr>) (invitations db)"
    by (simp add: expire_invitations_where_def)
qed (auto simp: invitation_evolves_def expirable_states_def)

lemma invitation_evolve: "invitations_evolve db (fst (invitation iid now db))"
  by (simp add: invitation_def Let_def expire_invitation_def expire_invitations_evolve)

lemma create_invitation_evolve:
  assumes "create_invitation sha256 now code org site label s e audit db = (db', r)"
  shows "invitations_evolve db db'"
  using assms
  by (auto simp: create_invitation_def transaction_eq and_then_eq_Inr insert_invitation_def
      insert_audit_event_def insert_audit_row_def invitations_evolve_def find_by_append)

lemma revoke_and_audit_evolve:
  assumes "revoke_and_audit iid now org audit db = (db', r)"
  shows "invitations_evolve db db'"
proof -
  let ?f = "\<lambda>i. i\<lparr>iv_state := InvRevoked, iv_revoked_at := Some now\<rparr>"
  from assms have "db' = db \<or> invitations db' = update_where (revocable iid) ?f (invitations db)"
    by (auto simp: revoke_and_audit_def transaction_eq and_then_eq_Inr insert_audit_event_def
        insert_audit_row_def)
  then show ?thesis
  proof
    assume upd: "invitations db' = update_where (revocable iid) ?f (invitations db)"
    show ?thesis
    proof (rule invitations_evolve_update [OF upd])
      fix i assume "revocable iid i"
      then show "invitation_evolves i (?f i)"
        by (cases "iv_state i") (auto simp: revocable_def invitation_evolves_def)
    qed
  qed simp
qed

lemma revoke_invitation_evolve:
  assumes "revoke_invitation iid now org audit db = (db', r)"
  shows "invitations_evolve db db'"
proof (cases "exists_where (revocable iid) (invitations db)")
  case False
  then have "db' = fst (invitation iid now db)"
    using assms by (auto simp: revoke_invitation_def split: prod.splits)
  then show ?thesis by (simp add: invitation_evolve)
next
  case True
  obtain db1 q where step: "revoke_and_audit iid now org audit db = (db1, q)" by fastforce
  note evolve = revoke_and_audit_evolve [OF step]
  show ?thesis
  proof (cases q)
    case (Inl e)
    then have "db' = db1"
      using assms True step by (simp add: revoke_invitation_def del: exists_where_iff)
    then show ?thesis using evolve by simp
  next
    case (Inr parsed)
    then have "invitation (invitation_id_str parsed) now db1 = (db', r)"
      using assms True step by (simp add: revoke_invitation_def del: exists_where_iff)
    then show ?thesis
      using evolve invitation_evolve [of db1 "invitation_id_str parsed" now] invitations_evolve_trans
      by simp
  qed
qed

lemma InvitationStatus_state:
  "InvitationStatus_try_from i = Inr status \<Longrightarrow> is_state status = InvitationState_from (iv_state i)"
  by (auto simp: InvitationStatus_try_from_def and_then_eq_Inr)

lemma find_unexpirable:
  assumes "find_by iv_invitation_id iid (invitations db) = Some i" and "iv_state i \<notin> {InvCreated, InvFailed}"
  shows "find_by iv_invitation_id iid (invitations (expire_invitation iid now db)) = Some i"
proof -
  have "find_by iv_invitation_id iid (invitations (expire_invitation iid now db)) =
      map_option (\<lambda>i. if iv_invitation_id i = iid \<and> iv_expires_at i < now \<and> iv_state i \<in> set expirable_states
        then i\<lparr>iv_state := InvExpired\<rparr> else i) (find_by iv_invitation_id iid (invitations db))"
    unfolding expire_invitation_def expire_invitations_where_def
    by (simp add: find_by_update_where)
  then show ?thesis using assms by (auto simp: expirable_states_def)
qed

lemma expire_nothing:
  assumes "distinct (map iv_invitation_id (invitations db))"
    and "find_by iv_invitation_id iid (invitations db) = Some i" and "iv_state i \<notin> {InvCreated, InvFailed}"
  shows "expire_invitation iid now db = db"
proof -
  have "j = i" if "j \<in> set (invitations db)" "iv_invitation_id j = iid" for j
    using that assms(1) find_by_Some [OF assms(2)] distinct_key_eq by metis
  then have "update_where (\<lambda>j. iv_invitation_id j = iid \<and> iv_expires_at j < now \<and>
      iv_state j \<in> set expirable_states) (\<lambda>j. j\<lparr>iv_state := InvExpired\<rparr>) (invitations db) = invitations db"
    using assms(3) by (auto simp: update_where_def expirable_states_def intro!: map_idI)
  then show ?thesis by (simp add: expire_invitation_def expire_invitations_where_def)
qed

section \<open>Properties\<close>

text \<open>
  C33. Revocation of an invitation: an online one is refused as a conflict and nothing
  changes; in every other state the call succeeds, reports the invitation as revoked and
  the stored row is revoked.
\<close>

theorem revoke_invitation_effect:
  assumes "invitations_ok db" and "audit_events_ok db"
    and "find_by iv_invitation_id iid (invitations db) = Some i"
    and "base32_text ID_LENGTH iid" and "is_ok (SiteId_from_str (iv_site_id i))"
    and "organization_str org \<in> org_organization_id ` set (organizations db)"
  shows "if iv_state i = InvOnline
    then revoke_invitation iid now org audit db = (db, Inl (Conflict
      ''an online enrollment cannot be revoked through its invitation''))
    else \<exists>db' status j. revoke_invitation iid now org audit db = (db', Inr status) \<and>
      is_state status = StateRevoked \<and>
      find_by iv_invitation_id iid (invitations db') = Some j \<and> iv_state j = InvRevoked"
proof -
  have dist: "distinct (map iv_invitation_id (invitations db))"
    using assms(1) by (simp add: invitations_ok_def)
  have i: "i \<in> set (invitations db)" "iv_invitation_id i = iid" using find_by_Some [OF assms(3)] by auto
  have status: "\<exists>status. InvitationStatus_try_from (i\<lparr>iv_state := s, iv_revoked_at := t\<rparr>) = Inr status" for s t
    using assms(4,5) i(2)
    by (auto simp: InvitationStatus_try_from_def InvitationId_from_str_base32 is_ok_iff)
  have revocable: "exists_where (revocable iid) (invitations db) \<longleftrightarrow> iv_state i \<notin> {InvOnline, InvRevoked}"
  proof -
    have "revocable iid j \<Longrightarrow> j \<in> set (invitations db) \<Longrightarrow> j = i" for j
      by (rule distinct_key_eq [OF dist _ i(1)]) (simp_all add: revocable_def i(2))
    moreover have "revocable iid i \<longleftrightarrow> iv_state i \<notin> {InvOnline, InvRevoked}" using i(2) by (simp add: revocable_def)
    ultimately show ?thesis using i(1) unfolding exists_where_iff by blast
  qed
  show ?thesis
  proof (cases "iv_state i \<in> {InvOnline, InvRevoked}")
    case True
    then have "expire_invitation iid now db = db" using dist assms(3) by (intro expire_nothing) auto
    moreover obtain st where "InvitationStatus_try_from i = Inr st"
      using status [where s = "iv_state i" and t = "iv_revoked_at i"] by auto
    ultimately show ?thesis
      using True revocable assms(3)
      by (auto simp: revoke_invitation_def invitation_def InvitationStatus_state
          simp del: exists_where_iff)
  next
    case False
    let ?i = "i\<lparr>iv_state := InvRevoked, iv_revoked_at := Some now\<rparr>"
    let ?db = "db\<lparr>invitations := update_where (revocable iid)
        (\<lambda>i. i\<lparr>iv_state := InvRevoked, iv_revoked_at := Some now\<rparr>) (invitations db)\<rparr>"
    have "find_by iv_invitation_id iid (invitations ?db) =
        map_option (\<lambda>i. if revocable iid i then i\<lparr>iv_state := InvRevoked, iv_revoked_at := Some now\<rparr> else i)
          (find_by iv_invitation_id iid (invitations db))"
      by (simp add: find_by_update_where)
    then have row: "find_by iv_invitation_id iid (invitations ?db) = Some ?i"
      using assms(3) False i(2) by (simp add: revocable_def)
    have "audit_events_ok ?db" using assms(2) by (simp add: audit_events_ok_def)
    from insert_audit_event_ok [OF this] assms(4,6) obtain db1 where
      step: "revoke_and_audit iid now org audit db = (db1, Inr (InvitationId iid))"
      and db1: "invitations db1 = invitations ?db"
      by (auto simp: revoke_and_audit_def transaction_def InvitationId_from_str_base32)
    have "find_by iv_invitation_id iid (invitations (expire_invitation iid now db1)) = Some ?i"
      using row db1 by (intro find_unexpirable) auto
    moreover obtain st where "InvitationStatus_try_from ?i = Inr st" using status by blast
    ultimately show ?thesis
      using False revocable step InvitationStatus_state [of ?i st]
      by (auto simp: revoke_invitation_def invitation_def Let_def simp del: exists_where_iff)
  qed
qed

theorem revoke_invitation_effect_witness:
  "\<exists>db' status j. revoke_invitation ''ABCDEFGHIJKL'' 500 (OrganizationId ''org_a'')
      \<lparr>ctx_actor_id = ActorId ''oidc:x'', ctx_request_id = None\<rparr> sample_db = (db', Inr status) \<and>
    is_state status = StateRevoked \<and>
    find_by iv_invitation_id ''ABCDEFGHIJKL'' (invitations db') = Some j \<and> iv_state j = InvRevoked"
proof -
  have "invitations_ok sample_db" "audit_events_ok sample_db" "base32_text ID_LENGTH ''ABCDEFGHIJKL''"
    "is_ok (SiteId_from_str (iv_site_id sample_invitation))"
    "organization_str (OrganizationId ''org_a'') \<in> org_organization_id ` set (organizations sample_db)"
    "iv_state sample_invitation \<noteq> InvOnline"
    by code_simp+
  moreover have "find_by iv_invitation_id ''ABCDEFGHIJKL'' (invitations sample_db) = Some sample_invitation"
    by (simp add: sample_db_def sample_invitation_def)
  ultimately show ?thesis
    using revoke_invitation_effect [of sample_db "''ABCDEFGHIJKL''" sample_invitation
        "OrganizationId ''org_a''" 500 "\<lparr>ctx_actor_id = ActorId ''oidc:x'', ctx_request_id = None\<rparr>"]
    by simp
qed

end
