(* ===== verification/Router_Admission.thy ===== *)
theory Router_Admission
  imports Sample_State "HOL-Library.List_Lexorder" "HOL-Library.Char_ord"
begin

text \<open>
  Router admission (\<^verbatim>\<open>persistence/router_policy.rs\<close>): the durable policy row of an
  organization, the allocation of a policy generation, the acknowledgment by the Routers
  and the check that every command admission repeats.  Each call of \<^verbatim>\<open>Utc::now()\<close> is an
  argument.  Row locks are not modelled: a transaction is one step.
\<close>

section \<open>Definitions\<close>

definition ACKNOWLEDGMENT_LIFETIME :: duration where
  "ACKNOWLEDGMENT_LIFETIME = 10 * 1000000"

record router_agent =
  ra_agent_id :: string
  ra_namespace :: string

record new_router_policy =
  nrp_signed_policy :: structured_value
  nrp_digest :: bytes
  nrp_expires_at :: instant

record persisted_router_policy =
  prp_generation :: "64 word"
  prp_signed_policy :: structured_value
  prp_digest :: bytes
  prp_expires_at :: instant
  prp_agents :: "router_agent list"

record router_admission =
  adm_organization_id :: string
  adm_generation :: int
  adm_digest :: bytes
  adm_valid_until :: instant

definition corrupt_policy :: gateway_error where
  "corrupt_policy = CorruptState ''Router policy is incomplete''"

definition policy_in :: "gateway_db \<Rightarrow> string \<Rightarrow> router_policy_row gateway_result" where
  "policy_in db organization_id =
    ok_or (Unavailable ''Router policy persistence is unavailable'')
      (find_by rp_organization_id organization_id (router_policies db))"

text \<open>The condition that the two SQL statements of the source share.\<close>

definition has_active_keys :: "gateway_db \<Rightarrow> agent_row \<Rightarrow> bool" where
  "has_active_keys db a \<longleftrightarrow> ag_dispatch_key a \<noteq> None \<and>
    exists_where (\<lambda>k. ak_agent_id k = ag_agent_id a \<and> ak_purpose k = TransportIdentity \<and>
      ak_key_id k = ag_key_id a \<and> ak_retired_at k = None) (agent_keys db) \<and>
    exists_where (\<lambda>k. ak_agent_id k = ag_agent_id a \<and> ak_purpose k = AgentState \<and>
      ak_retired_at k = None) (agent_keys db)"

definition active_agents :: "gateway_db \<Rightarrow> string \<Rightarrow> router_agent list" where
  "active_agents db organization_id =
    map (\<lambda>a. \<lparr>ra_agent_id = ag_agent_id a, ra_namespace = ag_namespace a\<rparr>)
      (sort_key ag_agent_id
        (filter (\<lambda>a. ag_organization_id a = organization_id \<and> has_active_keys db a) (agents db)))"

definition is_active_agent :: "gateway_db \<Rightarrow> string \<Rightarrow> string \<Rightarrow> bool" where
  "is_active_agent db organization_id agent_id =
    exists_where (\<lambda>a. ag_organization_id a = organization_id \<and> ag_agent_id a = agent_id \<and>
      has_active_keys db a) (agents db)"

definition persisted_policy ::
    "router_policy_row \<Rightarrow> router_agent list \<Rightarrow> persisted_router_policy gateway_result" where
  "persisted_policy row active =
    and_then (ok_or corrupt_policy (u64_of_i64 (rp_generation row))) (\<lambda>generation.
    and_then (ok_or corrupt_policy (rp_signed_policy row)) (\<lambda>signed_policy.
    and_then (ok_or corrupt_policy (rp_policy_digest row)) (\<lambda>digest.
    and_then (if length digest \<noteq> 32 then Inl corrupt_policy else Inr digest) (\<lambda>digest.
    and_then (ok_or corrupt_policy (rp_expires_at row)) (\<lambda>expires_at.
      Inr \<lparr>prp_generation = generation, prp_signed_policy = signed_policy, prp_digest = digest,
           prp_expires_at = expires_at, prp_agents = active\<rparr>)))))"

definition policy_reusable :: "bytes \<Rightarrow> instant \<Rightarrow> router_policy_row \<Rightarrow> bool" where
  "policy_reusable configuration_digest refresh_before row \<longleftrightarrow>
    rp_policy_revision row = Some (rp_authority_revision row) \<and>
    rp_configuration_digest row = Some configuration_digest \<and>
    (case rp_expires_at row of Some time \<Rightarrow> time > refresh_before | None \<Rightarrow> False)"

definition next_generation :: "router_policy_row \<Rightarrow> int gateway_result" where
  "next_generation row =
    ok_or (Capacity ''Router policy generation is exhausted'')
      (case checked_add_i64 (rp_generation row) 1 of
         Some generation \<Rightarrow> if generation \<le> 9007199254740991 then Some generation else None
       | None \<Rightarrow> None)"

text \<open>The branch of \<^verbatim>\<open>prepare_router_policy\<close> that allocates the next generation.\<close>

definition renew_policy ::
    "instant \<Rightarrow> bytes \<Rightarrow> (64 word \<Rightarrow> new_router_policy gateway_result) \<Rightarrow> router_policy_row \<Rightarrow>
     gateway_db \<Rightarrow> (gateway_db \<times> router_policy_row) gateway_result" where
  "renew_policy now configuration_digest build row db =
    and_then (next_generation row) (\<lambda>generation.
    and_then (ok_or corrupt_policy (u64_of_i64 generation)) (\<lambda>generation64.
    and_then (build generation64) (\<lambda>prepared.
      if nrp_expires_at prepared \<le> now then
        Inl (InvalidInput ''Router policy is already expired'')
      else
        let new = row\<lparr>rp_policy_revision := Some (rp_authority_revision row),
                      rp_generation := generation,
                      rp_configuration_digest := Some configuration_digest,
                      rp_policy_digest := Some (nrp_digest prepared),
                      rp_signed_policy := Some (nrp_signed_policy prepared),
                      rp_expires_at := Some (nrp_expires_at prepared),
                      rp_acknowledged_at := None\<rparr>
        in and_then (update_router_policy new db) (\<lambda>db. Inr (db, new)))))"

definition prepare_router_policy ::
    "instant \<Rightarrow> string \<Rightarrow> bytes \<Rightarrow> instant \<Rightarrow>
     (64 word \<Rightarrow> router_agent list \<Rightarrow> new_router_policy gateway_result) \<Rightarrow>
     gateway_db \<Rightarrow> gateway_db \<times> persisted_router_policy gateway_result" where
  "prepare_router_policy now organization_id configuration_digest refresh_before build =
    transaction (\<lambda>db.
      and_then (policy_in db organization_id) (\<lambda>row.
      let active = active_agents db organization_id in
      and_then
        (if policy_reusable configuration_digest refresh_before row then Inr (db, row)
         else renew_policy now configuration_digest (\<lambda>generation. build generation active) row db)
        (\<lambda>(db, row).
      and_then (persisted_policy row active) (\<lambda>policy. Inr (db, Inr policy)))))"

text \<open>\<open>now1\<close> is read for the expiry check, \<open>now2\<close> for the acknowledgment.\<close>

definition acknowledge_router_policy ::
    "instant \<Rightarrow> instant \<Rightarrow> string \<Rightarrow> persisted_router_policy \<Rightarrow>
     gateway_db \<Rightarrow> gateway_db \<times> router_admission gateway_result" where
  "acknowledge_router_policy now1 now2 organization_id policy =
    transaction (\<lambda>db.
      and_then (policy_in db organization_id) (\<lambda>row.
      and_then (ok_or corrupt_policy (i64_of_u64 (prp_generation policy))) (\<lambda>generation.
      if rp_generation row \<noteq> generation
         \<or> rp_policy_digest row \<noteq> Some (prp_digest policy)
         \<or> rp_policy_revision row \<noteq> Some (rp_authority_revision row)
         \<or> (case rp_expires_at row of None \<Rightarrow> True | Some time \<Rightarrow> time \<le> now1)
      then Inl (Conflict ''Router authority changed during acknowledgment'')
      else
        and_then (update_router_policy (row\<lparr>rp_acknowledged_at := Some now2\<rparr>) db) (\<lambda>db.
          Inr (db, Inr \<lparr>adm_organization_id = organization_id, adm_generation = generation,
            adm_digest = prp_digest policy,
            adm_valid_until = min (prp_expires_at policy) (now2 + ACKNOWLEDGMENT_LIFETIME)\<rparr>)))))"

definition require_admission_in ::
    "instant \<Rightarrow> router_admission \<Rightarrow> string \<Rightarrow> gateway_db \<Rightarrow> unit gateway_result" where
  "require_admission_in now admission agent_id db =
    and_then (policy_in db (adm_organization_id admission)) (\<lambda>row.
      if adm_valid_until admission \<le> now
         \<or> rp_generation row \<noteq> adm_generation admission
         \<or> rp_policy_digest row \<noteq> Some (adm_digest admission)
         \<or> rp_policy_revision row \<noteq> Some (rp_authority_revision row)
         \<or> (case rp_expires_at row of None \<Rightarrow> True | Some time \<Rightarrow> time \<le> now)
         \<or> (case rp_acknowledged_at row of None \<Rightarrow> True
             | Some time \<Rightarrow> time \<le> now - ACKNOWLEDGMENT_LIFETIME)
         \<or> \<not> is_active_agent db (adm_organization_id admission) agent_id
      then Inl (Unavailable ''The Agent has no current Router admission'')
      else Inr ())"

definition require_router_admission ::
    "instant \<Rightarrow> router_admission \<Rightarrow> string \<Rightarrow> gateway_db \<Rightarrow> gateway_db \<times> unit gateway_result" where
  "require_router_admission now admission agent_id =
    transaction (\<lambda>db. and_then (require_admission_in now admission agent_id db) (\<lambda>_. Inr (db, Inr ())))"

text \<open>
  How an organization's policy row may change: the generation and the authority revision
  never go back, and while the generation stays the recorded revision stays too.
\<close>

definition policy_advances :: "router_policy_row \<Rightarrow> router_policy_row \<Rightarrow> bool" where
  "policy_advances p q \<longleftrightarrow> rp_authority_revision p \<le> rp_authority_revision q \<and>
    (rp_generation p < rp_generation q \<or>
     (rp_generation p = rp_generation q \<and> rp_policy_revision p = rp_policy_revision q))"

definition authority_advances :: "gateway_db \<Rightarrow> gateway_db \<Rightarrow> bool" where
  "authority_advances db db' \<longleftrightarrow>
    (\<forall>org p. find_by rp_organization_id org (router_policies db) = Some p \<longrightarrow>
      (\<exists>q. find_by rp_organization_id org (router_policies db') = Some q \<and> policy_advances p q))"

text \<open>A policy row never records a revision from the future.\<close>

definition revision_ok :: "router_policy_row \<Rightarrow> bool" where
  "revision_ok p \<longleftrightarrow>
    (case rp_policy_revision p of None \<Rightarrow> True | Some r \<Rightarrow> r \<le> rp_authority_revision p)"

definition revisions_ok :: "gateway_db \<Rightarrow> bool" where
  "revisions_ok db \<longleftrightarrow> list_all revision_ok (router_policies db)"

text \<open>An admission that no later state accepts again.\<close>

definition admission_stale :: "router_admission \<Rightarrow> gateway_db \<Rightarrow> bool" where
  "admission_stale admission db \<longleftrightarrow>
    (case find_by rp_organization_id (adm_organization_id admission) (router_policies db) of
       None \<Rightarrow> False
     | Some row \<Rightarrow> rp_generation row > adm_generation admission \<or>
         (rp_generation row = adm_generation admission \<and>
          (case rp_policy_revision row of None \<Rightarrow> True | Some r \<Rightarrow> r < rp_authority_revision row)))"

section \<open>Lemmas\<close>

lemma is_active_agent_iff:
  "is_active_agent db org agent_id \<longleftrightarrow> agent_id \<in> ra_agent_id ` set (active_agents db org)"
  by (auto simp: is_active_agent_def active_agents_def image_image)

lemma u64_of_i64_Some: "0 \<le> i \<Longrightarrow> u64_of_i64 i = Some (word_of_int i)"
  by (simp add: u64_of_i64_def)

lemma i64_of_u64_of_int:
  assumes "0 \<le> i" and "i \<le> i64_max"
  shows "i64_of_u64 (word_of_int i) = Some i"
proof -
  have "uint (word_of_int i :: 64 word) = i"
    using assms by (simp add: uint_word_of_int_eq take_bit_int_eq_self i64_max_def)
  then show ?thesis using assms by (simp add: i64_of_u64_def)
qed

lemma policy_advances_refl [simp]: "policy_advances p p"
  by (simp add: policy_advances_def)

lemma policy_advances_trans:
  "policy_advances p q \<Longrightarrow> policy_advances q r \<Longrightarrow> policy_advances p r"
  by (auto simp: policy_advances_def)

lemma authority_advances_refl [simp]: "authority_advances db db"
  by (simp add: authority_advances_def)

lemma authority_advances_same: "router_policies db' = router_policies db \<Longrightarrow> authority_advances db db'"
  by (simp add: authority_advances_def)

lemma authority_advances_trans:
  "authority_advances a b \<Longrightarrow> authority_advances b c \<Longrightarrow> authority_advances a c"
  unfolding authority_advances_def by (blast intro: policy_advances_trans)

lemma invalidate_organization_advances:
  "invalidate_organization org db = Inr db' \<Longrightarrow> authority_advances db db'"
  by (auto dest!: invalidate_organization_Inr
      simp: authority_advances_def find_by_update_where policy_advances_def)

lemma revision_ok_bump:
  "revision_ok p \<Longrightarrow> revision_ok (p\<lparr>rp_authority_revision := rp_authority_revision p + 1,
    rp_acknowledged_at := acknowledged\<rparr>)"
  by (auto simp: revision_ok_def split: option.splits)

lemma invalidate_organization_revisions:
  "invalidate_organization org db = Inr db' \<Longrightarrow> revisions_ok db \<Longrightarrow> revisions_ok db'"
  by (drule invalidate_organization_Inr)
    (auto simp: revisions_ok_def list_all_iff set_update_where revision_ok_bump)

lemma invalidate_organization_stale:
  assumes "invalidate_organization (adm_organization_id adm) db = Inr db'" and "revisions_ok db"
    and "find_by rp_organization_id (adm_organization_id adm) (router_policies db) = Some p"
    and "adm_generation adm \<le> rp_generation p"
  shows "admission_stale adm db'"
proof -
  have "p \<in> set (router_policies db)" using assms(3) find_by_Some by fastforce
  then have "revision_ok p"
    using assms(2) by (auto simp: revisions_ok_def list_all_iff)
  then show ?thesis
    using invalidate_organization_Inr [OF assms(1)] find_by_Some [OF assms(3)] assms(3,4)
    by (auto simp: admission_stale_def find_by_update_where revision_ok_def split: option.splits)
qed

lemma admission_stale_advances:
  assumes "authority_advances db db'" and "revisions_ok db'" and "admission_stale adm db"
  shows "admission_stale adm db'"
proof -
  obtain p where p: "find_by rp_organization_id (adm_organization_id adm) (router_policies db) = Some p"
    using assms(3) by (auto simp: admission_stale_def split: option.splits)
  then obtain q where q:
      "find_by rp_organization_id (adm_organization_id adm) (router_policies db') = Some q"
      "policy_advances p q"
    using assms(1) unfolding authority_advances_def by blast
  show ?thesis
    using assms(3) p q(2) by (auto simp: admission_stale_def q(1) policy_advances_def split: option.splits)
qed

lemma admission_stale_refused:
  assumes "admission_stale adm db"
  shows "require_admission_in now adm agent_id db =
    Inl (Unavailable ''The Agent has no current Router admission'')"
proof -
  obtain row where row:
      "find_by rp_organization_id (adm_organization_id adm) (router_policies db) = Some row"
    using assms by (auto simp: admission_stale_def split: option.splits)
  then have "rp_generation row \<noteq> adm_generation adm \<or>
      rp_policy_revision row \<noteq> Some (rp_authority_revision row)"
    using assms by (cases "rp_policy_revision row") (auto simp: admission_stale_def)
  then show ?thesis using row by (simp add: require_admission_in_def policy_in_def)
qed

lemma require_admission_in_iff:
  "require_admission_in now adm agent_id db = Inr () \<longleftrightarrow>
    (\<exists>row expires acknowledged.
      find_by rp_organization_id (adm_organization_id adm) (router_policies db) = Some row \<and>
      now < adm_valid_until adm \<and> rp_generation row = adm_generation adm \<and>
      rp_policy_digest row = Some (adm_digest adm) \<and>
      rp_policy_revision row = Some (rp_authority_revision row) \<and>
      rp_expires_at row = Some expires \<and> now < expires \<and>
      rp_acknowledged_at row = Some acknowledged \<and> now < acknowledged + ACKNOWLEDGMENT_LIFETIME \<and>
      is_active_agent db (adm_organization_id adm) agent_id)"
proof (cases "find_by rp_organization_id (adm_organization_id adm) (router_policies db)")
  case (Some row)
  then show ?thesis
    by (cases "rp_expires_at row"; cases "rp_acknowledged_at row")
      (auto simp: require_admission_in_def policy_in_def)
qed (simp add: require_admission_in_def policy_in_def)

text \<open>The two repository operations on the policy row.\<close>

lemma policies_replace:
  assumes "router_policies_ok db" and "find_by rp_organization_id org (router_policies db) = Some row"
    and "rp_organization_id new = org" and "router_policy_row_ok new"
  shows "router_policies_ok (db\<lparr>router_policies :=
      update_where (\<lambda>p. rp_organization_id p = org) (\<lambda>_. new) (router_policies db)\<rparr>)"
proof -
  have "map rp_organization_id (update_where (\<lambda>p. rp_organization_id p = org) (\<lambda>_. new)
      (router_policies db)) = map rp_organization_id (router_policies db)"
    using assms(3) by (intro map_update_where) simp
  moreover from this have "rp_organization_id ` set (update_where (\<lambda>p. rp_organization_id p = org)
      (\<lambda>_. new) (router_policies db)) = rp_organization_id ` set (router_policies db)"
    by (metis list.set_map)
  ultimately show ?thesis
    using assms(1,4)
    by (auto simp: router_policies_ok_def refers_iff list_all_iff set_update_where)
qed

lemma find_replaced:
  assumes "find_by rp_organization_id org ps = Some row" and "rp_organization_id new = org"
  shows "find_by rp_organization_id k
      (update_where (\<lambda>p. rp_organization_id p = org) (\<lambda>_. new) ps) =
    (if k = org then Some new else find_by rp_organization_id k ps)"
proof -
  have "find_by rp_organization_id k (update_where (\<lambda>p. rp_organization_id p = org) (\<lambda>_. new) ps) =
      map_option (\<lambda>r. if rp_organization_id r = org then new else r) (find_by rp_organization_id k ps)"
    using assms(2) by (intro find_by_update_where) simp
  then show ?thesis
    using assms(1) find_by_Some [of rp_organization_id k ps]
    by (cases "find_by rp_organization_id k ps") auto
qed

lemma replace_advances:
  assumes "find_by rp_organization_id org (router_policies db) = Some row"
    and "rp_organization_id new = org" and "policy_advances row new"
    and "db' = db\<lparr>router_policies :=
      update_where (\<lambda>p. rp_organization_id p = org) (\<lambda>_. new) (router_policies db)\<rparr>"
  shows "authority_advances db db'"
  using assms by (simp add: authority_advances_def find_replaced [OF assms(1,2)])

lemma replace_revisions:
  assumes "revisions_ok db" and "revision_ok new"
    and "db' = db\<lparr>router_policies :=
      update_where (\<lambda>p. rp_organization_id p = org) (\<lambda>_. new) (router_policies db)\<rparr>"
  shows "revisions_ok db'"
  using assms by (auto simp: revisions_ok_def list_all_iff set_update_where)

lemma next_generation_Inr:
  "next_generation row = Inr g \<longleftrightarrow> g = rp_generation row + 1 \<and> g \<le> 9007199254740991 \<and> i64_min \<le> g"
  by (auto simp: next_generation_def checked_add_i64_def ok_or_eq_Inr i64_max_def split: if_splits)

lemma persisted_policy_Inr:
  "persisted_policy row active = Inr policy \<longleftrightarrow>
    0 \<le> rp_generation row \<and> prp_generation policy = word_of_int (rp_generation row) \<and>
    rp_signed_policy row = Some (prp_signed_policy policy) \<and>
    rp_policy_digest row = Some (prp_digest policy) \<and> length (prp_digest policy) = 32 \<and>
    rp_expires_at row = Some (prp_expires_at policy) \<and> prp_agents policy = active"
  by (cases policy) (auto simp: persisted_policy_def result_simps u64_of_i64_def split: if_splits)

lemma policy_in_Inr:
  "policy_in db org = Inr row \<longleftrightarrow> find_by rp_organization_id org (router_policies db) = Some row"
  by (simp add: policy_in_def ok_or_eq_Inr)

lemma update_router_policy_Inr:
  "update_router_policy new db = Inr db' \<longleftrightarrow> router_policies_ok db' \<and> db' = db\<lparr>router_policies :=
     update_where (\<lambda>p. rp_organization_id p = rp_organization_id new) (\<lambda>_. new) (router_policies db)\<rparr>"
  by (auto simp: update_router_policy_def)

lemma renew_policy_Inr:
  assumes "renew_policy now cfg build row db = Inr (db', new)"
  shows "rp_generation new = rp_generation row + 1" and "rp_acknowledged_at new = None"
    and "rp_policy_revision new = Some (rp_authority_revision row)"
    and "rp_authority_revision new = rp_authority_revision row"
    and "rp_organization_id new = rp_organization_id row"
    and "\<exists>e. rp_expires_at new = Some e \<and> now < e"
    and "update_router_policy new db = Inr db'"
  using assms
  by (auto simp: renew_policy_def and_then_eq_Inr next_generation_Inr Let_def not_le split: if_splits)

text \<open>What a successful \<^verbatim>\<open>prepare_router_policy\<close> did: it kept a current row or moved to the next generation.\<close>

lemma prepare_router_policy_Inr:
  assumes "prepare_router_policy now org cfg refresh build db = (db', Inr policy)"
  obtains row new where
    "find_by rp_organization_id org (router_policies db) = Some row"
    "persisted_policy new (active_agents db org) = Inr policy"
    "db' = db \<and> new = row \<and> policy_reusable cfg refresh row \<or>
     \<not> policy_reusable cfg refresh row \<and>
     renew_policy now cfg (\<lambda>g. build g (active_agents db org)) row db = Inr (db', new)"
  using assms
  by (auto simp: prepare_router_policy_def transaction_Inr and_then_eq_Inr policy_in_Inr Let_def
      split: if_splits)

lemma prepare_router_policy_row:
  assumes "prepare_router_policy now org cfg refresh build db = (db', Inr policy)"
  obtains new where
    "find_by rp_organization_id org (router_policies db') = Some new"
    "rp_policy_revision new = Some (rp_authority_revision new)"
    "persisted_policy new (active_agents db org) = Inr policy"
proof -
  from assms obtain row new where row: "find_by rp_organization_id org (router_policies db) = Some row"
    and pers: "persisted_policy new (active_agents db org) = Inr policy"
    and cases: "db' = db \<and> new = row \<and> policy_reusable cfg refresh row \<or>
      \<not> policy_reusable cfg refresh row \<and>
      renew_policy now cfg (\<lambda>g. build g (active_agents db org)) row db = Inr (db', new)"
    by (rule prepare_router_policy_Inr)
  have org: "rp_organization_id row = org" using find_by_Some [OF row] by simp
  from cases show thesis
  proof (elim disjE conjE)
    assume "db' = db" "new = row" "policy_reusable cfg refresh row"
    then show thesis using that [of row] row pers by (simp add: policy_reusable_def)
  next
    assume "renew_policy now cfg (\<lambda>g. build g (active_agents db org)) row db = Inr (db', new)"
    note new = renew_policy_Inr [OF this]
    then have "find_by rp_organization_id org (router_policies db') = Some new"
      using find_replaced [OF row, of new org] org by (auto simp: update_router_policy_Inr)
    then show thesis using that [of new] new(3,4) pers by simp
  qed
qed

lemma prepare_router_policy_Inl:
  "prepare_router_policy now org cfg refresh build db = (db', Inl e) \<Longrightarrow> db' = db"
  by (auto simp: prepare_router_policy_def transaction_eq and_then_eq_Inr Let_def)

lemma acknowledge_router_policy_Inl:
  "acknowledge_router_policy now1 now2 org policy db = (db', Inl e) \<Longrightarrow> db' = db"
  by (auto simp: acknowledge_router_policy_def transaction_eq and_then_eq_Inr Let_def split: if_splits)

lemma acknowledge_router_policy_Inr:
  assumes "acknowledge_router_policy now1 now2 org policy db = (db', Inr adm)"
  obtains row where
    "find_by rp_organization_id org (router_policies db) = Some row"
    "update_router_policy (row\<lparr>rp_acknowledged_at := Some now2\<rparr>) db = Inr db'"
    "rp_policy_revision row = Some (rp_authority_revision row)"
    "i64_of_u64 (prp_generation policy) = Some (rp_generation row)"
    "rp_policy_digest row = Some (prp_digest policy)"
    "\<exists>e. rp_expires_at row = Some e \<and> now1 < e"
    "adm = \<lparr>adm_organization_id = org, adm_generation = rp_generation row,
       adm_digest = prp_digest policy,
       adm_valid_until = min (prp_expires_at policy) (now2 + ACKNOWLEDGMENT_LIFETIME)\<rparr>"
  using assms
  by (auto simp: acknowledge_router_policy_def transaction_Inr and_then_eq_Inr policy_in_Inr
      ok_or_eq_Inr not_le split: if_splits option.splits)

lemma prepare_router_policy_advances:
  assumes "prepare_router_policy now org cfg refresh build db = (db', r)"
  shows "authority_advances db db'" and "revisions_ok db \<Longrightarrow> revisions_ok db'"
proof -
  have "authority_advances db db' \<and> (revisions_ok db \<longrightarrow> revisions_ok db')"
  proof (cases r)
    case (Inl e)
    then show ?thesis using assms by (auto dest: prepare_router_policy_Inl)
  next
    case (Inr policy)
    from assms [unfolded this] obtain row new
      where row: "find_by rp_organization_id org (router_policies db) = Some row"
      and cases: "db' = db \<and> new = row \<and> policy_reusable cfg refresh row \<or>
        \<not> policy_reusable cfg refresh row \<and>
        renew_policy now cfg (\<lambda>g. build g (active_agents db org)) row db = Inr (db', new)"
      by (rule prepare_router_policy_Inr)
    from cases show ?thesis
    proof (elim disjE conjE)
      assume "renew_policy now cfg (\<lambda>g. build g (active_agents db org)) row db = Inr (db', new)"
      note new = renew_policy_Inr [OF this]
      have upd: "rp_organization_id new = org" "db' = db\<lparr>router_policies :=
          update_where (\<lambda>p. rp_organization_id p = org) (\<lambda>_. new) (router_policies db)\<rparr>"
        using new(5,7) find_by_Some [OF row] by (simp_all add: update_router_policy_Inr)
      show ?thesis
        using replace_advances [OF row upd(1) _ upd(2)] replace_revisions [OF _ _ upd(2)] new
        by (simp add: policy_advances_def revision_ok_def)
    qed simp
  qed
  then show "authority_advances db db'" "revisions_ok db \<Longrightarrow> revisions_ok db'" by auto
qed

lemma acknowledge_router_policy_advances:
  assumes "acknowledge_router_policy now1 now2 org policy db = (db', r)"
  shows "authority_advances db db'" and "revisions_ok db \<Longrightarrow> revisions_ok db'"
proof -
  have "authority_advances db db' \<and> (revisions_ok db \<longrightarrow> revisions_ok db')"
  proof (cases r)
    case (Inl e)
    then show ?thesis using assms by (auto dest: acknowledge_router_policy_Inl)
  next
    case (Inr adm)
    from assms [unfolded this] obtain row
      where row: "find_by rp_organization_id org (router_policies db) = Some row"
      and upd: "update_router_policy (row\<lparr>rp_acknowledged_at := Some now2\<rparr>) db = Inr db'"
      and rev: "rp_policy_revision row = Some (rp_authority_revision row)"
      by (rule acknowledge_router_policy_Inr)
    have new: "rp_organization_id (row\<lparr>rp_acknowledged_at := Some now2\<rparr>) = org"
      "db' = db\<lparr>router_policies := update_where (\<lambda>p. rp_organization_id p = org)
         (\<lambda>_. row\<lparr>rp_acknowledged_at := Some now2\<rparr>) (router_policies db)\<rparr>"
      using upd find_by_Some [OF row] by (simp_all add: update_router_policy_Inr)
    show ?thesis
      using replace_advances [OF row new(1) _ new(2)] replace_revisions [OF _ _ new(2)] rev
      by (simp add: policy_advances_def revision_ok_def)
  qed
  then show "authority_advances db db'" "revisions_ok db \<Longrightarrow> revisions_ok db'" by auto
qed

text \<open>The statements with triggers.\<close>

lemma trigger_agent_key_advances:
  assumes "trigger_agent_key k db = Inr db'"
  shows "authority_advances db db'" and "revisions_ok db \<Longrightarrow> revisions_ok db'"
  using assms invalidate_organization_advances invalidate_organization_revisions
  by (auto simp: trigger_agent_key_def split: option.splits)

lemma insert_agent_advances:
  assumes "insert_agent row db = Inr db'"
  shows "authority_advances db db'" and "revisions_ok db \<Longrightarrow> revisions_ok db'"
  using assms invalidate_organization_advances invalidate_organization_revisions
  by (force simp: insert_agent_def and_then_eq_Inr authority_advances_def revisions_ok_def)+

lemma update_agent_advances:
  assumes "update_agent old new db = Inr db'"
  shows "authority_advances db db'" and "revisions_ok db \<Longrightarrow> revisions_ok db'"
proof -
  let ?db = "db\<lparr>agents := update_where (\<lambda>a. ag_agent_id a = ag_agent_id old) (\<lambda>_. new) (agents db)\<rparr>"
  obtain db1 where db1: "invalidate_organization (ag_organization_id old) ?db = Inr db1"
      "invalidate_organization (ag_organization_id new) db1 = Inr db'"
    using assms by (auto simp: update_agent_def trigger_agent_update_def and_then_eq_Inr)
  have "authority_advances db ?db" by (simp add: authority_advances_same)
  then show "authority_advances db db'"
    using db1 invalidate_organization_advances authority_advances_trans by blast
  show "revisions_ok db \<Longrightarrow> revisions_ok db'"
    using db1 invalidate_organization_revisions by (fastforce simp: revisions_ok_def)
qed

lemma insert_agent_key_advances:
  assumes "insert_agent_key row db = Inr db'"
  shows "authority_advances db db'" and "revisions_ok db \<Longrightarrow> revisions_ok db'"
  using assms trigger_agent_key_advances
  by (force simp: insert_agent_key_def and_then_eq_Inr authority_advances_def revisions_ok_def)+

lemma trigger_agent_keys_advances:
  assumes "try_fold trigger_agent_key ks db = Inr db'"
  shows "authority_advances db db'" and "revisions_ok db \<Longrightarrow> revisions_ok db'"
proof -
  show "authority_advances db db'"
    using assms by (rule try_fold_invariant)
      (auto intro: authority_advances_trans trigger_agent_key_advances(1))
  show "revisions_ok db \<Longrightarrow> revisions_ok db'"
    using assms by (rule try_fold_invariant) (auto intro: trigger_agent_key_advances(2))
qed

lemma retire_agent_keys_advances:
  assumes "retire_agent_keys P now db = Inr db'"
  shows "authority_advances db db'" and "revisions_ok db \<Longrightarrow> revisions_ok db'"
  using assms trigger_agent_keys_advances
  by (force simp: retire_agent_keys_def authority_advances_def revisions_ok_def)+

lemmas authority_statements_advance =
  insert_agent_advances update_agent_advances insert_agent_key_advances retire_agent_keys_advances

text \<open>A change of Agents or keys makes the organization's admissions stale.\<close>

definition admission_known :: "router_admission \<Rightarrow> gateway_db \<Rightarrow> bool" where
  "admission_known adm db \<longleftrightarrow>
    (case find_by rp_organization_id (adm_organization_id adm) (router_policies db) of
       None \<Rightarrow> False | Some row \<Rightarrow> adm_generation adm \<le> rp_generation row)"

lemma require_admission_known:
  "require_admission_in now adm agent_id db = Inr () \<Longrightarrow> admission_known adm db"
  by (auto simp: require_admission_in_iff admission_known_def)

lemma invalidate_known_stale:
  assumes "invalidate_organization (adm_organization_id adm) db = Inr db'" and "revisions_ok db"
    and "admission_known adm db"
  shows "admission_stale adm db'"
  using assms invalidate_organization_stale by (auto simp: admission_known_def split: option.splits)

lemma admission_known_advances:
  assumes "authority_advances db db'" and "admission_known adm db"
  shows "admission_known adm db'"
proof -
  obtain p where p: "find_by rp_organization_id (adm_organization_id adm) (router_policies db) = Some p"
    using assms(2) by (auto simp: admission_known_def split: option.splits)
  then obtain q where "find_by rp_organization_id (adm_organization_id adm) (router_policies db') = Some q"
      "policy_advances p q"
    using assms(1) unfolding authority_advances_def by blast
  then show ?thesis using p assms(2) by (auto simp: admission_known_def policy_advances_def)
qed

lemma admission_frame [simp]:
  "admission_known adm (db\<lparr>agents := x\<rparr>) = admission_known adm db"
  "admission_known adm (db\<lparr>agent_keys := y\<rparr>) = admission_known adm db"
  "revisions_ok (db\<lparr>agents := x\<rparr>) = revisions_ok db"
  "revisions_ok (db\<lparr>agent_keys := y\<rparr>) = revisions_ok db"
  by (simp_all add: admission_known_def revisions_ok_def)

lemma insert_agent_stale:
  assumes "insert_agent row db = Inr db'" and "ag_organization_id row = adm_organization_id adm"
    and "revisions_ok db" and "admission_known adm db"
  shows "admission_stale adm db'"
  using assms invalidate_known_stale [of adm "db\<lparr>agents := agents db @ [row]\<rparr>" db']
  by (auto simp: insert_agent_def and_then_eq_Inr)

lemma update_agent_stale:
  assumes "update_agent old new db = Inr db'" and "ag_organization_id old = adm_organization_id adm"
    and "revisions_ok db" and "admission_known adm db"
  shows "admission_stale adm db'"
proof -
  let ?db = "db\<lparr>agents := update_where (\<lambda>a. ag_agent_id a = ag_agent_id old) (\<lambda>_. new) (agents db)\<rparr>"
  obtain db1 where db1: "invalidate_organization (ag_organization_id old) ?db = Inr db1"
      "invalidate_organization (ag_organization_id new) db1 = Inr db'"
    using assms by (auto simp: update_agent_def trigger_agent_update_def and_then_eq_Inr)
  have "admission_stale adm db1"
    using db1(1) assms by (intro invalidate_known_stale [of adm ?db]) simp_all
  moreover have "revisions_ok db1"
    using invalidate_organization_revisions [OF db1(1)] assms(3) by simp
  ultimately show ?thesis
    using db1(2) admission_stale_advances invalidate_organization_advances
      invalidate_organization_revisions by blast
qed

lemma trigger_agent_key_stale:
  assumes "trigger_agent_key k db = Inr db'" and "revisions_ok db" and "admission_known adm db"
    and "find_by ag_agent_id (ak_agent_id k) (agents db) = Some a"
    and "ag_organization_id a = adm_organization_id adm"
  shows "admission_stale adm db'"
  using assms invalidate_known_stale by (auto simp: trigger_agent_key_def)

lemma insert_agent_key_stale:
  assumes "insert_agent_key k db = Inr db'" and "revisions_ok db" and "admission_known adm db"
    and "find_by ag_agent_id (ak_agent_id k) (agents db) = Some a"
    and "ag_organization_id a = adm_organization_id adm"
  shows "admission_stale adm db'"
  using assms trigger_agent_key_stale [of k "db\<lparr>agent_keys := agent_keys db @ [k]\<rparr>" db' adm a]
  by (auto simp: insert_agent_key_def and_then_eq_Inr)

lemma retire_agent_keys_stale:
  assumes "retire_agent_keys P now db = Inr db'" and "revisions_ok db" and "admission_known adm db"
    and "k \<in> set (agent_keys db)" and "P k"
    and "find_by ag_agent_id (ak_agent_id k) (agents db) = Some a"
    and "ag_organization_id a = adm_organization_id adm"
  shows "admission_stale adm db'"
proof -
  let ?db = "db\<lparr>agent_keys := update_where P (\<lambda>k. k\<lparr>ak_retired_at := Some now\<rparr>) (agent_keys db)\<rparr>"
  obtain xs ys where ks: "filter P (agent_keys db) = xs @ k # ys"
    using assms(4,5) split_list [of k "filter P (agent_keys db)"] by auto
  obtain db1 db2 where db1: "try_fold trigger_agent_key xs ?db = Inr db1"
      and db2: "trigger_agent_key k db1 = Inr db2" and fin: "try_fold trigger_agent_key ys db2 = Inr db'"
    using assms(1) by (auto simp: retire_agent_keys_def ks try_fold_append and_then_eq_Inr)
  have rev: "revisions_ok db1" "admission_known adm db1"
    using trigger_agent_keys_advances [OF db1] assms(2,3) admission_known_advances [of ?db db1 adm]
    by simp_all
  have "agents db1 = agents db"
    using arg_cong [OF trigger_agent_keys_frame [OF db1], of agents] by simp
  then have "admission_stale adm db2"
    using trigger_agent_key_stale [OF db2 rev] assms(6,7) by simp
  moreover have "revisions_ok db'"
    using trigger_agent_keys_advances(2) [OF fin] trigger_agent_key_advances(2) [OF db2] rev(1) by simp
  ultimately show ?thesis
    using admission_stale_advances trigger_agent_keys_advances(1) [OF fin] by blast
qed

section \<open>Properties\<close>



end
