(* ===== verification/Db_Invariant.thy ===== *)
theory Db_Invariant
  imports Statements
begin

text \<open>
  Every statement of the repository keeps all constraints of the schema.  A statement checks
  the constraints of the table it writes; the other tables only depend on the primary keys
  of the tables they refer to, and no statement removes one of those.
\<close>

definition keys_grow :: "gateway_db \<Rightarrow> gateway_db \<Rightarrow> bool" where
  "keys_grow db db' \<longleftrightarrow>
    org_organization_id ` set (organizations db) \<subseteq> org_organization_id ` set (organizations db') \<and>
    st_site_id ` set (sites db) \<subseteq> st_site_id ` set (sites db') \<and>
    ag_agent_id ` set (agents db) \<subseteq> ag_agent_id ` set (agents db') \<and>
    iv_invitation_id ` set (invitations db) \<subseteq> iv_invitation_id ` set (invitations db') \<and>
    pf_preflight_id ` set (preflights db) \<subseteq> pf_preflight_id ` set (preflights db') \<and>
    mw_managed_work_id ` set (managed_works db) \<subseteq> mw_managed_work_id ` set (managed_works db')"

lemma keys_grow_refl [simp]: "keys_grow db db"
  by (simp add: keys_grow_def)

lemma keys_grow_trans: "keys_grow a b \<Longrightarrow> keys_grow b c \<Longrightarrow> keys_grow a c"
  unfolding keys_grow_def by (meson subset_trans)

lemma db_ok_intro:
  assumes ok: "db_ok db" and grow: "keys_grow db db'"
    and "organizations db' = organizations db \<or> organizations_ok db'"
    and "sites db' = sites db \<or> sites_ok db'"
    and "agents db' = agents db \<or> agents_ok db'"
    and "agent_keys db' = agent_keys db \<or> agent_keys_ok db'"
    and "invitations db' = invitations db \<or> invitations_ok db'"
    and "invitation_attempts db' = invitation_attempts db \<or> invitation_attempts_ok db'"
    and "commands db' = commands db \<or> commands_ok db'"
    and "publications db' = publications db \<or> publications_ok db'"
    and "audit_events db' = audit_events db \<or> audit_events_ok db'"
    and "devices db' = devices db \<or> devices_ok db'"
    and "preflights db' = preflights db \<or> preflights_ok db'"
    and "managed_works db' = managed_works db \<or> managed_works_ok db'"
    and "managed_payloads db' = managed_payloads db \<or> managed_payloads_ok db'"
    and "state_observations db' = state_observations db \<or> state_observations_ok db'"
    and "router_policies db' = router_policies db \<or> router_policies_ok db'"
  shows "db_ok db'"
proof -
  note mono = refers_mono [OF _ grow [unfolded keys_grow_def, THEN conjunct1] subset_refl]
    refers_mono [OF _ grow [unfolded keys_grow_def, THEN conjunct2, THEN conjunct1] subset_refl]
    refers_mono [OF _ grow [unfolded keys_grow_def, THEN conjunct2, THEN conjunct2, THEN conjunct1] subset_refl]
    refers_mono [OF _ grow [unfolded keys_grow_def, THEN conjunct2, THEN conjunct2, THEN conjunct2,
        THEN conjunct1] subset_refl]
    refers_mono [OF _ grow [unfolded keys_grow_def, THEN conjunct2, THEN conjunct2, THEN conjunct2,
        THEN conjunct2, THEN conjunct1] subset_refl]
    refers_mono [OF _ grow [unfolded keys_grow_def, THEN conjunct2, THEN conjunct2, THEN conjunct2,
        THEN conjunct2, THEN conjunct2] subset_refl]
  have "organizations_ok db'" using assms(3) ok by (auto simp: db_ok_def organizations_ok_def)
  moreover have "sites_ok db'"
    using assms(4) ok by (auto simp: db_ok_def sites_ok_def intro: mono)
  moreover have "agents_ok db'"
    using assms(5) ok by (auto simp: db_ok_def agents_ok_def intro: mono)
  moreover have "agent_keys_ok db'"
    using assms(6) ok by (auto simp: db_ok_def agent_keys_ok_def intro: mono)
  moreover have "invitations_ok db'"
    using assms(7) ok by (auto simp: db_ok_def invitations_ok_def intro: mono)
  moreover have "invitation_attempts_ok db'"
    using assms(8) ok by (auto simp: db_ok_def invitation_attempts_ok_def intro: mono)
  moreover have "commands_ok db'"
    using assms(9) ok by (auto simp: db_ok_def commands_ok_def intro: mono)
  moreover have "publications_ok db'"
    using assms(10) ok by (auto simp: db_ok_def publications_ok_def intro: mono)
  moreover have "audit_events_ok db'"
    using assms(11) ok by (auto simp: db_ok_def audit_events_ok_def intro: mono)
  moreover have "devices_ok db'"
    using assms(12) ok by (auto simp: db_ok_def devices_ok_def intro: mono)
  moreover have "preflights_ok db'"
    using assms(13) ok by (auto simp: db_ok_def preflights_ok_def)
  moreover have "managed_works_ok db'"
    using assms(14) ok by (auto simp: db_ok_def managed_works_ok_def intro: mono)
  moreover have "managed_payloads_ok db'"
    using assms(15) ok by (auto simp: db_ok_def managed_payloads_ok_def intro: mono)
  moreover have "state_observations_ok db'"
    using assms(16) ok by (auto simp: db_ok_def state_observations_ok_def intro: mono)
  moreover have "router_policies_ok db'"
    using assms(17) ok by (auto simp: db_ok_def router_policies_ok_def intro: mono)
  ultimately show ?thesis unfolding db_ok_def by blast
qed

section \<open>The triggers\<close>

lemma invalidate_organization_ok:
  assumes "invalidate_organization org db = Inr db'" and "router_policies_ok db"
  shows "router_policies_ok db'"
proof -
  let ?f = "\<lambda>p. p\<lparr>rp_authority_revision := rp_authority_revision p + 1, rp_acknowledged_at := None\<rparr>"
  let ?ps = "update_where (\<lambda>p. rp_organization_id p = org) ?f (router_policies db)"
  have keys: "map rp_organization_id ?ps = map rp_organization_id (router_policies db)"
    by (rule map_update_where) simp
  have "router_policy_row_ok (?f p)" if "router_policy_row_ok p" for p
    using that by (auto simp: router_policy_row_ok_def)
  then have "list_all router_policy_row_ok ?ps"
    using assms(2) by (auto simp: router_policies_ok_def list_all_iff set_update_where)
  then show ?thesis
    using invalidate_organization_Inr [OF assms(1)] assms(2) keys arg_cong [OF keys, of set]
    by (simp add: router_policies_ok_def refers_iff del: set_map flip: set_map)
qed

lemma trigger_agent_key_ok:
  "trigger_agent_key k db = Inr db' \<Longrightarrow> router_policies_ok db \<Longrightarrow> router_policies_ok db'"
  by (auto simp: trigger_agent_key_def intro: invalidate_organization_ok split: option.splits)

lemma trigger_agent_keys_ok:
  assumes "try_fold trigger_agent_key ks db = Inr db'" and "router_policies_ok db"
  shows "router_policies_ok db'"
  using assms(1) by (rule try_fold_invariant) (use assms(2) in \<open>auto intro: trigger_agent_key_ok\<close>)

section \<open>Changes of one table\<close>

lemma db_ok_tables:
  assumes "db_ok db"
  shows "router_policies_ok (db\<lparr>router_policies := ps\<rparr>) \<Longrightarrow> db_ok (db\<lparr>router_policies := ps\<rparr>)"
    and "agent_keys_ok (db\<lparr>agent_keys := ks\<rparr>) \<Longrightarrow> db_ok (db\<lparr>agent_keys := ks\<rparr>)"
    and "invitation_attempts_ok (db\<lparr>invitation_attempts := ats\<rparr>) \<Longrightarrow>
      db_ok (db\<lparr>invitation_attempts := ats\<rparr>)"
    and "commands_ok (db\<lparr>commands := cs\<rparr>) \<Longrightarrow> db_ok (db\<lparr>commands := cs\<rparr>)"
    and "publications_ok (db\<lparr>publications := pbs\<rparr>) \<Longrightarrow> db_ok (db\<lparr>publications := pbs\<rparr>)"
    and "audit_events_ok (db\<lparr>audit_events := es\<rparr>) \<Longrightarrow> db_ok (db\<lparr>audit_events := es\<rparr>)"
    and "devices_ok (db\<lparr>devices := ds\<rparr>) \<Longrightarrow> db_ok (db\<lparr>devices := ds\<rparr>)"
    and "managed_payloads_ok (db\<lparr>managed_payloads := mps\<rparr>) \<Longrightarrow> db_ok (db\<lparr>managed_payloads := mps\<rparr>)"
    and "state_observations_ok (db\<lparr>state_observations := obs\<rparr>) \<Longrightarrow>
      db_ok (db\<lparr>state_observations := obs\<rparr>)"
  by (rule db_ok_intro [OF assms]; simp add: keys_grow_def)+

lemma db_ok_parent_tables:
  assumes "db_ok db"
  shows "organizations_ok (db\<lparr>organizations := gs\<rparr>) \<Longrightarrow>
      org_organization_id ` set (organizations db) \<subseteq> org_organization_id ` set gs \<Longrightarrow>
      db_ok (db\<lparr>organizations := gs\<rparr>)"
    and "sites_ok (db\<lparr>sites := ss\<rparr>) \<Longrightarrow> st_site_id ` set (sites db) \<subseteq> st_site_id ` set ss \<Longrightarrow>
      db_ok (db\<lparr>sites := ss\<rparr>)"
    and "agents_ok (db\<lparr>agents := as\<rparr>) \<Longrightarrow> ag_agent_id ` set (agents db) \<subseteq> ag_agent_id ` set as \<Longrightarrow>
      db_ok (db\<lparr>agents := as\<rparr>)"
    and "invitations_ok (db\<lparr>invitations := is\<rparr>) \<Longrightarrow>
      iv_invitation_id ` set (invitations db) \<subseteq> iv_invitation_id ` set is \<Longrightarrow>
      db_ok (db\<lparr>invitations := is\<rparr>)"
    and "preflights_ok (db\<lparr>preflights := pfs\<rparr>) \<Longrightarrow>
      pf_preflight_id ` set (preflights db) \<subseteq> pf_preflight_id ` set pfs \<Longrightarrow>
      db_ok (db\<lparr>preflights := pfs\<rparr>)"
    and "managed_works_ok (db\<lparr>managed_works := ws\<rparr>) \<Longrightarrow>
      mw_managed_work_id ` set (managed_works db) \<subseteq> mw_managed_work_id ` set ws \<Longrightarrow>
      db_ok (db\<lparr>managed_works := ws\<rparr>)"
  by (rule db_ok_intro [OF assms]; simp add: keys_grow_def)+

lemma key_image_update_where:
  "(\<And>r. P r \<Longrightarrow> key (f r) = key r) \<Longrightarrow> key ` set (update_where P f t) = key ` set t"
  unfolding set_update_where image_image by (rule image_cong) simp_all

section \<open>Statements\<close>

lemma db_ok_policies:
  assumes "db_ok db" and "db' = db\<lparr>router_policies := router_policies db'\<rparr>" and "router_policies_ok db'"
  shows "db_ok db'"
proof -
  have "\<exists>ps. db' = db\<lparr>router_policies := ps\<rparr>" by (rule exI, rule assms(2))
  then obtain ps where db': "db' = db\<lparr>router_policies := ps\<rparr>" ..
  show ?thesis unfolding db' by (rule db_ok_tables(1) [OF assms(1) assms(3) [unfolded db']])
qed

lemma db_ok_router_policies: "db_ok db \<Longrightarrow> router_policies_ok db"
  by (simp add: db_ok_def)

lemma invalidate_organization_db_ok:
  assumes "invalidate_organization org db = Inr db'" and "db_ok db"
  shows "db_ok db'"
  by (rule db_ok_policies [OF assms(2) invalidate_organization_frame [OF assms(1)]
        invalidate_organization_ok [OF assms(1) db_ok_router_policies [OF assms(2)]]])

lemma trigger_agent_key_db_ok:
  "trigger_agent_key k db = Inr db' \<Longrightarrow> db_ok db \<Longrightarrow> db_ok db'"
  by (auto simp: trigger_agent_key_def intro: invalidate_organization_db_ok split: option.splits)

lemma insert_organization_db_ok:
  assumes "insert_organization row db = Inr db'" and "db_ok db"
  shows "db_ok db'"
proof -
  let ?db = "db\<lparr>organizations := organizations db @ [row]\<rparr>"
  let ?ps = "router_policies db @ [initial_router_policy (org_organization_id row)]"
  have "organizations_ok ?db" and ps: "router_policies_ok (?db\<lparr>router_policies := ?ps\<rparr>)"
    and db': "db' = ?db\<lparr>router_policies := ?ps\<rparr>"
    using assms(1) by (simp_all add: insert_organization_def and_then_eq_Inr)
  then have "db_ok ?db" by (intro db_ok_parent_tables(1) [OF assms(2)]) auto
  then show ?thesis unfolding db' using ps by (rule db_ok_tables(1))
qed

lemma insert_site_db_ok: "insert_site row db = Inr db' \<Longrightarrow> db_ok db \<Longrightarrow> db_ok db'"
  by (auto simp: insert_site_def intro: db_ok_parent_tables(2))

lemma insert_agent_db_ok:
  assumes "insert_agent row db = Inr db'" and "db_ok db"
  shows "db_ok db'"
proof -
  let ?db = "db\<lparr>agents := agents db @ [row]\<rparr>"
  have "agents_ok ?db" and trigger: "invalidate_organization (ag_organization_id row) ?db = Inr db'"
    using assms(1) by (simp_all add: insert_agent_def and_then_eq_Inr)
  then have "db_ok ?db" by (intro db_ok_parent_tables(3) [OF assms(2)]) auto
  then show ?thesis by (rule invalidate_organization_db_ok [OF trigger])
qed

lemma update_agent_db_ok:
  assumes "update_agent old new db = Inr db'" and "db_ok db" and "ag_agent_id new = ag_agent_id old"
  shows "db_ok db'"
proof -
  let ?db = "db\<lparr>agents := update_where (\<lambda>a. ag_agent_id a = ag_agent_id old) (\<lambda>_. new) (agents db)\<rparr>"
  obtain db1 where "agents_ok ?db" and t1: "invalidate_organization (ag_organization_id old) ?db = Inr db1"
      and t2: "invalidate_organization (ag_organization_id new) db1 = Inr db'"
    using assms(1) by (auto simp: update_agent_def trigger_agent_update_def and_then_eq_Inr)
  then have "db_ok ?db"
    using key_image_update_where [of "\<lambda>a. ag_agent_id a = ag_agent_id old" ag_agent_id "\<lambda>_. new" "agents db"]
      assms(3)
    by (intro db_ok_parent_tables(3) [OF assms(2)]) auto
  from invalidate_organization_db_ok [OF t2 invalidate_organization_db_ok [OF t1 this]]
  show ?thesis .
qed

lemma insert_agent_key_db_ok:
  assumes "insert_agent_key row db = Inr db'" and "db_ok db"
  shows "db_ok db'"
proof -
  let ?db = "db\<lparr>agent_keys := agent_keys db @ [row]\<rparr>"
  have "agent_keys_ok ?db" and trigger: "trigger_agent_key row ?db = Inr db'"
    using assms(1) by (simp_all add: insert_agent_key_def and_then_eq_Inr)
  from this(1) have "db_ok ?db" by (rule db_ok_tables(2) [OF assms(2)])
  then show ?thesis by (rule trigger_agent_key_db_ok [OF trigger])
qed

lemma retired_keys_ok:
  assumes "agent_keys_ok db"
  shows "agent_keys_ok (db\<lparr>agent_keys := update_where P (\<lambda>k. k\<lparr>ak_retired_at := Some now\<rparr>) (agent_keys db)\<rparr>)"
proof -
  let ?f = "\<lambda>k. k\<lparr>ak_retired_at := Some now\<rparr>"
  let ?g = "\<lambda>k. (ak_agent_id k, ak_purpose k)"
  let ?ks = "update_where P ?f (agent_keys db)"
  have "map ?g (filter (\<lambda>k. ak_retired_at k = None) (update_where P ?f ks)) =
      map ?g (filter (\<lambda>k. \<not> P k) (filter (\<lambda>k. ak_retired_at k = None) ks))" for ks
    unfolding update_where_def by (induction ks) auto
  then have "distinct (map ?g (filter (\<lambda>k. ak_retired_at k = None) ?ks))"
    using assms by (simp add: agent_keys_ok_def distinct_map_filter del: filter_filter)
  moreover have "map ak_key_id ?ks = map ak_key_id (agent_keys db)"
    "map ak_jwk_thumbprint ?ks = map ak_jwk_thumbprint (agent_keys db)"
    by (rule map_update_where; simp)+
  moreover have "ak_agent_id ` set ?ks = ak_agent_id ` set (agent_keys db)"
    by (rule key_image_update_where) simp
  ultimately show ?thesis using assms by (simp add: agent_keys_ok_def refers_iff)
qed

lemma retire_agent_keys_db_ok:
  assumes "retire_agent_keys P now db = Inr db'" and "db_ok db"
  shows "db_ok db'"
proof -
  let ?db = "db\<lparr>agent_keys := update_where P (\<lambda>k. k\<lparr>ak_retired_at := Some now\<rparr>) (agent_keys db)\<rparr>"
  have ok: "db_ok ?db"
    using assms(2) by (intro db_ok_tables(2) [OF assms(2)] retired_keys_ok) (simp add: db_ok_def)
  have "try_fold trigger_agent_key (filter P (agent_keys db)) ?db = Inr db'"
    using assms(1) by (simp add: retire_agent_keys_def)
  then show ?thesis by (rule try_fold_invariant) (auto intro: ok trigger_agent_key_db_ok)
qed

lemma insert_invitation_db_ok: "insert_invitation row db = Inr db' \<Longrightarrow> db_ok db \<Longrightarrow> db_ok db'"
  by (auto simp: insert_invitation_def intro: db_ok_parent_tables(4))

lemma update_invitation_db_ok:
  assumes "update_invitation new db = Inr db'" and "db_ok db"
  shows "db_ok db'"
  using assms key_image_update_where [of "\<lambda>i. iv_invitation_id i = iv_invitation_id new" iv_invitation_id
      "\<lambda>_. new" "invitations db"]
  by (auto simp: update_invitation_def intro: db_ok_parent_tables(4))

lemma insert_invitation_attempt_db_ok:
  "insert_invitation_attempt row db = Inr db' \<Longrightarrow> db_ok db \<Longrightarrow> db_ok db'"
  by (auto simp: insert_invitation_attempt_def intro: db_ok_tables)

lemma insert_command_db_ok: "insert_command row db = Inr db' \<Longrightarrow> db_ok db \<Longrightarrow> db_ok db'"
  by (auto simp: insert_command_def intro: db_ok_tables)

lemma insert_publication_db_ok: "insert_publication row db = Inr (db', b) \<Longrightarrow> db_ok db \<Longrightarrow> db_ok db'"
  by (auto simp: insert_publication_def and_then_eq_Inr intro: db_ok_tables split: if_splits)

lemma insert_audit_row_db_ok: "insert_audit_row row db = Inr db' \<Longrightarrow> db_ok db \<Longrightarrow> db_ok db'"
  by (auto simp: insert_audit_row_def intro: db_ok_tables)

lemma insert_preflight_db_ok: "insert_preflight row db = Inr db' \<Longrightarrow> db_ok db \<Longrightarrow> db_ok db'"
  by (auto simp: insert_preflight_def intro: db_ok_parent_tables)

lemma insert_managed_work_db_ok: "insert_managed_work row db = Inr db' \<Longrightarrow> db_ok db \<Longrightarrow> db_ok db'"
  by (auto simp: insert_managed_work_def intro: db_ok_parent_tables)

lemma update_managed_work_db_ok:
  assumes "update_managed_work new db = Inr db'" and "db_ok db"
  shows "db_ok db'"
  using assms key_image_update_where [of "\<lambda>w. mw_managed_work_id w = mw_managed_work_id new"
      mw_managed_work_id "\<lambda>_. new" "managed_works db"]
  by (auto simp: update_managed_work_def intro: db_ok_parent_tables)

lemma insert_managed_payload_db_ok:
  "insert_managed_payload row db = Inr db' \<Longrightarrow> db_ok db \<Longrightarrow> db_ok db'"
  by (auto simp: insert_managed_payload_def intro: db_ok_tables)

lemma insert_state_observation_db_ok:
  "insert_state_observation row db = Inr db' \<Longrightarrow> db_ok db \<Longrightarrow> db_ok db'"
  by (auto simp: insert_state_observation_def intro: db_ok_tables)

lemma update_router_policy_db_ok:
  "update_router_policy new db = Inr db' \<Longrightarrow> db_ok db \<Longrightarrow> db_ok db'"
  by (auto simp: update_router_policy_def intro: db_ok_tables)

lemmas statements_db_ok =
  insert_organization_db_ok insert_site_db_ok insert_agent_db_ok insert_agent_key_db_ok
  retire_agent_keys_db_ok insert_invitation_db_ok update_invitation_db_ok
  insert_invitation_attempt_db_ok insert_command_db_ok insert_publication_db_ok
  insert_audit_row_db_ok insert_preflight_db_ok insert_managed_work_db_ok
  update_managed_work_db_ok insert_managed_payload_db_ok insert_state_observation_db_ok
  update_router_policy_db_ok

text \<open>Deleting rows that no other table refers to.\<close>

lemma delete_devices_db_ok: "db_ok db \<Longrightarrow> db_ok (db\<lparr>devices := delete_where P (devices db)\<rparr>)"
  by (rule db_ok_tables) (auto simp: db_ok_def devices_ok_def refers_iff list_all_iff
      set_delete_where distinct_delete_where)

lemma delete_attempts_db_ok:
  "db_ok db \<Longrightarrow> db_ok (db\<lparr>invitation_attempts := delete_where P (invitation_attempts db)\<rparr>)"
  by (rule db_ok_tables) (auto simp: db_ok_def invitation_attempts_ok_def refers_iff
      set_delete_where distinct_delete_where)

lemma delete_payloads_db_ok:
  "db_ok db \<Longrightarrow> db_ok (db\<lparr>managed_payloads := delete_where P (managed_payloads db)\<rparr>)"
  by (rule db_ok_tables) (auto simp: db_ok_def managed_payloads_ok_def refers_iff list_all_iff
      set_delete_where distinct_delete_where)

end
