(* ===== verification/Progress.thy ===== *)
theory Progress
  imports Onboarding Router_Admission Db_Invariant
begin

text \<open>
  How the whole database may develop: every constraint of the schema keeps holding, the
  router authority never goes back, keys and invitations follow their life cycles, issued
  commands keep their content, and the audit log, the publications and the signed
  observations only grow.  The relation is a preorder, so that an operation makes progress
  when each of its statements does.
\<close>

section \<open>The life of a verification key\<close>

text \<open>A key row keeps its owner, purpose and public key, and a retired key stays retired.\<close>

definition key_evolves :: "agent_key_row \<Rightarrow> agent_key_row \<Rightarrow> bool" where
  "key_evolves k l \<longleftrightarrow> ak_agent_id l = ak_agent_id k \<and> ak_purpose l = ak_purpose k \<and>
    ak_jwk_thumbprint l = ak_jwk_thumbprint k \<and> ak_public_jwk l = ak_public_jwk k \<and>
    ak_registered_at l = ak_registered_at k \<and>
    (ak_retired_at k \<noteq> None \<longrightarrow> ak_retired_at l = ak_retired_at k)"

definition keys_evolve :: "gateway_db \<Rightarrow> gateway_db \<Rightarrow> bool" where
  "keys_evolve db db' \<longleftrightarrow>
    (\<forall>kid k. find_by ak_key_id kid (agent_keys db) = Some k \<longrightarrow>
      (\<exists>l. find_by ak_key_id kid (agent_keys db') = Some l \<and> key_evolves k l))"

lemma key_evolves_refl [simp]: "key_evolves k k"
  by (simp add: key_evolves_def)

lemma key_evolves_trans: "key_evolves k l \<Longrightarrow> key_evolves l m \<Longrightarrow> key_evolves k m"
  by (auto simp: key_evolves_def)

lemma keys_evolve_same: "agent_keys db' = agent_keys db \<Longrightarrow> keys_evolve db db'"
  by (simp add: keys_evolve_def)

lemma keys_evolve_trans: "keys_evolve a b \<Longrightarrow> keys_evolve b c \<Longrightarrow> keys_evolve a c"
  unfolding keys_evolve_def by (blast intro: key_evolves_trans)

lemma trigger_agent_key_agent_keys:
  "trigger_agent_key k db = Inr db' \<Longrightarrow> agent_keys db' = agent_keys db \<and> agents db' = agents db"
  by (auto simp: trigger_agent_key_def dest!: invalidate_organization_Inr split: option.splits)

lemma trigger_agent_keys_agent_keys:
  assumes "try_fold trigger_agent_key ks db = Inr db'"
  shows "agent_keys db' = agent_keys db \<and> agents db' = agents db"
  using assms by (rule try_fold_invariant) (auto dest: trigger_agent_key_agent_keys)

lemma retire_agent_keys_keys:
  assumes "retire_agent_keys P now db = Inr db'"
  shows "agent_keys db' = update_where P (\<lambda>k. k\<lparr>ak_retired_at := Some now\<rparr>) (agent_keys db)"
    and "agents db' = agents db"
  using trigger_agent_keys_agent_keys [OF assms [unfolded retire_agent_keys_def]] by simp_all

lemma insert_agent_key_keys:
  assumes "insert_agent_key row db = Inr db'"
  shows "agent_keys db' = agent_keys db @ [row]" and "agents db' = agents db"
proof -
  have "trigger_agent_key row (db\<lparr>agent_keys := agent_keys db @ [row]\<rparr>) = Inr db'"
    using assms by (simp add: insert_agent_key_def and_then_eq_Inr)
  from trigger_agent_key_agent_keys [OF this]
  show "agent_keys db' = agent_keys db @ [row]" and "agents db' = agents db" by simp_all
qed

lemma retire_agent_keys_evolve:
  assumes "retire_agent_keys P now db = Inr db'" and "\<And>k. P k \<Longrightarrow> ak_retired_at k = None"
  shows "keys_evolve db db'"
proof -
  have "find_by ak_key_id kid (agent_keys db') = map_option
      (\<lambda>k. if P k then k\<lparr>ak_retired_at := Some now\<rparr> else k) (find_by ak_key_id kid (agent_keys db))" for kid
    unfolding retire_agent_keys_keys [OF assms(1)] by (rule find_by_update_where) simp
  then show ?thesis using assms(2) by (auto simp: keys_evolve_def key_evolves_def)
qed

lemma insert_agent_key_evolve:
  assumes "insert_agent_key row db = Inr db'"
  shows "keys_evolve db db'"
  unfolding keys_evolve_def insert_agent_key_keys [OF assms]
  by (auto simp: find_by_append)

section \<open>Commands and logs\<close>

definition command_evolves :: "command_row \<Rightarrow> command_row \<Rightarrow> bool" where
  "command_evolves c d \<longleftrightarrow> cm_agent_id d = cm_agent_id c \<and> cm_message_id d = cm_message_id c \<and>
    cm_sequence d = cm_sequence c \<and> cm_command d = cm_command c \<and>
    cm_request_fingerprint d = cm_request_fingerprint c \<and> cm_issued_at d = cm_issued_at c"

definition commands_evolve :: "gateway_db \<Rightarrow> gateway_db \<Rightarrow> bool" where
  "commands_evolve db db' \<longleftrightarrow>
    (\<forall>cid c. find_by cm_command_id cid (commands db) = Some c \<longrightarrow>
      (\<exists>d. find_by cm_command_id cid (commands db') = Some d \<and> command_evolves c d))"

definition logs_grow :: "gateway_db \<Rightarrow> gateway_db \<Rightarrow> bool" where
  "logs_grow db db' \<longleftrightarrow> (\<exists>xs. audit_events db' = audit_events db @ xs) \<and>
    (\<exists>ys. publications db' = publications db @ ys) \<and>
    (\<exists>zs. state_observations db' = state_observations db @ zs)"

lemma command_evolves_refl [simp]: "command_evolves c c"
  by (simp add: command_evolves_def)

lemma command_evolves_trans: "command_evolves a b \<Longrightarrow> command_evolves b c \<Longrightarrow> command_evolves a c"
  by (simp add: command_evolves_def)

lemma commands_evolve_same: "commands db' = commands db \<Longrightarrow> commands_evolve db db'"
  by (simp add: commands_evolve_def)

lemma commands_evolve_append: "commands db' = commands db @ cs \<Longrightarrow> commands_evolve db db'"
  by (auto simp: commands_evolve_def find_by_append)

lemma commands_evolve_trans: "commands_evolve a b \<Longrightarrow> commands_evolve b c \<Longrightarrow> commands_evolve a c"
  unfolding commands_evolve_def by (blast intro: command_evolves_trans)

lemma commands_evolve_update:
  assumes "commands db' = update_where P f (commands db)"
    and "\<And>c. P c \<Longrightarrow> command_evolves c (f c) \<and> cm_command_id (f c) = cm_command_id c"
  shows "commands_evolve db db'"
proof -
  have "find_by cm_command_id k (commands db') =
      map_option (\<lambda>c. if P c then f c else c) (find_by cm_command_id k (commands db))" for k
    unfolding assms(1) using assms(2) by (intro find_by_update_where) simp
  then show ?thesis using assms(2) by (auto simp: commands_evolve_def)
qed

lemma logs_grow_refl [simp]: "logs_grow db db"
  by (simp add: logs_grow_def)

lemma logs_grow_trans: "logs_grow a b \<Longrightarrow> logs_grow b c \<Longrightarrow> logs_grow a c"
  by (auto simp: logs_grow_def)

section \<open>Progress\<close>

definition state_ok :: "gateway_db \<Rightarrow> bool" where
  "state_ok db \<longleftrightarrow> db_ok db \<and> revisions_ok db"

definition db_progress :: "gateway_db \<Rightarrow> gateway_db \<Rightarrow> bool" where
  "db_progress db db' \<longleftrightarrow> (state_ok db \<longrightarrow> state_ok db') \<and> authority_advances db db' \<and>
    keys_evolve db db' \<and> invitations_evolve db db' \<and> commands_evolve db db' \<and>
    logs_grow db db' \<and> keys_grow db db'"

text \<open>Any preorder on states that single statements respect carries over to loops and transactions.\<close>

locale state_preorder =
  fixes R :: "'s \<Rightarrow> 's \<Rightarrow> bool"
  assumes refl: "R s s"
    and trans: "R s t \<Longrightarrow> R t u \<Longrightarrow> R s u"
begin

lemma fold_steps:
  assumes "try_fold f xs s = Inr t" and "\<And>x u v. x \<in> set xs \<Longrightarrow> f x u = Inr v \<Longrightarrow> R u v"
  shows "R s t"
  using assms(1) by (rule try_fold_invariant) (use refl trans assms(2) in blast)+

lemma transaction_step:
  assumes "transaction body s = (t, r)" and "\<And>t r. body s = Inr (t, r) \<Longrightarrow> R s t"
  shows "R s t"
  using assms refl by (auto simp: transaction_def split: sum.splits prod.splits)

end

interpretation progress: state_preorder db_progress
proof
  show "db_progress s s" for s
    by (simp add: db_progress_def keys_evolve_same commands_evolve_same)
  show "db_progress s t \<Longrightarrow> db_progress t u \<Longrightarrow> db_progress s u" for s t u
    unfolding db_progress_def
    by (blast intro: authority_advances_trans keys_evolve_trans invitations_evolve_trans
        commands_evolve_trans logs_grow_trans keys_grow_trans)
qed

text \<open>The tables without a life cycle of their own.\<close>

lemma progress_tables:
  shows "db_ok (db\<lparr>devices := ds\<rparr>) \<or> \<not> db_ok db \<Longrightarrow> db_progress db (db\<lparr>devices := ds\<rparr>)"
    and "db_ok (db\<lparr>invitation_attempts := ats\<rparr>) \<or> \<not> db_ok db \<Longrightarrow>
      db_progress db (db\<lparr>invitation_attempts := ats\<rparr>)"
    and "db_ok (db\<lparr>managed_payloads := mps\<rparr>) \<or> \<not> db_ok db \<Longrightarrow> db_progress db (db\<lparr>managed_payloads := mps\<rparr>)"
    and "db_ok (db\<lparr>audit_events := audit_events db @ es\<rparr>) \<or> \<not> db_ok db \<Longrightarrow>
      db_progress db (db\<lparr>audit_events := audit_events db @ es\<rparr>)"
    and "db_ok (db\<lparr>publications := publications db @ pbs\<rparr>) \<or> \<not> db_ok db \<Longrightarrow>
      db_progress db (db\<lparr>publications := publications db @ pbs\<rparr>)"
    and "db_ok (db\<lparr>state_observations := state_observations db @ obs\<rparr>) \<or> \<not> db_ok db \<Longrightarrow>
      db_progress db (db\<lparr>state_observations := state_observations db @ obs\<rparr>)"
  by (auto simp: db_progress_def state_ok_def revisions_ok_def authority_advances_same keys_evolve_same
      invitations_evolve_same commands_evolve_same logs_grow_def keys_grow_def)

lemma progress_parents:
  shows "db_ok (db\<lparr>sites := ss\<rparr>) \<or> \<not> db_ok db \<Longrightarrow> st_site_id ` set (sites db) \<subseteq> st_site_id ` set ss \<Longrightarrow>
      db_progress db (db\<lparr>sites := ss\<rparr>)"
    and "db_ok (db\<lparr>organizations := gs\<rparr>) \<or> \<not> db_ok db \<Longrightarrow>
      org_organization_id ` set (organizations db) \<subseteq> org_organization_id ` set gs \<Longrightarrow>
      db_progress db (db\<lparr>organizations := gs\<rparr>)"
    and "db_ok (db\<lparr>preflights := pfs\<rparr>) \<or> \<not> db_ok db \<Longrightarrow>
      pf_preflight_id ` set (preflights db) \<subseteq> pf_preflight_id ` set pfs \<Longrightarrow>
      db_progress db (db\<lparr>preflights := pfs\<rparr>)"
    and "db_ok (db\<lparr>managed_works := ws\<rparr>) \<or> \<not> db_ok db \<Longrightarrow>
      mw_managed_work_id ` set (managed_works db) \<subseteq> mw_managed_work_id ` set ws \<Longrightarrow>
      db_progress db (db\<lparr>managed_works := ws\<rparr>)"
    and "db_ok (db\<lparr>commands := cs\<rparr>) \<or> \<not> db_ok db \<Longrightarrow> commands_evolve db (db\<lparr>commands := cs\<rparr>) \<Longrightarrow>
      db_progress db (db\<lparr>commands := cs\<rparr>)"
    and "db_ok (db\<lparr>invitations := is\<rparr>) \<or> \<not> db_ok db \<Longrightarrow> invitations_evolve db (db\<lparr>invitations := is\<rparr>) \<Longrightarrow>
      iv_invitation_id ` set (invitations db) \<subseteq> iv_invitation_id ` set is \<Longrightarrow>
      db_progress db (db\<lparr>invitations := is\<rparr>)"
  by (auto simp: db_progress_def state_ok_def revisions_ok_def authority_advances_same keys_evolve_same
      invitations_evolve_same commands_evolve_same logs_grow_def keys_grow_def)

section \<open>Statements\<close>

text \<open>What the statements with triggers leave alone.\<close>

lemma policies_only:
  "db' = db\<lparr>router_policies := router_policies db'\<rparr> \<Longrightarrow> \<exists>ps. db' = db\<lparr>router_policies := ps\<rparr>"
  by (rule exI)

lemma insert_agent_frame:
  "insert_agent row db = Inr db' \<Longrightarrow>
    \<exists>ps. db' = db\<lparr>agents := agents db @ [row], router_policies := ps\<rparr>"
  by (auto simp: insert_agent_def and_then_eq_Inr dest!: invalidate_organization_Inr)

lemma update_agent_frame:
  "update_agent old new db = Inr db' \<Longrightarrow>
    \<exists>ps. db' = db\<lparr>agents := update_where (\<lambda>a. ag_agent_id a = ag_agent_id old) (\<lambda>_. new) (agents db),
      router_policies := ps\<rparr>"
  by (auto simp: update_agent_def and_then_eq_Inr dest!: trigger_agent_update_frame [THEN policies_only])

lemma insert_agent_key_frame:
  "insert_agent_key row db = Inr db' \<Longrightarrow>
    \<exists>ps. db' = db\<lparr>agent_keys := agent_keys db @ [row], router_policies := ps\<rparr>"
  by (auto simp: insert_agent_key_def and_then_eq_Inr dest!: trigger_agent_key_frame [THEN policies_only])

lemma retire_agent_keys_frame:
  "retire_agent_keys P now db = Inr db' \<Longrightarrow>
    \<exists>ps. db' = db\<lparr>agent_keys := update_where P (\<lambda>k. k\<lparr>ak_retired_at := Some now\<rparr>) (agent_keys db),
      router_policies := ps\<rparr>"
  by (auto simp: retire_agent_keys_def dest!: trigger_agent_keys_frame [THEN policies_only])

lemmas agent_statement_frames =
  insert_agent_frame update_agent_frame insert_agent_key_frame retire_agent_keys_frame

text \<open>Every statement makes progress.\<close>

lemma progress_agents_policies:
  assumes "state_ok db \<Longrightarrow> state_ok (db\<lparr>agents := as, router_policies := ps\<rparr>)"
    and "authority_advances db (db\<lparr>agents := as, router_policies := ps\<rparr>)"
    and "ag_agent_id ` set (agents db) \<subseteq> ag_agent_id ` set as"
  shows "db_progress db (db\<lparr>agents := as, router_policies := ps\<rparr>)"
  using assms
  by (simp add: db_progress_def keys_evolve_same invitations_evolve_same commands_evolve_same
      logs_grow_def keys_grow_def)

lemma progress_keys_policies:
  assumes "state_ok db \<Longrightarrow> state_ok (db\<lparr>agent_keys := ks, router_policies := ps\<rparr>)"
    and "authority_advances db (db\<lparr>agent_keys := ks, router_policies := ps\<rparr>)"
    and "keys_evolve db (db\<lparr>agent_keys := ks, router_policies := ps\<rparr>)"
  shows "db_progress db (db\<lparr>agent_keys := ks, router_policies := ps\<rparr>)"
  using assms
  by (simp add: db_progress_def invitations_evolve_same commands_evolve_same logs_grow_def keys_grow_def)

lemma insert_agent_progress:
  assumes "insert_agent row db = Inr db'"
  shows "db_progress db db'"
proof -
  obtain ps where db': "db' = db\<lparr>agents := agents db @ [row], router_policies := ps\<rparr>"
    using insert_agent_frame [OF assms] ..
  show ?thesis
    unfolding db'
    by (rule progress_agents_policies)
      (use insert_agent_db_ok [OF assms] insert_agent_advances [OF assms] in \<open>auto simp: db' state_ok_def\<close>)
qed

lemma update_agent_progress:
  assumes "update_agent old new db = Inr db'" and "ag_agent_id new = ag_agent_id old"
  shows "db_progress db db'"
proof -
  let ?as = "update_where (\<lambda>a. ag_agent_id a = ag_agent_id old) (\<lambda>_. new) (agents db)"
  obtain ps where db': "db' = db\<lparr>agents := ?as, router_policies := ps\<rparr>"
    using update_agent_frame [OF assms(1)] ..
  have "ag_agent_id ` set ?as = ag_agent_id ` set (agents db)"
    using assms(2) by (intro key_image_update_where) simp
  then show ?thesis
    unfolding db'
    by (intro progress_agents_policies)
      (use update_agent_db_ok [OF assms(1) _ assms(2)] update_agent_advances [OF assms(1)]
        in \<open>simp_all add: db' state_ok_def\<close>)
qed

lemma insert_agent_key_progress:
  assumes "insert_agent_key row db = Inr db'"
  shows "db_progress db db'"
proof -
  obtain ps where db': "db' = db\<lparr>agent_keys := agent_keys db @ [row], router_policies := ps\<rparr>"
    using insert_agent_key_frame [OF assms] ..
  show ?thesis
    unfolding db'
    by (rule progress_keys_policies)
      (use insert_agent_key_db_ok [OF assms] insert_agent_key_advances [OF assms]
        insert_agent_key_evolve [OF assms] in \<open>simp_all add: db' state_ok_def\<close>)
qed

lemma retire_agent_keys_progress:
  assumes "retire_agent_keys P now db = Inr db'" and "\<And>k. P k \<Longrightarrow> ak_retired_at k = None"
  shows "db_progress db db'"
proof -
  obtain ps where db': "db' = db\<lparr>agent_keys := update_where P (\<lambda>k. k\<lparr>ak_retired_at := Some now\<rparr>)
      (agent_keys db), router_policies := ps\<rparr>"
    using retire_agent_keys_frame [OF assms(1)] ..
  show ?thesis
    unfolding db'
    by (rule progress_keys_policies)
      (use retire_agent_keys_db_ok [OF assms(1)] retire_agent_keys_advances [OF assms(1)]
        retire_agent_keys_evolve [OF assms] in \<open>simp_all add: db' state_ok_def\<close>)
qed

lemma insert_organization_progress:
  assumes "insert_organization row db = Inr db'"
  shows "db_progress db db'"
proof -
  have db': "db' = db\<lparr>organizations := organizations db @ [row], router_policies :=
      router_policies db @ [initial_router_policy (org_organization_id row)]\<rparr>"
    using assms by (simp add: insert_organization_def and_then_eq_Inr)
  have "state_ok db \<Longrightarrow> state_ok db'"
    using insert_organization_db_ok [OF assms]
    by (auto simp: db' state_ok_def revisions_ok_def revision_ok_def initial_router_policy_def)
  moreover have "authority_advances db db'"
    by (auto simp: db' authority_advances_def find_by_append)
  ultimately show ?thesis
    by (simp add: db_progress_def keys_evolve_same invitations_evolve_same commands_evolve_same
        logs_grow_def keys_grow_def db' subset_insertI)
qed

lemma insert_site_progress: "insert_site row db = Inr db' \<Longrightarrow> db_progress db db'"
  using insert_site_db_ok [of row db db'] by (auto simp: insert_site_def intro!: progress_parents)

lemma insert_invitation_progress:
  assumes "insert_invitation row db = Inr db'"
  shows "db_progress db db'"
  using assms insert_invitation_db_ok [OF assms]
  by (auto simp: insert_invitation_def invitations_evolve_def find_by_append intro!: progress_parents)

lemma update_invitation_progress:
  assumes "update_invitation new db = Inr db'"
    and "find_by iv_invitation_id (iv_invitation_id new) (invitations db) = Some i"
    and "invitation_evolves i new"
  shows "db_progress db db'"
proof -
  let ?is = "update_where (\<lambda>i. iv_invitation_id i = iv_invitation_id new) (\<lambda>_. new) (invitations db)"
  have db': "db' = db\<lparr>invitations := ?is\<rparr>" using assms(1) by (simp add: update_invitation_def)
  have "find_by iv_invitation_id k ?is = map_option
      (\<lambda>i. if iv_invitation_id i = iv_invitation_id new then new else i)
      (find_by iv_invitation_id k (invitations db))" for k
    by (rule find_by_update_where) simp
  moreover have "j = i" if "find_by iv_invitation_id k (invitations db) = Some j"
      "iv_invitation_id j = iv_invitation_id new" for j k
    using find_by_Some [OF that(1)] that assms(2) by simp
  ultimately have "invitations_evolve db db'"
    using assms(3) by (fastforce simp: invitations_evolve_def db')
  moreover have "iv_invitation_id ` set ?is = iv_invitation_id ` set (invitations db)"
    by (rule key_image_update_where) simp
  ultimately show ?thesis
    using update_invitation_db_ok [OF assms(1)] unfolding db' by (intro progress_parents) auto
qed

lemma insert_invitation_attempt_progress: "insert_invitation_attempt row db = Inr db' \<Longrightarrow> db_progress db db'"
  using insert_invitation_attempt_db_ok [of row db db']
  by (auto simp: insert_invitation_attempt_def intro!: progress_tables)

lemma insert_command_progress: "insert_command row db = Inr db' \<Longrightarrow> db_progress db db'"
  using insert_command_db_ok [of row db db']
  by (auto simp: insert_command_def intro!: progress_parents commands_evolve_append)

lemma insert_publication_progress: "insert_publication row db = Inr (db', b) \<Longrightarrow> db_progress db db'"
  using insert_publication_db_ok [of row db db' b] progress.refl
  by (auto simp: insert_publication_def and_then_eq_Inr intro!: progress_tables split: if_splits)

lemma insert_audit_event_progress: "insert_audit_event now draft db = Inr db' \<Longrightarrow> db_progress db db'"
  using insert_audit_row_db_ok [of "audit_row now draft db" db db']
  by (auto simp: insert_audit_event_def insert_audit_row_def intro!: progress_tables)

lemma insert_preflight_progress: "insert_preflight row db = Inr db' \<Longrightarrow> db_progress db db'"
  using insert_preflight_db_ok [of row db db']
  by (auto simp: insert_preflight_def intro!: progress_parents)

lemma insert_managed_work_progress: "insert_managed_work row db = Inr db' \<Longrightarrow> db_progress db db'"
  using insert_managed_work_db_ok [of row db db']
  by (auto simp: insert_managed_work_def intro!: progress_parents)

lemma update_managed_work_progress: "update_managed_work new db = Inr db' \<Longrightarrow> db_progress db db'"
  using update_managed_work_db_ok [of new db db'] key_image_update_where [of
      "\<lambda>w. mw_managed_work_id w = mw_managed_work_id new" mw_managed_work_id "\<lambda>_. new" "managed_works db"]
  by (auto simp: update_managed_work_def intro!: progress_parents)

lemma insert_managed_payload_progress: "insert_managed_payload row db = Inr db' \<Longrightarrow> db_progress db db'"
  using insert_managed_payload_db_ok [of row db db']
  by (auto simp: insert_managed_payload_def intro!: progress_tables)

lemma insert_state_observation_progress:
  "insert_state_observation row db = Inr db' \<Longrightarrow> db_progress db db'"
  using insert_state_observation_db_ok [of row db db']
  by (auto simp: insert_state_observation_def intro!: progress_tables)

lemma delete_devices_progress: "db_progress db (db\<lparr>devices := delete_where P (devices db)\<rparr>)"
  using delete_devices_db_ok by (intro progress_tables) auto

lemma delete_attempts_progress:
  "db_progress db (db\<lparr>invitation_attempts := delete_where P (invitation_attempts db)\<rparr>)"
  using delete_attempts_db_ok by (intro progress_tables) auto

lemma delete_payloads_progress:
  "db_progress db (db\<lparr>managed_payloads := delete_where P (managed_payloads db)\<rparr>)"
  using delete_payloads_db_ok by (intro progress_tables) auto

lemma update_invitations_progress:
  assumes "\<And>i. P i \<Longrightarrow> invitation_evolves i (f i) \<and>
      iv_enrollment_fingerprint (f i) = iv_enrollment_fingerprint i"
  shows "db_progress db (db\<lparr>invitations := update_where P f (invitations db)\<rparr>)"
proof (rule progress_parents)
  let ?is = "update_where P f (invitations db)"
  have same: "g (f i) = g i" if "P i" "g \<in> {iv_invitation_id, iv_organization_id, iv_site_id}" for g i
    using assms [OF that(1)] that(2) by (auto simp: invitation_evolves_def)
  show "invitations_evolve db (db\<lparr>invitations := ?is\<rparr>)"
    using assms by (intro invitations_evolve_update [of _ P f]) auto
  have ids: "g ` set ?is = g ` set (invitations db)"
    if "g \<in> {iv_invitation_id, iv_organization_id, iv_site_id}" for g
    using same that by (intro key_image_update_where) blast
  then show "iv_invitation_id ` set (invitations db) \<subseteq> iv_invitation_id ` set ?is" by simp
  have "map iv_invitation_id ?is = map iv_invitation_id (invitations db)"
    using same by (intro map_update_where) simp
  moreover have "iv_secret_digest (f i) = iv_secret_digest i \<and>
      iv_enrollment_fingerprint (f i) = iv_enrollment_fingerprint i" if "P i" for i
    using assms [OF that] by (simp add: invitation_evolves_def)
  ultimately have "invitations_ok db \<Longrightarrow> invitations_ok (db\<lparr>invitations := ?is\<rparr>)"
    using ids by (auto simp: invitations_ok_def refers_iff list_all_iff set_update_where)
  then show "db_ok (db\<lparr>invitations := ?is\<rparr>) \<or> \<not> db_ok db"
    using ids [of iv_invitation_id] db_ok_parent_tables(4) [of db ?is] by (auto simp: db_ok_def)
qed

end
