(* ===== verification/Inventory.thy ===== *)
theory Inventory
  imports Sample_State
begin

text \<open>
  The Device inventory projection (\<^verbatim>\<open>persistence/inventory.rs\<close>).  \<open>decode\<close> stands for the
  \<^verbatim>\<open>serde_json\<close> decoding of the inventory object and \<open>encoded_size\<close> for the length of
  the JSON encoding of a metadata object (None when encoding fails).
\<close>

section \<open>Definitions\<close>

definition MAX_DEVICES :: nat where
  "MAX_DEVICES = 1024"

datatype connection_state = ConnectionOnline | ConnectionOffline

record inventory_item =
  it_device_id :: device_id
  it_kind :: device_kind
  it_device_class :: device_class
  it_display_name :: string
  it_system_name :: string
  it_driver_key :: string
  it_connection_state :: connection_state
  it_transport :: device_transport
  it_identity_digest :: string
  it_capabilities :: "string list"
  it_metadata :: structured_fields

fun kind_name :: "device_kind \<Rightarrow> string" where
  "kind_name Printer = ''printer''"
| "kind_name Scale = ''scale''"
| "kind_name Scanner = ''scanner''"
| "kind_name Display = ''display''"

definition inventory_invalid :: "string \<Rightarrow> gateway_error" where
  "inventory_invalid detail = InvalidInput detail"

definition bad_name :: "string \<Rightarrow> bool" where
  "bad_name value \<longleftrightarrow> value = [] \<or> length value > 1024 \<or> list_ex is_control (utf8_chars value)"

fun bad_capability :: "string list \<Rightarrow> string list \<Rightarrow> bool" where
  "bad_capability seen [] = False"
| "bad_capability seen (value # values) =
    (value \<notin> {''raw'', ''text'', ''documents'', ''cash_drawer''} \<or> value \<in> set seen \<or>
     bad_capability (value # seen) values)"

fun check_items ::
    "(structured_fields \<Rightarrow> nat option) \<Rightarrow> device_id list \<Rightarrow> (string \<times> string) list \<Rightarrow>
     inventory_item list \<Rightarrow> unit gateway_result" where
  "check_items encoded_size device_ids identities [] = Inr ()"
| "check_items encoded_size device_ids identities (item # items) =
    (if it_device_id item \<in> set device_ids \<or>
        (kind_name (it_kind item), it_identity_digest item) \<in> set identities then
       Inl (inventory_invalid ''inventory contains duplicate Device identities'')
     else if list_ex bad_name [it_display_name item, it_system_name item, it_driver_key item] then
       Inl (inventory_invalid ''inventory contains an invalid Device name'')
     else if length (it_identity_digest item) \<noteq> 64 \<or>
             \<not> list_all lowercase_hex (it_identity_digest item) then
       Inl (inventory_invalid ''inventory contains an invalid identity digest'')
     else if bad_capability [] (it_capabilities item) then
       Inl (inventory_invalid ''inventory contains an invalid discovery capability'')
     else
       and_then (ok_or Serialization (encoded_size (it_metadata item))) (\<lambda>size.
         if size > 16384 then
           Inl (inventory_invalid ''inventory Device metadata exceeds its size limit'')
         else check_items encoded_size (it_device_id item # device_ids)
                ((kind_name (it_kind item), it_identity_digest item) # identities) items))"

definition InventoryProjection_parse ::
    "(structured_fields \<Rightarrow> inventory_item list option) \<Rightarrow> (structured_fields \<Rightarrow> nat option) \<Rightarrow>
     structured_fields \<Rightarrow> inventory_item list gateway_result" where
  "InventoryProjection_parse decode encoded_size inventory =
    and_then (ok_or (inventory_invalid ''inventory does not match the Device contract'')
                (decode inventory)) (\<lambda>items.
      if length items > MAX_DEVICES then
        Inl (inventory_invalid ''inventory exceeds the Device count limit'')
      else and_then (check_items encoded_size [] [] items) (\<lambda>_. Inr items))"

fun connection_device_state :: "connection_state \<Rightarrow> device_state" where
  "connection_device_state ConnectionOnline = DeviceOnline"
| "connection_device_state ConnectionOffline = DeviceOffline"

definition item_row :: "string \<Rightarrow> string \<Rightarrow> instant \<Rightarrow> inventory_item \<Rightarrow> device_row" where
  "item_row agent_id site_id generated_at item =
    \<lparr>dv_agent_id = agent_id, dv_device_id = device_str (it_device_id item), dv_site_id = site_id,
     dv_kind = it_kind item, dv_device_class = it_device_class item,
     dv_display_name = it_display_name item,
     dv_state = connection_device_state (it_connection_state item),
     dv_transport = it_transport item, dv_identity_digest = it_identity_digest item,
     dv_capabilities = [], dv_first_seen_at = generated_at, dv_last_seen_at = generated_at\<rparr>"

abbreviation device_key :: "device_row \<Rightarrow> string \<times> string" where
  "device_key d \<equiv> (dv_agent_id d, dv_device_id d)"

text \<open>\<^verbatim>\<open>INSERT ... ON CONFLICT (agent_id, device_id) DO UPDATE\<close> of the listed columns.\<close>

definition refresh_device :: "device_row \<Rightarrow> device_row \<Rightarrow> device_row" where
  "refresh_device new old =
    old\<lparr>dv_site_id := dv_site_id new, dv_device_class := dv_device_class new,
        dv_display_name := dv_display_name new, dv_state := dv_state new,
        dv_transport := dv_transport new, dv_capabilities := dv_capabilities new,
        dv_last_seen_at := dv_last_seen_at new\<rparr>"

definition upsert_device :: "device_row \<Rightarrow> gateway_db \<Rightarrow> gateway_db gateway_result" where
  "upsert_device row db = statement devices_ok (db\<lparr>devices :=
     (if exists_where (\<lambda>d. device_key d = device_key row) (devices db)
      then update_where (\<lambda>d. device_key d = device_key row) (refresh_device row) (devices db)
      else devices db @ [row])\<rparr>)"

definition identity_changed :: "device_row list \<Rightarrow> inventory_item \<Rightarrow> bool" where
  "identity_changed existing item =
    list_ex (\<lambda>stored.
      let same_identity = (dv_identity_digest stored = it_identity_digest item \<and>
                           kind_name (dv_kind stored) = kind_name (it_kind item))
      in (dv_device_id stored = device_str (it_device_id item)) \<noteq> same_identity) existing"

definition apply_item ::
    "device_row list \<Rightarrow> string \<Rightarrow> string \<Rightarrow> instant \<Rightarrow> inventory_item \<Rightarrow> gateway_db \<Rightarrow>
     gateway_db gateway_result" where
  "apply_item existing agent_id site_id generated_at item db =
    (if identity_changed existing item then
       Inl (inventory_invalid ''a Device changed its established identity'')
     else upsert_device (item_row agent_id site_id generated_at item) db)"

definition apply_inventory ::
    "inventory_item list \<Rightarrow> string \<Rightarrow> string \<Rightarrow> instant \<Rightarrow> gateway_db \<Rightarrow> gateway_db gateway_result" where
  "apply_inventory items agent_id site_id generated_at db =
    (let existing = filter (\<lambda>d. dv_agent_id d = agent_id) (devices db) in
     and_then (try_fold (apply_item existing agent_id site_id generated_at) items db) (\<lambda>db.
       Inr (db\<lparr>devices := delete_where
         (\<lambda>d. dv_agent_id d = agent_id \<and>
              (items = [] \<or> dv_device_id d \<notin> set (map (\<lambda>i. device_str (it_device_id i)) items)))
         (devices db)\<rparr>)))"

text \<open>
  The specification of \<^verbatim>\<open>apply\<close> on the map from (Agent, Device) to rows: the Agent's part
  becomes the inventory, a known Device keeps its identity and first observation, and
  the other Agents' part stays.
\<close>

definition device_map :: "gateway_db \<Rightarrow> string \<times> string \<Rightarrow> device_row option" where
  "device_map db k = find_by device_key k (devices db)"

definition item_for :: "inventory_item list \<Rightarrow> string \<Rightarrow> inventory_item option" where
  "item_for items device_id = find_by (\<lambda>i. device_str (it_device_id i)) device_id items"

definition merge_device :: "device_row \<Rightarrow> device_row option \<Rightarrow> device_row" where
  "merge_device new old = (case old of None \<Rightarrow> new | Some stored \<Rightarrow> refresh_device new stored)"

definition project_inventory ::
    "inventory_item list \<Rightarrow> string \<Rightarrow> string \<Rightarrow> instant \<Rightarrow> (string \<times> string \<Rightarrow> device_row option) \<Rightarrow>
     string \<times> string \<Rightarrow> device_row option" where
  "project_inventory items agent_id site_id generated_at m k =
    (if fst k \<noteq> agent_id then m k
     else map_option (\<lambda>item. merge_device (item_row agent_id site_id generated_at item) (m k))
            (item_for items (snd k)))"

section \<open>Lemmas\<close>

lemma kind_name_inj [simp]: "kind_name k = kind_name l \<longleftrightarrow> k = l"
  by (cases k; cases l) simp_all

lemma check_items_distinct:
  assumes "check_items encoded_size ids idents items = Inr ()"
  shows "distinct (map it_device_id items)" and "set (map it_device_id items) \<inter> set ids = {}"
    and "distinct (map (\<lambda>i. (it_kind i, it_identity_digest i)) items)"
    and "\<forall>i \<in> set items. (kind_name (it_kind i), it_identity_digest i) \<notin> set idents"
    and "\<forall>i \<in> set items. length (it_identity_digest i) = 64 \<and> list_all lowercase_hex (it_identity_digest i)"
proof -
  have "distinct (map it_device_id items) \<and> set (map it_device_id items) \<inter> set ids = {} \<and>
    distinct (map (\<lambda>i. (it_kind i, it_identity_digest i)) items) \<and>
    (\<forall>i \<in> set items. (kind_name (it_kind i), it_identity_digest i) \<notin> set idents) \<and>
    (\<forall>i \<in> set items. length (it_identity_digest i) = 64 \<and> list_all lowercase_hex (it_identity_digest i))"
    using assms
  proof (induction items arbitrary: ids idents)
    case (Cons item items)
    from Cons.prems have rest: "check_items encoded_size (it_device_id item # ids)
        ((kind_name (it_kind item), it_identity_digest item) # idents) items = Inr ()"
      and new: "it_device_id item \<notin> set ids"
        "(kind_name (it_kind item), it_identity_digest item) \<notin> set idents"
        "length (it_identity_digest item) = 64" "list_all lowercase_hex (it_identity_digest item)"
      by (auto simp: and_then_eq_Inr split: if_splits)
    from Cons.IH [OF rest] new show ?case by auto
  qed simp
  then show "distinct (map it_device_id items)" "set (map it_device_id items) \<inter> set ids = {}"
    "distinct (map (\<lambda>i. (it_kind i, it_identity_digest i)) items)"
    "\<forall>i \<in> set items. (kind_name (it_kind i), it_identity_digest i) \<notin> set idents"
    "\<forall>i \<in> set items. length (it_identity_digest i) = 64 \<and> list_all lowercase_hex (it_identity_digest i)"
    by auto
qed

text \<open>What \<^verbatim>\<open>InventoryProjection\<close> guarantees of its Devices.\<close>

definition inventory_wf :: "inventory_item list \<Rightarrow> bool" where
  "inventory_wf items \<longleftrightarrow> distinct (map it_device_id items) \<and>
    distinct (map (\<lambda>i. (it_kind i, it_identity_digest i)) items) \<and>
    list_all (\<lambda>i. length (it_identity_digest i) = 64 \<and> list_all lowercase_hex (it_identity_digest i)) items"

lemma InventoryProjection_parse_wf:
  assumes "InventoryProjection_parse decode encoded_size inventory = Inr items"
  shows "inventory_wf items" and "length items \<le> MAX_DEVICES"
proof -
  have ok: "check_items encoded_size [] [] items = Inr ()" and len: "length items \<le> MAX_DEVICES"
    using assms by (auto simp: InventoryProjection_parse_def and_then_eq_Inr split: if_splits)
  from check_items_distinct [OF ok] show "inventory_wf items"
    by (auto simp: inventory_wf_def list_all_iff)
  show "length items \<le> MAX_DEVICES" by (rule len)
qed

lemma upsert_device_lookup:
  assumes "upsert_device row db = Inr db'"
  shows "device_map db' k =
    (if k = device_key row then Some (merge_device row (device_map db k)) else device_map db k)"
proof (cases "find_by device_key (device_key row) (devices db)")
  case None
  then have "devices db' = devices db @ [row]"
    using assms by (auto simp: upsert_device_def find_by_None image_iff)
  then show ?thesis
    using None by (auto simp: device_map_def merge_device_def find_by_append simp del: prod.inject
        split: option.splits)
next
  case (Some old)
  then have "\<exists>d \<in> set (devices db). device_key d = device_key row"
    using find_by_Some [OF Some] by blast
  then have upd: "devices db' =
      update_where (\<lambda>d. device_key d = device_key row) (refresh_device row) (devices db)"
    using assms unfolding upsert_device_def by simp
  have "device_map db' k =
      map_option (\<lambda>d. if device_key d = device_key row then refresh_device row d else d) (device_map db k)"
    unfolding device_map_def upd by (rule find_by_update_where) (simp add: refresh_device_def)
  moreover have "device_key d = k" if "device_map db k = Some d" for d
    using find_by_Some [OF that [unfolded device_map_def]] by simp
  moreover have "device_map db (device_key row) = Some old" using Some by (simp add: device_map_def)
  ultimately show ?thesis
    by (cases "device_map db k") (auto simp: merge_device_def)
qed

lemma upsert_device_ok: "upsert_device row db = Inr db' \<Longrightarrow> devices_ok db'"
  by (auto simp: upsert_device_def)

lemma upsert_device_frame:
  "upsert_device row db = Inr db' \<Longrightarrow> \<exists>ds. db' = db\<lparr>devices := ds\<rparr>"
  by (auto simp: upsert_device_def)

lemma apply_item_Inr:
  "apply_item existing a s g item db = Inr db' \<longleftrightarrow>
    \<not> identity_changed existing item \<and> upsert_device (item_row a s g item) db = Inr db'"
  by (simp add: apply_item_def)

lemma apply_item_cases:
  "identity_changed existing item \<Longrightarrow> apply_item existing a s g item db =
     Inl (InvalidInput ''a Device changed its established identity'')"
  "\<not> identity_changed existing item \<Longrightarrow>
     apply_item existing a s g item db = upsert_device (item_row a s g item) db"
  by (simp_all add: apply_item_def inventory_invalid_def)

lemma apply_items_frame:
  assumes "try_fold (apply_item existing a s g) items db = Inr db'"
  shows "\<exists>ds. db' = db\<lparr>devices := ds\<rparr>"
  using assms
proof (rule try_fold_invariant)
  show "\<exists>ds. db = db\<lparr>devices := ds\<rparr>" by (rule exI [of _ "devices db"]) simp
qed (auto simp: apply_item_Inr dest!: upsert_device_frame)

lemma apply_inventory_frame:
  "apply_inventory items a s g db = Inr db' \<Longrightarrow> \<exists>ds. db' = db\<lparr>devices := ds\<rparr>"
  by (auto simp: apply_inventory_def and_then_eq_Inr Let_def dest!: apply_items_frame)

lemma apply_items_ok:
  "try_fold (apply_item existing a s g) items db = Inr db' \<Longrightarrow> devices_ok db \<Longrightarrow> devices_ok db'"
  by (erule try_fold_invariant) (auto simp: apply_item_Inr intro: upsert_device_ok)

lemma apply_items_lookup:
  assumes "try_fold (apply_item existing a s g) items db = Inr db'"
    and "distinct (map it_device_id items)"
  shows "device_map db' k =
    (case if fst k = a then item_for items (snd k) else None of
       Some item \<Rightarrow> Some (merge_device (item_row a s g item) (device_map db k))
     | None \<Rightarrow> device_map db k)"
  using assms
proof (induction items arbitrary: db)
  case (Cons item items)
  then obtain db1 where step: "upsert_device (item_row a s g item) db = Inr db1"
      and rest: "try_fold (apply_item existing a s g) items db1 = Inr db'"
    by (auto simp: apply_item_Inr and_then_eq_Inr)
  have fresh: "item_for items (device_str (it_device_id item)) = None"
    using Cons.prems(2) by (auto simp: item_for_def find_by_None dest!: device_id.expand)
  have key: "device_key (item_row a s g item) = (a, device_str (it_device_id item))"
    by (simp add: item_row_def)
  show ?case
    unfolding Cons.IH [OF rest distinct_tl [OF Cons.prems(2), simplified]]
      upsert_device_lookup [OF step] key
    using fresh by (cases k) (auto simp: item_for_def split: option.splits)
qed (simp add: item_for_def)

lemma find_by_delete_where:
  assumes "\<And>r. r \<in> set t \<Longrightarrow> P r = Q (key r)"
  shows "find_by key k (delete_where P t) = (if Q k then None else find_by key k t)"
  using assms by (induction t) (auto simp: delete_where_def)

lemma devices_ok_delete:
  "devices_ok db \<Longrightarrow> devices_ok (db\<lparr>devices := delete_where P (devices db)\<rparr>)"
  by (auto simp: devices_ok_def distinct_delete_where list_all_iff set_delete_where refers_def)

lemma apply_inventory_ok:
  assumes "apply_inventory items a s g db = Inr db'" and "devices_ok db"
  shows "devices_ok db'"
proof -
  obtain db1 where db1: "try_fold (apply_item (filter (\<lambda>d. dv_agent_id d = a) (devices db)) a s g) items db
      = Inr db1" and db': "\<exists>P. db' = db1\<lparr>devices := delete_where P (devices db1)\<rparr>"
    using assms(1) by (auto simp: apply_inventory_def and_then_eq_Inr Let_def)
  have "devices_ok db1" using apply_items_ok [OF db1 assms(2)] .
  then show ?thesis
    using db' devices_ok_delete by auto
qed

text \<open>Progress: only a changed identity stops \<^verbatim>\<open>apply\<close>.\<close>

lemma refresh_device_simps [simp]:
  "dv_agent_id (refresh_device new d) = dv_agent_id d"
  "dv_device_id (refresh_device new d) = dv_device_id d"
  "dv_kind (refresh_device new d) = dv_kind d"
  "dv_identity_digest (refresh_device new d) = dv_identity_digest d"
  "dv_first_seen_at (refresh_device new d) = dv_first_seen_at d"
  "dv_site_id (refresh_device new d) = dv_site_id new"
  "dv_capabilities (refresh_device new d) = dv_capabilities new"
  by (simp_all add: refresh_device_def)

definition device_ident :: "device_row \<Rightarrow> string \<times> device_kind \<times> string" where
  "device_ident d = (dv_device_id d, dv_kind d, dv_identity_digest d)"

definition item_ident :: "inventory_item \<Rightarrow> string \<times> device_kind \<times> string" where
  "item_ident i = (device_str (it_device_id i), it_kind i, it_identity_digest i)"

definition known_identity :: "device_row list \<Rightarrow> inventory_item list \<Rightarrow> string \<Rightarrow> gateway_db \<Rightarrow> bool" where
  "known_identity existing seen a db \<longleftrightarrow> (\<forall>d \<in> set (devices db). dv_agent_id d = a \<longrightarrow>
    device_ident d \<in> device_ident ` set existing \<union> item_ident ` set seen)"

lemma known_identity_refresh:
  assumes "known_identity existing seen a db"
  shows "known_identity existing (item # seen) a
    (db\<lparr>devices := update_where P (refresh_device new) (devices db)\<rparr>)"
proof -
  have "device_ident (refresh_device new d) = device_ident d" for d by (simp add: device_ident_def)
  then show ?thesis using assms by (auto simp: known_identity_def set_update_where)
qed

lemma identity_changed_iff:
  "identity_changed existing item \<longleftrightarrow> (\<exists>e \<in> set existing.
     (dv_device_id e = device_str (it_device_id item)) \<noteq>
     (dv_identity_digest e = it_identity_digest item \<and> dv_kind e = it_kind item))"
  by (simp add: identity_changed_def list_ex_iff Let_def)

lemma upsert_device_progress:
  assumes "devices_ok db" and "known_identity existing seen a db"
    and "\<not> identity_changed existing item"
    and "it_device_id item \<notin> it_device_id ` set seen"
    and "(it_kind item, it_identity_digest item) \<notin> (\<lambda>i. (it_kind i, it_identity_digest i)) ` set seen"
    and "length (it_identity_digest item) = 64" and "list_all lowercase_hex (it_identity_digest item)"
    and "a \<in> ag_agent_id ` set (agents db)" and "s \<in> st_site_id ` set (sites db)"
  shows "\<exists>db'. upsert_device (item_row a s g item) db = Inr db' \<and> known_identity existing (item # seen) a db'"
proof (cases "\<exists>d \<in> set (devices db). device_key d = device_key (item_row a s g item)")
  case True
  let ?f = "\<lambda>d. if device_key d = device_key (item_row a s g item)
      then refresh_device (item_row a s g item) d else d"
  let ?ds = "update_where (\<lambda>d. device_key d = device_key (item_row a s g item))
      (refresh_device (item_row a s g item)) (devices db)"
  have same: "map device_key ?ds = map device_key (devices db)"
    "map (\<lambda>d. (dv_agent_id d, dv_kind d, dv_identity_digest d)) ?ds =
     map (\<lambda>d. (dv_agent_id d, dv_kind d, dv_identity_digest d)) (devices db)"
    by (rule map_update_where, simp)+
  have "refers dv_agent_id ag_agent_id (agents db) ?ds" "refers dv_site_id st_site_id (sites db) ?ds"
    using assms(1,9) by (auto simp: devices_ok_def refers_iff set_update_where item_row_def)
  then have "devices_ok (db\<lparr>devices := ?ds\<rparr>)"
    using assms(1) same by (auto simp: devices_ok_def list_all_iff set_update_where)
  moreover have "known_identity existing (item # seen) a (db\<lparr>devices := ?ds\<rparr>)"
    using assms(2) by (rule known_identity_refresh)
  ultimately show ?thesis using True by (auto simp: upsert_device_def statement_def)
next
  case False
  let ?ds = "devices db @ [item_row a s g item]"
  have "(a, it_kind item, it_identity_digest item) \<notin>
      (\<lambda>d. (dv_agent_id d, dv_kind d, dv_identity_digest d)) ` set (devices db)"
  proof
    assume "(a, it_kind item, it_identity_digest item) \<in>
      (\<lambda>d. (dv_agent_id d, dv_kind d, dv_identity_digest d)) ` set (devices db)"
    then obtain d where d: "d \<in> set (devices db)" "dv_agent_id d = a" "dv_kind d = it_kind item"
        "dv_identity_digest d = it_identity_digest item" by auto
    from assms(2) d(1,2) consider (old) e where "e \<in> set existing" "device_ident d = device_ident e"
      | (new) i where "i \<in> set seen" "device_ident d = item_ident i"
      unfolding known_identity_def by blast
    then show False
    proof cases
      case old
      then have "dv_device_id d = device_str (it_device_id item)"
        using assms(3) d by (auto simp: identity_changed_iff device_ident_def)
      then show False using False d by (auto simp: item_row_def)
    next
      case new
      then show False using assms(5) d by (force simp: device_ident_def item_ident_def)
    qed
  qed
  then have "devices_ok (db\<lparr>devices := ?ds\<rparr>)"
    using assms(1,6-9) False
    by (auto simp: devices_ok_def refers_iff item_row_def image_iff)
  moreover have "known_identity existing (item # seen) a (db\<lparr>devices := ?ds\<rparr>)"
    using assms(2) by (auto simp: known_identity_def item_row_def device_ident_def item_ident_def)
  ultimately show ?thesis using False by (auto simp: upsert_device_def statement_def)
qed

lemma apply_items_progress:
  assumes "devices_ok db" and "known_identity existing seen a db"
    and "list_all (\<lambda>i. \<not> identity_changed existing i) items"
    and "inventory_wf (rev seen @ items)"
    and "a \<in> ag_agent_id ` set (agents db)" and "s \<in> st_site_id ` set (sites db)"
  shows "\<exists>db'. try_fold (apply_item existing a s g) items db = Inr db'"
  using assms
proof (induction items arbitrary: db seen)
  case (Cons item items)
  then obtain db1 where step: "upsert_device (item_row a s g item) db = Inr db1"
      and known: "known_identity existing (item # seen) a db1"
    using upsert_device_progress [of db existing seen a item s g] by (auto simp: inventory_wf_def)
  obtain ds where ds: "db1 = db\<lparr>devices := ds\<rparr>" using upsert_device_frame [OF step] by blast
  have "\<exists>db'. try_fold (apply_item existing a s g) items db1 = Inr db'"
    using Cons.prems ds upsert_device_ok [OF step] known by (intro Cons.IH [of db1 "item # seen"]) simp_all
  then show ?case using step Cons.prems(3) by (auto simp: apply_item_cases)
qed simp

lemma apply_items_error:
  assumes "devices_ok db" and "known_identity existing seen a db" and "inventory_wf (rev seen @ items)"
    and "a \<in> ag_agent_id ` set (agents db)" and "s \<in> st_site_id ` set (sites db)"
    and "try_fold (apply_item existing a s g) items db = Inl e"
  shows "e = InvalidInput ''a Device changed its established identity''"
  using assms
proof (induction items arbitrary: db seen)
  case (Cons item items)
  show ?case
  proof (cases "identity_changed existing item")
    case True
    then show ?thesis using Cons.prems(6) by (simp add: apply_item_cases)
  next
    case False
    with Cons.prems obtain db1 where step: "upsert_device (item_row a s g item) db = Inr db1"
        and known: "known_identity existing (item # seen) a db1"
      using upsert_device_progress [of db existing seen a item s g] by (auto simp: inventory_wf_def)
    obtain ds where ds: "db1 = db\<lparr>devices := ds\<rparr>" using upsert_device_frame [OF step] by blast
    have "try_fold (apply_item existing a s g) items db1 = Inl e"
      using Cons.prems(6) step False by (simp add: apply_item_cases)
    then show ?thesis
      using Cons.prems ds upsert_device_ok [OF step] known by (intro Cons.IH [of db1 "item # seen"]) simp_all
  qed
qed simp

lemma apply_items_unchanged:
  "try_fold (apply_item existing a s g) items db = Inr db' \<Longrightarrow>
    \<not> list_ex (identity_changed existing) items"
  by (induction items arbitrary: db) (auto simp: and_then_eq_Inr apply_item_Inr)

lemma known_identity_start:
  "known_identity (filter (\<lambda>d. dv_agent_id d = a) (devices db)) [] a db"
  by (auto simp: known_identity_def)

definition sample_item :: inventory_item where
  "sample_item = \<lparr>it_device_id = DeviceId ''dev_a'', it_kind = Printer, it_device_class = Physical,
     it_display_name = ''Front'', it_system_name = ''front'', it_driver_key = ''cups'',
     it_connection_state = ConnectionOnline, it_transport = Usb,
     it_identity_digest = replicate 64 CHR ''a'', it_capabilities = [''raw''], it_metadata = []\<rparr>"

lemma sample_parse:
  "InventoryProjection_parse (\<lambda>_. Some [sample_item]) (\<lambda>_. Some 2) [] = Inr [sample_item]"
  by code_simp

lemma sample_devices_ok: "devices_ok sample_db"
  by code_simp

lemma apply_inventory_projects:
  assumes "devices_ok db" and "InventoryProjection_parse decode encoded_size inventory = Inr items"
    and "apply_inventory items a s g db = Inr db'"
  shows "device_map db' = project_inventory items a s g (device_map db) \<and> devices_ok db'"
proof
  let ?existing = "filter (\<lambda>d. dv_agent_id d = a) (devices db)"
  let ?gone = "\<lambda>k. fst k = a \<and> (items = [] \<or> snd k \<notin> set (map (\<lambda>i. device_str (it_device_id i)) items))"
  obtain db1 where db1: "try_fold (apply_item ?existing a s g) items db = Inr db1"
    and db': "devices db' = delete_where (\<lambda>d. ?gone (device_key d)) (devices db1)"
    using assms(3) by (auto simp: apply_inventory_def and_then_eq_Inr Let_def)
  have "distinct (map it_device_id items)"
    using InventoryProjection_parse_wf(1) [OF assms(2)] by (simp add: inventory_wf_def)
  note lookup = apply_items_lookup [OF db1 this]
  show "device_map db' = project_inventory items a s g (device_map db)"
  proof
    fix k
    have gone: "?gone k \<longleftrightarrow> fst k = a \<and> item_for items (snd k) = None"
      by (auto simp: item_for_def find_by_None)
    have "device_map db' k = (if ?gone k then None else device_map db1 k)"
      unfolding device_map_def db' by (rule find_by_delete_where) simp
    then show "device_map db' k = project_inventory items a s g (device_map db) k"
      unfolding gone lookup project_inventory_def by (cases "item_for items (snd k)") auto
  qed
  show "devices_ok db'" using assms(3,1) by (rule apply_inventory_ok)
qed

section \<open>Properties\<close>



text \<open>
  For an enrolled Agent and a known Site, a parsed inventory is either applied or
  rejected because a Device changed its established identity; no constraint of the
  database can fail.
\<close>

lemma apply_inventory_total:
  assumes "devices_ok db" and "InventoryProjection_parse decode encoded_size inventory = Inr items"
    and "a \<in> ag_agent_id ` set (agents db)" and "s \<in> st_site_id ` set (sites db)"
  shows "if list_ex (identity_changed (filter (\<lambda>d. dv_agent_id d = a) (devices db))) items
    then apply_inventory items a s g db = Inl (InvalidInput ''a Device changed its established identity'')
    else is_ok (apply_inventory items a s g db)"
proof -
  let ?existing = "filter (\<lambda>d. dv_agent_id d = a) (devices db)"
  have wf: "inventory_wf (rev [] @ items)" using InventoryProjection_parse_wf(1) [OF assms(2)] by simp
  show ?thesis
  proof (cases "list_ex (identity_changed ?existing) items")
    case True
    then obtain e where "try_fold (apply_item ?existing a s g) items db = Inl e"
      using apply_items_unchanged by (metis sumE)
    with apply_items_error [OF assms(1) known_identity_start wf assms(3,4) this] True
    show ?thesis by (simp add: apply_inventory_def)
  next
    case False
    then have "list_all (\<lambda>i. \<not> identity_changed ?existing i) items"
      by (simp add: list_all_iff list_ex_iff)
    then obtain db' where "try_fold (apply_item ?existing a s g) items db = Inr db'"
      using apply_items_progress [OF assms(1) known_identity_start _ wf assms(3,4)] by blast
    then show ?thesis using False by (simp add: apply_inventory_def)
  qed
qed

end
