(* ===== verification/Enrollment.thy ===== *)
theory Enrollment
  imports Progress Inventory
begin

text \<open>
  The repository side of Agent enrolment (\<^verbatim>\<open>inari-gateway/src/persistence/enrollment.rs\<close>):
  the attempt throttle, the one-time use of an invitation, its idempotent replay, the Agent
  row, its device inventory and the two verification keys.

  SHA-256, the JWK thumbprint, canonical JSON and the serde decoding of an inventory are
  libraries: they are the fields of \<open>enrollment_externals\<close>.  The closure \<^verbatim>\<open>prepare\<close> takes no
  argument, so it is its result.  \<open>t1\<close>, \<open>t2\<close> and \<open>t3\<close> are the three readings of the clock:
  after the invitation lock, before a replay is answered, and in the audit event.
\<close>

section \<open>Definitions\<close>

record agent_enrollment_record =
  en_agent_id :: agent_id
  en_organization_id :: organization_id
  en_site_id :: site_id
  en_key_id :: string
  en_jwk_thumbprint :: string
  en_public_jwk :: jwk
  en_dispatch_key :: dispatch_encryption_key
  en_state_signing_jwk :: jwk
  en_namespace :: string
  en_protocol_version :: protocol_version
  en_controller_actions :: "string list"
  en_csr_fingerprint :: string

record 't prepared_enrollment =
  pe_value :: 't
  pe_enrolled_at :: instant

record invitation_attempt_limit =
  lim_window :: duration
  lim_max_failures :: nat

record enrollment_facts =
  ef_agent_id :: string
  ef_key_id :: string
  ef_csr_fingerprint :: string
  ef_transport_key_thumbprint :: string
  ef_state_key_thumbprint :: string
  ef_dispatch_key :: dispatch_encryption_key
  ef_organization_id :: organization_id
  ef_site_id :: site_id
  ef_protocol_version :: protocol_version
  ef_namespace :: string
  ef_controller_actions :: "string list"

record enrollment_externals =
  ex_sha256 :: "bytes \<Rightarrow> bytes"
  ex_thumbprint :: "jwk \<Rightarrow> string"
  ex_canonical_facts :: "enrollment_facts \<Rightarrow> bytes gateway_result"
  ex_decode_inventory :: "structured_fields \<Rightarrow> inventory_item list option"
  ex_encoded_size :: "structured_fields \<Rightarrow> nat option"

definition rejected_secret :: gateway_error where
  "rejected_secret = Forbidden ''enrollment invitation was not accepted''"

definition unavailable_invitation :: gateway_error where
  "unavailable_invitation = Forbidden ''enrollment invitation is unavailable''"

text \<open>Forgets the failures before the window and counts the remaining ones.\<close>

definition recent_failures ::
    "string \<Rightarrow> instant \<Rightarrow> duration \<Rightarrow> gateway_db \<Rightarrow> (gateway_db \<times> nat) gateway_result" where
  "recent_failures invitation_id now window db =
    and_then (ok_or (InvalidInput ''failed-attempt window is out of range'') (duration_from_std window))
      (\<lambda>window.
        let kept = delete_where (\<lambda>a. at_invitation_id a = invitation_id \<and>
                     at_attempted_at a < now - window) (invitation_attempts db)
        in Inr (db\<lparr>invitation_attempts := kept\<rparr>,
             length (filter (\<lambda>a. at_invitation_id a = invitation_id) kept)))"

definition enrollment_facts_of :: "enrollment_externals \<Rightarrow> agent_enrollment_record \<Rightarrow> enrollment_facts" where
  "enrollment_facts_of ext enrollment =
    \<lparr>ef_agent_id = agent_str (en_agent_id enrollment),
     ef_key_id = en_key_id enrollment,
     ef_csr_fingerprint = en_csr_fingerprint enrollment,
     ef_transport_key_thumbprint = en_jwk_thumbprint enrollment,
     ef_state_key_thumbprint = ex_thumbprint ext (en_state_signing_jwk enrollment),
     ef_dispatch_key = en_dispatch_key enrollment,
     ef_organization_id = en_organization_id enrollment,
     ef_site_id = en_site_id enrollment,
     ef_protocol_version = en_protocol_version enrollment,
     ef_namespace = en_namespace enrollment,
     ef_controller_actions = en_controller_actions enrollment\<rparr>"

definition enrollment_fingerprint ::
    "enrollment_externals \<Rightarrow> agent_enrollment_record \<Rightarrow> bytes gateway_result" where
  "enrollment_fingerprint ext enrollment =
    and_then (ex_canonical_facts ext (enrollment_facts_of ext enrollment))
      (\<lambda>canonical. Inr (ex_sha256 ext canonical))"

definition replayed_enrollment ::
    "invitation_row \<Rightarrow> agent_enrollment_record \<Rightarrow> bytes \<Rightarrow> gateway_db \<Rightarrow> instant gateway_result" where
  "replayed_enrollment i enrollment fingerprint db =
    (if iv_bound_agent_id i \<noteq> Some (agent_str (en_agent_id enrollment)) then
       Inl (Forbidden ''enrollment invitation is bound to another Agent'')
     else case iv_enrollment_fingerprint i of
       None \<Rightarrow> Inl (Conflict ''this enrollment cannot be retried; create a new invitation'')
     | Some stored \<Rightarrow>
       if iv_bound_key_id i \<noteq> Some (en_key_id enrollment) \<or> stored \<noteq> fingerprint then
         Inl (Conflict ''enrollment retry does not match the original request'')
       else
         and_then (ok_or (CorruptState ''enrolled invitation has no time'') (iv_enrolled_at i))
           (\<lambda>enrolled_at.
             case find_by ag_agent_id (agent_str (en_agent_id enrollment)) (agents db) of
               Some agent \<Rightarrow>
                 if ag_key_id agent = en_key_id enrollment \<and> ag_last_enrolled_at agent = enrolled_at
                 then Inr enrolled_at
                 else Inl (Conflict ''a later enrollment replaced this invitation'')
             | None \<Rightarrow> Inl (Conflict ''a later enrollment replaced this invitation'')))"

definition enrolled_agent :: "agent_enrollment_record \<Rightarrow> instant \<Rightarrow> agent_row" where
  "enrolled_agent enrollment enrolled_at =
    \<lparr>ag_agent_id = agent_str (en_agent_id enrollment),
     ag_organization_id = organization_str (en_organization_id enrollment),
     ag_site_id = site_str (en_site_id enrollment),
     ag_key_id = en_key_id enrollment,
     ag_jwk_thumbprint = en_jwk_thumbprint enrollment,
     ag_public_jwk = en_public_jwk enrollment,
     ag_dispatch_key = Some (en_dispatch_key enrollment),
     ag_namespace = en_namespace enrollment,
     ag_protocol_version = protocol_version_str (en_protocol_version enrollment),
     ag_controller_actions = en_controller_actions enrollment,
     ag_enrolled_at = enrolled_at,
     ag_last_enrolled_at = enrolled_at\<rparr>"

text \<open>\<^verbatim>\<open>INSERT ... ON CONFLICT (agent_id) DO UPDATE\<close> of every column but the first enrolment time.\<close>

definition upsert_agent :: "agent_row \<Rightarrow> gateway_db \<Rightarrow> gateway_db gateway_result" where
  "upsert_agent row db =
    (case find_by ag_agent_id (ag_agent_id row) (agents db) of
       None \<Rightarrow> insert_agent row db
     | Some old \<Rightarrow> update_agent old (row\<lparr>ag_enrolled_at := ag_enrolled_at old\<rparr>) db)"

text \<open>
  \<^verbatim>\<open>INSERT ... ON CONFLICT DO NOTHING\<close>: a conflict with any unique index of the key table
  leaves the table as it is.
\<close>

definition insert_key_or_nothing :: "agent_key_row \<Rightarrow> gateway_db \<Rightarrow> gateway_db gateway_result" where
  "insert_key_or_nothing row db =
    (if exists_where (\<lambda>k. ak_key_id k = ak_key_id row \<or> ak_jwk_thumbprint k = ak_jwk_thumbprint row \<or>
          (ak_agent_id k = ak_agent_id row \<and> ak_purpose k = ak_purpose row \<and> ak_retired_at k = None))
          (agent_keys db)
     then Inr db else insert_agent_key row db)"

definition rotated_key :: "string \<Rightarrow> agent_key_purpose \<Rightarrow> string \<Rightarrow> agent_key_row \<Rightarrow> bool" where
  "rotated_key agent_id purpose key_id k \<longleftrightarrow> ak_agent_id k = agent_id \<and> ak_purpose k = purpose \<and>
    ak_key_id k \<noteq> key_id \<and> ak_retired_at k = None"

definition registered_key :: "string \<Rightarrow> instant \<Rightarrow> agent_key_purpose \<Rightarrow> jwk \<Rightarrow> string \<Rightarrow> string \<Rightarrow> agent_key_row" where
  "registered_key agent_id registered_at purpose public_jwk key_id thumbprint =
    \<lparr>ak_key_id = key_id, ak_agent_id = agent_id, ak_purpose = purpose,
     ak_jwk_thumbprint = thumbprint, ak_public_jwk = public_jwk,
     ak_registered_at = registered_at, ak_retired_at = None\<rparr>"

definition register_verification_key ::
    "(jwk \<Rightarrow> string) \<Rightarrow> string \<Rightarrow> instant \<Rightarrow> agent_key_purpose \<times> jwk \<Rightarrow> gateway_db \<Rightarrow>
     gateway_db gateway_result" where
  "register_verification_key thumbprint_of agent_id registered_at p db =
    (case p of (purpose, public_jwk) \<Rightarrow>
      and_then (ok_or (InvalidInput ''verification keys require a kid'') (jwk_key_id public_jwk))
        (\<lambda>key_id.
        let thumbprint = thumbprint_of public_jwk in
        if (case find_by ak_key_id key_id (agent_keys db) of None \<Rightarrow> False
            | Some existing \<Rightarrow> ak_agent_id existing \<noteq> agent_id \<or> ak_purpose existing \<noteq> purpose \<or>
                ak_jwk_thumbprint existing \<noteq> thumbprint \<or> ak_retired_at existing \<noteq> None)
        then Inl (Conflict ''verification key identity is immutable and retirement is permanent'')
        else
          and_then (retire_agent_keys (rotated_key agent_id purpose key_id) registered_at db) (\<lambda>db.
          and_then (insert_key_or_nothing
            (registered_key agent_id registered_at purpose public_jwk key_id thumbprint) db) (\<lambda>db.
          and_then (ok_or (Conflict ''verification key already has another identity'')
            (find_by ak_key_id key_id (agent_keys db))) (\<lambda>registered.
          if ak_agent_id registered \<noteq> agent_id \<or> ak_purpose registered \<noteq> purpose \<or>
             ak_jwk_thumbprint registered \<noteq> thumbprint
          then Inl (Conflict ''verification key owner and purpose are immutable'')
          else Inr db)))))"

definition enrolled_invitation ::
    "invitation_row \<Rightarrow> agent_enrollment_record \<Rightarrow> gateway_snapshot \<Rightarrow> bytes \<Rightarrow> instant \<Rightarrow>
     invitation_row" where
  "enrolled_invitation i enrollment snapshot fingerprint enrolled_at =
    i\<lparr>iv_state := InvEnrolled, iv_enrolled_at := Some enrolled_at,
      iv_bound_agent_id := Some (agent_str (en_agent_id enrollment)),
      iv_bound_key_id := Some (en_key_id enrollment),
      iv_enrollment_fingerprint := Some fingerprint,
      iv_latest_snapshot := Some snapshot\<rparr>"

text \<open>The Agent row and its devices: the first half of \<^verbatim>\<open>persist_enrollment\<close>.\<close>

definition persist_agent ::
    "inventory_item list \<Rightarrow> agent_enrollment_record \<Rightarrow> gateway_snapshot \<Rightarrow> instant \<Rightarrow> gateway_db \<Rightarrow>
     gateway_db gateway_result" where
  "persist_agent inventory enrollment snapshot enrolled_at db =
    (let agent_id = agent_str (en_agent_id enrollment) in
     and_then (upsert_agent (enrolled_agent enrollment enrolled_at) db) (\<lambda>db.
     apply_inventory inventory agent_id (site_str (en_site_id enrollment))
       (snap_generated_at snapshot)
       (db\<lparr>devices := delete_where (\<lambda>d. dv_agent_id d = agent_id) (devices db)\<rparr>)))"

definition persist_enrollment ::
    "enrollment_externals \<Rightarrow> instant \<Rightarrow> invitation_row \<Rightarrow> agent_enrollment_record \<Rightarrow>
     gateway_snapshot \<Rightarrow> bytes \<Rightarrow> instant \<Rightarrow> gateway_db \<Rightarrow> gateway_db gateway_result" where
  "persist_enrollment ext t3 i enrollment snapshot fingerprint enrolled_at db =
    and_then (InventoryProjection_parse (ex_decode_inventory ext) (ex_encoded_size ext)
                (rt_inventory (snap_runtime snapshot))) (\<lambda>inventory.
    and_then (persist_agent inventory enrollment snapshot enrolled_at db) (\<lambda>db.
    and_then (try_fold (register_verification_key (ex_thumbprint ext)
                 (agent_str (en_agent_id enrollment)) enrolled_at)
               [(TransportIdentity, en_public_jwk enrollment),
                (AgentState, en_state_signing_jwk enrollment)] db) (\<lambda>db.
    and_then (update_invitation (enrolled_invitation i enrollment snapshot fingerprint enrolled_at)
               (db\<lparr>invitation_attempts := delete_where
                  (\<lambda>a. at_invitation_id a = iv_invitation_id i) (invitation_attempts db)\<rparr>)) (\<lambda>db.
    insert_audit_event t3
      \<lparr>dr_organization_id = en_organization_id enrollment,
       dr_actor_id = ActorId_from_agent (en_agent_id enrollment),
       dr_action = ActionAgentEnrolled, dr_resource = ResourceAgent (en_agent_id enrollment),
       dr_outcome = OutcomeSucceeded, dr_request_id = None\<rparr> db))))"

text \<open>The branches of \<^verbatim>\<open>enroll_agent\<close> on the state of a matching invitation.\<close>

definition accept_invitation ::
    "enrollment_externals \<Rightarrow> instant \<Rightarrow> instant \<Rightarrow> instant \<Rightarrow> invitation_row \<Rightarrow>
     agent_enrollment_record \<Rightarrow> gateway_snapshot \<Rightarrow> bytes \<Rightarrow> 't gateway_result \<Rightarrow> gateway_db \<Rightarrow>
     (gateway_db \<times> 't prepared_enrollment gateway_result) gateway_result" where
  "accept_invitation ext t1 t2 t3 i enrollment snapshot fingerprint prepare db =
    (case iv_state i of
       InvCreated \<Rightarrow>
         and_then prepare (\<lambda>v.
         and_then (persist_enrollment ext t3 i enrollment snapshot fingerprint t1 db) (\<lambda>db.
         Inr (db, Inr \<lparr>pe_value = v, pe_enrolled_at = t1\<rparr>)))
     | InvEnrolled \<Rightarrow>
         and_then (replayed_enrollment i enrollment fingerprint db) (\<lambda>enrolled_at.
         if t2 \<ge> iv_expires_at i then Inl unavailable_invitation
         else and_then prepare (\<lambda>v. Inr (db, Inr \<lparr>pe_value = v, pe_enrolled_at = enrolled_at\<rparr>)))
     | _ \<Rightarrow> Inl unavailable_invitation)"

text \<open>The checks of \<^verbatim>\<open>enroll_agent\<close> on the locked invitation, once its failures are counted.\<close>

definition enroll_checked ::
    "enrollment_externals \<Rightarrow> instant \<Rightarrow> instant \<Rightarrow> instant \<Rightarrow> invitation_code \<Rightarrow>
     agent_enrollment_record \<Rightarrow> gateway_snapshot \<Rightarrow> invitation_attempt_limit \<Rightarrow>
     't gateway_result \<Rightarrow> invitation_row \<Rightarrow> nat \<Rightarrow> gateway_db \<Rightarrow>
     (gateway_db \<times> 't prepared_enrollment gateway_result) gateway_result" where
  "enroll_checked ext t1 t2 t3 code enrollment snapshot limit prepare i failures db =
    (if failures \<ge> max (lim_max_failures limit) 1 then
       Inl (Forbidden ''too many failed invitation attempts'')
     else if iv_secret_digest i \<noteq> secret_digest (ex_sha256 ext) code then
       and_then (insert_invitation_attempt
         \<lparr>at_invitation_id = iv_invitation_id i, at_attempted_at = t1\<rparr> db) (\<lambda>db.
       Inr (db, Inl rejected_secret))
     else if t1 \<ge> iv_expires_at i then Inl unavailable_invitation
     else if iv_organization_id i \<noteq> organization_str (en_organization_id enrollment) \<or>
             iv_site_id i \<noteq> site_str (en_site_id enrollment) then
       Inl (Forbidden ''enrollment invitation belongs to another Organization or Site'')
     else and_then (enrollment_fingerprint ext enrollment) (\<lambda>fingerprint.
       accept_invitation ext t1 t2 t3 i enrollment snapshot fingerprint prepare db))"

definition enroll_body ::
    "enrollment_externals \<Rightarrow> instant \<Rightarrow> instant \<Rightarrow> instant \<Rightarrow> invitation_code \<Rightarrow>
     agent_enrollment_record \<Rightarrow> gateway_snapshot \<Rightarrow> invitation_attempt_limit \<Rightarrow>
     't gateway_result \<Rightarrow> gateway_db \<Rightarrow>
     (gateway_db \<times> 't prepared_enrollment gateway_result) gateway_result" where
  "enroll_body ext t1 t2 t3 code enrollment snapshot limit prepare db =
    (let invitation_id = invitation_id_str (ic_id code) in
     and_then (ok_or rejected_secret (find_by iv_invitation_id invitation_id (invitations db))) (\<lambda>i.
     and_then (recent_failures invitation_id t1 (lim_window limit) db) (\<lambda>(db, failures).
     enroll_checked ext t1 t2 t3 code enrollment snapshot limit prepare i failures db)))"

definition enroll_agent ::
    "enrollment_externals \<Rightarrow> instant \<Rightarrow> instant \<Rightarrow> instant \<Rightarrow> invitation_code \<Rightarrow>
     agent_enrollment_record \<Rightarrow> gateway_snapshot \<Rightarrow> invitation_attempt_limit \<Rightarrow>
     't gateway_result \<Rightarrow> gateway_db \<Rightarrow> gateway_db \<times> 't prepared_enrollment gateway_result" where
  "enroll_agent ext t1 t2 t3 code enrollment snapshot limit prepare =
    transaction (enroll_body ext t1 t2 t3 code enrollment snapshot limit prepare)"

section \<open>Lemmas\<close>

lemma insert_key_or_nothing_cases:
  "insert_key_or_nothing row db = Inr db' \<Longrightarrow> db' = db \<or> insert_agent_key row db = Inr db'"
  by (auto simp: insert_key_or_nothing_def split: if_splits)

lemma registered_key_simps [simp]:
  "ak_key_id (registered_key a t p j kid th) = kid" "ak_agent_id (registered_key a t p j kid th) = a"
  "ak_purpose (registered_key a t p j kid th) = p" "ak_jwk_thumbprint (registered_key a t p j kid th) = th"
  "ak_retired_at (registered_key a t p j kid th) = None"
  by (simp_all add: registered_key_def)

lemma register_verification_key_Inr:
  assumes "register_verification_key thumb agent_id now (purpose, jwk) db = Inr db'"
  shows "\<exists>kid db1. jwk_key_id jwk = Some kid \<and>
    (\<forall>k. find_by ak_key_id kid (agent_keys db) = Some k \<longrightarrow> ak_agent_id k = agent_id \<and>
       ak_purpose k = purpose \<and> ak_jwk_thumbprint k = thumb jwk \<and> ak_retired_at k = None) \<and>
    retire_agent_keys (rotated_key agent_id purpose kid) now db = Inr db1 \<and>
    insert_key_or_nothing (registered_key agent_id now purpose jwk kid (thumb jwk)) db1 = Inr db' \<and>
    (\<exists>k. find_by ak_key_id kid (agent_keys db') = Some k)"
  using assms
  by (auto simp: register_verification_key_def and_then_eq_Inr ok_or_eq_Inr Let_def
      split: if_splits option.splits)

text \<open>After a registration the key is active and it is the Agent's only one of its purpose.\<close>

lemma register_verification_key_active:
  assumes reg: "register_verification_key thumb agent_id now (purpose, jwk) db = Inr db'"
    and ok: "agent_keys_ok db"
  shows "\<exists>kid k. jwk_key_id jwk = Some kid \<and> k \<in> set (agent_keys db') \<and> ak_key_id k = kid \<and>
    ak_agent_id k = agent_id \<and> ak_purpose k = purpose \<and> ak_jwk_thumbprint k = thumb jwk \<and>
    ak_retired_at k = None \<and>
    (\<forall>l \<in> set (agent_keys db'). ak_agent_id l = agent_id \<and> ak_purpose l = purpose \<and>
      ak_retired_at l = None \<longrightarrow> l = k)"
proof -
  obtain kid db1 where kid: "jwk_key_id jwk = Some kid"
    and known: "\<forall>k. find_by ak_key_id kid (agent_keys db) = Some k \<longrightarrow> ak_agent_id k = agent_id \<and>
       ak_purpose k = purpose \<and> ak_jwk_thumbprint k = thumb jwk \<and> ak_retired_at k = None"
    and ret: "retire_agent_keys (rotated_key agent_id purpose kid) now db = Inr db1"
    and ins: "insert_key_or_nothing (registered_key agent_id now purpose jwk kid (thumb jwk)) db1 = Inr db'"
    and found: "\<exists>k. find_by ak_key_id kid (agent_keys db') = Some k"
    using register_verification_key_Inr [OF reg] by blast
  have db1: "find_by ak_key_id kid (agent_keys db1) = map_option
      (\<lambda>k. if rotated_key agent_id purpose kid k then k\<lparr>ak_retired_at := Some now\<rparr> else k)
      (find_by ak_key_id kid (agent_keys db))"
    unfolding retire_agent_keys_keys [OF ret] by (rule find_by_update_where) simp
  have others: "ak_key_id l = kid" if "l \<in> set (agent_keys db1)" "ak_agent_id l = agent_id"
      "ak_purpose l = purpose" "ak_retired_at l = None" for l
  proof -
    note active = that
    obtain r where r: "l = (if rotated_key agent_id purpose kid r then r\<lparr>ak_retired_at := Some now\<rparr> else r)"
      using active(1) unfolding retire_agent_keys_keys(1) [OF ret] set_update_where by blast
    show ?thesis
    proof (cases "rotated_key agent_id purpose kid r")
      case True
      then show ?thesis using r active(4) by simp
    next
      case False
      then have "l = r" using r by simp
      then show ?thesis using False active(2-4) by (auto simp: rotated_key_def)
    qed
  qed
  have dist: "distinct (map ak_key_id (agent_keys db1))"
    using retired_keys_ok [OF ok] unfolding retire_agent_keys_keys [OF ret] by (simp add: agent_keys_ok_def)
  consider (known) k where "find_by ak_key_id kid (agent_keys db) = Some k" "db' = db1"
    | (new) "kid \<notin> ak_key_id ` set (agent_keys db1)"
        "agent_keys db' = agent_keys db1 @ [registered_key agent_id now purpose jwk kid (thumb jwk)]"
  proof (cases "find_by ak_key_id kid (agent_keys db)")
    case None
    then have none: "find_by ak_key_id kid (agent_keys db1) = None" using db1 by simp
    then have "db' \<noteq> db1" using found by auto
    then show ?thesis
      using insert_key_or_nothing_cases [OF ins] insert_agent_key_keys new none unfolding find_by_None by blast
  next
    case (Some k)
    then obtain l where "find_by ak_key_id kid (agent_keys db1) = Some l" using db1 by simp
    from find_by_Some [OF this] have "db' = db1" using ins by (auto simp: insert_key_or_nothing_def split: if_splits)
    then show ?thesis using known Some by blast
  qed
  then show ?thesis
  proof cases
    case known
    then have "find_by ak_key_id kid (agent_keys db') = Some k"
      using db1 find_by_Some [OF known(1)] by (simp add: rotated_key_def)
    from find_by_Some [OF this] have k: "k \<in> set (agent_keys db1)" "ak_key_id k = kid"
      using known(2) by simp_all
    have "l = k" if "l \<in> set (agent_keys db1)" "ak_agent_id l = agent_id"
      "ak_purpose l = purpose" "ak_retired_at l = None" for l
      using distinct_key_eq [OF dist that(1) k(1)] others [OF that] k(2) by simp
    then show ?thesis using k kid \<open>\<forall>k. _ k\<close> known by blast
  next
    case new
    let ?k = "registered_key agent_id now purpose jwk kid (thumb jwk)"
    have "\<forall>l \<in> set (agent_keys db'). ak_agent_id l = agent_id \<and> ak_purpose l = purpose \<and>
        ak_retired_at l = None \<longrightarrow> l = ?k"
      using others new by auto
    moreover have "?k \<in> set (agent_keys db')" using new by simp
    ultimately show ?thesis
      by (intro exI [of _ kid] exI [of _ ?k] conjI kid registered_key_simps)
  qed
qed

lemma register_verification_key_progress:
  assumes "register_verification_key thumb agent_id now p db = Inr db'"
  shows "db_progress db db'"
proof -
  obtain purpose jwk where p: "p = (purpose, jwk)" by (cases p)
  obtain kid db1 where ret: "retire_agent_keys (rotated_key agent_id purpose kid) now db = Inr db1"
    and ins: "insert_key_or_nothing (registered_key agent_id now purpose jwk kid (thumb jwk)) db1 = Inr db'"
    using register_verification_key_Inr [OF assms [unfolded p]] by blast
  have "db_progress db db1"
    by (rule retire_agent_keys_progress [OF ret]) (simp add: rotated_key_def)
  moreover have "db_progress db1 db'"
    using insert_key_or_nothing_cases [OF ins] insert_agent_key_progress progress.refl by blast
  ultimately show ?thesis by (rule progress.trans)
qed

lemma register_verification_key_frame:
  assumes "register_verification_key thumb agent_id now p db = Inr db'"
  shows "\<exists>ks ps. db' = db\<lparr>agent_keys := ks, router_policies := ps\<rparr>"
proof -
  obtain purpose jwk where p: "p = (purpose, jwk)" by (cases p)
  obtain kid db1 where ret: "retire_agent_keys (rotated_key agent_id purpose kid) now db = Inr db1"
    and ins: "insert_key_or_nothing (registered_key agent_id now purpose jwk kid (thumb jwk)) db1 = Inr db'"
    using register_verification_key_Inr [OF assms [unfolded p]] by blast
  obtain ks ps where "db1 = db\<lparr>agent_keys := ks, router_policies := ps\<rparr>"
    using retire_agent_keys_frame [OF ret] by blast
  moreover consider "db' = db1" | ks' ps' where "db' = db1\<lparr>agent_keys := ks', router_policies := ps'\<rparr>"
    using insert_key_or_nothing_cases [OF ins] insert_agent_key_frame by blast
  ultimately show ?thesis by cases auto
qed

lemma upsert_agent_progress:
  assumes "upsert_agent row db = Inr db'"
  shows "db_progress db db'"
proof (cases "find_by ag_agent_id (ag_agent_id row) (agents db)")
  case None
  then show ?thesis using assms insert_agent_progress by (simp add: upsert_agent_def)
next
  case (Some old)
  then have "update_agent old (row\<lparr>ag_enrolled_at := ag_enrolled_at old\<rparr>) db = Inr db'"
    using assms by (simp add: upsert_agent_def)
  from update_agent_progress [OF this] show ?thesis using find_by_Some [OF Some] by simp
qed

lemma upsert_agent_frame:
  assumes "upsert_agent row db = Inr db'"
  shows "\<exists>as ps e. db' = db\<lparr>agents := as, router_policies := ps\<rparr> \<and>
    find_by ag_agent_id (ag_agent_id row) as = Some (row\<lparr>ag_enrolled_at := e\<rparr>)"
proof (cases "find_by ag_agent_id (ag_agent_id row) (agents db)")
  case None
  then have "insert_agent row db = Inr db'" using assms by (simp add: upsert_agent_def)
  from insert_agent_frame [OF this] obtain ps where
    "db' = db\<lparr>agents := agents db @ [row], router_policies := ps\<rparr>" ..
  moreover have "find_by ag_agent_id (ag_agent_id row) (agents db @ [row]) =
      Some (row\<lparr>ag_enrolled_at := ag_enrolled_at row\<rparr>)"
    using None by (simp add: find_by_append)
  ultimately show ?thesis by blast
next
  case (Some old)
  let ?new = "row\<lparr>ag_enrolled_at := ag_enrolled_at old\<rparr>"
  let ?as = "update_where (\<lambda>a. ag_agent_id a = ag_agent_id old) (\<lambda>_. ?new) (agents db)"
  have id: "ag_agent_id old = ag_agent_id row" using find_by_Some [OF Some] by simp
  from Some have "update_agent old ?new db = Inr db'" using assms by (simp add: upsert_agent_def)
  from update_agent_frame [OF this] obtain ps where "db' = db\<lparr>agents := ?as, router_policies := ps\<rparr>" ..
  moreover have "find_by ag_agent_id (ag_agent_id row) ?as =
      map_option (\<lambda>a. if ag_agent_id a = ag_agent_id old then ?new else a)
        (find_by ag_agent_id (ag_agent_id row) (agents db))"
    using id by (intro find_by_update_where) simp
  then have "find_by ag_agent_id (ag_agent_id row) ?as = Some ?new" using Some by simp
  ultimately show ?thesis by blast
qed

lemma update_agent_stale_new:
  assumes "update_agent old new db = Inr db'" and "ag_organization_id new = adm_organization_id adm"
    and "revisions_ok db" and "admission_known adm db"
  shows "admission_stale adm db'"
proof -
  let ?db = "db\<lparr>agents := update_where (\<lambda>a. ag_agent_id a = ag_agent_id old) (\<lambda>_. new) (agents db)\<rparr>"
  obtain db1 where db1: "invalidate_organization (ag_organization_id old) ?db = Inr db1"
      "invalidate_organization (ag_organization_id new) db1 = Inr db'"
    using assms by (auto simp: update_agent_def trigger_agent_update_def and_then_eq_Inr)
  have "revisions_ok db1" "admission_known adm db1"
    using invalidate_organization_revisions [OF db1(1)] assms(3,4)
      admission_known_advances [OF invalidate_organization_advances [OF db1(1)]] by simp_all
  then show ?thesis using db1(2) assms(2) by (intro invalidate_known_stale [of adm db1]) simp_all
qed

lemma upsert_agent_stale:
  assumes "upsert_agent row db = Inr db'" and "ag_organization_id row = adm_organization_id adm"
    and "revisions_ok db" and "admission_known adm db"
  shows "admission_stale adm db'"
proof (cases "find_by ag_agent_id (ag_agent_id row) (agents db)")
  case None
  then show ?thesis using assms insert_agent_stale by (simp add: upsert_agent_def)
next
  case (Some old)
  then show ?thesis
    using assms update_agent_stale_new [of old "row\<lparr>ag_enrolled_at := ag_enrolled_at old\<rparr>" db db' adm]
    by (simp add: upsert_agent_def)
qed

lemma apply_inventory_progress:
  assumes "apply_inventory items a site g db = Inr db'"
  shows "db_progress db db'"
proof -
  obtain ds where db': "db' = db\<lparr>devices := ds\<rparr>" using apply_inventory_frame [OF assms] ..
  have "db_ok db \<Longrightarrow> db_ok db'"
    using apply_inventory_ok [OF assms] db_ok_tables(7) [of db ds] unfolding db' by (simp add: db_ok_def)
  then show ?thesis unfolding db' by (intro progress_tables) auto
qed

lemma persist_agent_frame:
  assumes "persist_agent items enrollment snapshot now db = Inr db'"
  shows "\<exists>as ps ds e. db' = db\<lparr>agents := as, router_policies := ps, devices := ds\<rparr> \<and>
    find_by ag_agent_id (agent_str (en_agent_id enrollment)) as =
      Some ((enrolled_agent enrollment now)\<lparr>ag_enrolled_at := e\<rparr>)"
proof -
  let ?a = "agent_str (en_agent_id enrollment)"
  obtain db1 where db1: "upsert_agent (enrolled_agent enrollment now) db = Inr db1"
    and inv: "apply_inventory items ?a (site_str (en_site_id enrollment)) (snap_generated_at snapshot)
      (db1\<lparr>devices := delete_where (\<lambda>d. dv_agent_id d = ?a) (devices db1)\<rparr>) = Inr db'"
    using assms by (auto simp: persist_agent_def Let_def and_then_eq_Inr)
  have "ag_agent_id (enrolled_agent enrollment now) = ?a" by (simp add: enrolled_agent_def)
  then obtain as ps e where "db1 = db\<lparr>agents := as, router_policies := ps\<rparr>"
    "find_by ag_agent_id ?a as = Some ((enrolled_agent enrollment now)\<lparr>ag_enrolled_at := e\<rparr>)"
    using upsert_agent_frame [OF db1] by auto
  moreover obtain ds where "db' = db1\<lparr>devices := ds\<rparr>"
    using apply_inventory_frame [OF inv] by auto
  ultimately show ?thesis by auto
qed

lemma persist_agent_progress:
  assumes "persist_agent items enrollment snapshot now db = Inr db'"
  shows "db_progress db db'"
proof -
  let ?a = "agent_str (en_agent_id enrollment)"
  obtain db1 where db1: "upsert_agent (enrolled_agent enrollment now) db = Inr db1"
    and inv: "apply_inventory items ?a (site_str (en_site_id enrollment)) (snap_generated_at snapshot)
      (db1\<lparr>devices := delete_where (\<lambda>d. dv_agent_id d = ?a) (devices db1)\<rparr>) = Inr db'"
    using assms by (auto simp: persist_agent_def Let_def and_then_eq_Inr)
  from upsert_agent_progress [OF db1] delete_devices_progress apply_inventory_progress [OF inv]
  show ?thesis by (blast intro: progress.trans)
qed

text \<open>The four phases of a first enrolment.\<close>

lemma persist_enrollment_phases:
  assumes "persist_enrollment ext t3 i enrollment snapshot fp now db = Inr db'"
  shows "\<exists>items db1 db2 db3. persist_agent items enrollment snapshot now db = Inr db1 \<and>
    try_fold (register_verification_key (ex_thumbprint ext) (agent_str (en_agent_id enrollment)) now)
      [(TransportIdentity, en_public_jwk enrollment), (AgentState, en_state_signing_jwk enrollment)]
      db1 = Inr db2 \<and>
    update_invitation (enrolled_invitation i enrollment snapshot fp now)
      (db2\<lparr>invitation_attempts := delete_where (\<lambda>a. at_invitation_id a = iv_invitation_id i)
        (invitation_attempts db2)\<rparr>) = Inr db3 \<and>
    db' = db3\<lparr>audit_events := audit_events db'\<rparr> \<and> db_progress db3 db'"
proof -
  from assms obtain items db1 db2 db3 draft where
    "persist_agent items enrollment snapshot now db = Inr db1"
    "try_fold (register_verification_key (ex_thumbprint ext) (agent_str (en_agent_id enrollment)) now)
      [(TransportIdentity, en_public_jwk enrollment), (AgentState, en_state_signing_jwk enrollment)]
      db1 = Inr db2"
    "update_invitation (enrolled_invitation i enrollment snapshot fp now)
      (db2\<lparr>invitation_attempts := delete_where (\<lambda>a. at_invitation_id a = iv_invitation_id i)
        (invitation_attempts db2)\<rparr>) = Inr db3"
    and audit: "insert_audit_event t3 draft db3 = Inr db'"
    unfolding persist_enrollment_def and_then_eq_Inr by blast
  moreover have "db' = db3\<lparr>audit_events := audit_events db'\<rparr>"
    using audit by (auto simp: insert_audit_event_def insert_audit_row_def)
  ultimately show ?thesis using insert_audit_event_progress [OF audit] by blast
qed

section \<open>The outcomes of an enrolment\<close>

lemma recent_failures_Inr:
  assumes "recent_failures iid now window db = Inr (db', n)"
  shows "db' = db\<lparr>invitation_attempts := delete_where (\<lambda>a. at_invitation_id a = iid \<and>
      at_attempted_at a < now - window) (invitation_attempts db)\<rparr>"
    and "n = length (filter (\<lambda>a. at_invitation_id a = iid) (invitation_attempts db'))"
    and "duration_from_std window = Some window"
  using assms
  by (auto simp: recent_failures_def and_then_eq_Inr ok_or_eq_Inr Let_def duration_from_std_def
      split: if_splits)

lemma accept_invitation_Inr:
  "accept_invitation ext t1 t2 t3 i e snapshot fp prepare db = Inr (db', r) \<longleftrightarrow>
    (\<exists>v. prepare = Inr v \<and>
      ((iv_state i = InvCreated \<and> persist_enrollment ext t3 i e snapshot fp t1 db = Inr db' \<and>
        r = Inr \<lparr>pe_value = v, pe_enrolled_at = t1\<rparr>) \<or>
       (iv_state i = InvEnrolled \<and> t2 < iv_expires_at i \<and> db' = db \<and>
        (\<exists>at. replayed_enrollment i e fp db = Inr at \<and> r = Inr \<lparr>pe_value = v, pe_enrolled_at = at\<rparr>))))"
  by (cases "iv_state i") (auto simp: accept_invitation_def and_then_eq_Inr)

text \<open>The three outcomes of \<^verbatim>\<open>enroll_agent\<close> that reach the database.\<close>

definition attempt_recorded ::
    "enrollment_externals \<Rightarrow> instant \<Rightarrow> invitation_code \<Rightarrow> invitation_row \<Rightarrow> gateway_db \<Rightarrow> gateway_db \<Rightarrow>
     't prepared_enrollment gateway_result \<Rightarrow> bool" where
  "attempt_recorded ext t1 code i db1 db' r \<longleftrightarrow>
    iv_secret_digest i \<noteq> secret_digest (ex_sha256 ext) code \<and> r = Inl rejected_secret \<and>
    insert_invitation_attempt \<lparr>at_invitation_id = iv_invitation_id i, at_attempted_at = t1\<rparr> db1 = Inr db'"

definition invitation_accepted ::
    "enrollment_externals \<Rightarrow> instant \<Rightarrow> invitation_code \<Rightarrow> agent_enrollment_record \<Rightarrow> invitation_row \<Rightarrow>
     bytes \<Rightarrow> bool" where
  "invitation_accepted ext t1 code e i fp \<longleftrightarrow>
    iv_secret_digest i = secret_digest (ex_sha256 ext) code \<and> t1 < iv_expires_at i \<and>
    iv_organization_id i = organization_str (en_organization_id e) \<and>
    iv_site_id i = site_str (en_site_id e) \<and> enrollment_fingerprint ext e = Inr fp"

lemma enroll_checked_Inr:
  assumes "enroll_checked ext t1 t2 t3 code e snapshot limit prepare i n db = Inr (db', r)"
  shows "n < max (lim_max_failures limit) 1 \<and>
      (attempt_recorded ext t1 code i db db' r \<or>
       (\<exists>fp. invitation_accepted ext t1 code e i fp \<and>
         accept_invitation ext t1 t2 t3 i e snapshot fp prepare db = Inr (db', r)))"
  using assms
  by (auto simp: enroll_checked_def attempt_recorded_def invitation_accepted_def and_then_eq_Inr
      split: if_splits)

lemma enroll_body_Inr:
  assumes "enroll_body ext t1 t2 t3 code e snapshot limit prepare db = Inr (db', r)"
  shows "\<exists>i db1 n. find_by iv_invitation_id (invitation_id_str (ic_id code)) (invitations db) = Some i \<and>
      recent_failures (invitation_id_str (ic_id code)) t1 (lim_window limit) db = Inr (db1, n) \<and>
      enroll_checked ext t1 t2 t3 code e snapshot limit prepare i n db1 = Inr (db', r)"
  using assms by (auto simp: enroll_body_def Let_def and_then_eq_Inr ok_or_eq_Inr)

lemma enroll_agent_cases:
  assumes "enroll_agent ext t1 t2 t3 code e snapshot limit prepare db = (db', r)"
  obtains (refused) err where "db' = db" "r = Inl err"
  | (wrong) i db1 n where
      "find_by iv_invitation_id (invitation_id_str (ic_id code)) (invitations db) = Some i"
      "recent_failures (invitation_id_str (ic_id code)) t1 (lim_window limit) db = Inr (db1, n)"
      "n < max (lim_max_failures limit) 1" "attempt_recorded ext t1 code i db1 db' r"
  | (accepted) i db1 n fp where
      "find_by iv_invitation_id (invitation_id_str (ic_id code)) (invitations db) = Some i"
      "recent_failures (invitation_id_str (ic_id code)) t1 (lim_window limit) db = Inr (db1, n)"
      "n < max (lim_max_failures limit) 1" "invitation_accepted ext t1 code e i fp"
      "accept_invitation ext t1 t2 t3 i e snapshot fp prepare db1 = Inr (db', r)"
proof (cases "enroll_body ext t1 t2 t3 code e snapshot limit prepare db")
  case (Inl err)
  then show ?thesis using assms refused by (auto simp: enroll_agent_def transaction_def)
next
  case (Inr z)
  then have "enroll_body ext t1 t2 t3 code e snapshot limit prepare db = Inr (db', r)"
    using assms by (cases z) (simp add: enroll_agent_def transaction_def)
  from enroll_body_Inr [OF this] obtain i db1 n where
    "find_by iv_invitation_id (invitation_id_str (ic_id code)) (invitations db) = Some i"
    "recent_failures (invitation_id_str (ic_id code)) t1 (lim_window limit) db = Inr (db1, n)"
    and checked: "enroll_checked ext t1 t2 t3 code e snapshot limit prepare i n db1 = Inr (db', r)"
    by blast
  with enroll_checked_Inr [OF checked] show ?thesis using wrong accepted by blast
qed

lemma register_verification_key_other_purpose:
  assumes "register_verification_key thumb agent_id now (purpose, jwk) db = Inr db'" and "ak_purpose k \<noteq> purpose"
  shows "k \<in> set (agent_keys db') \<longleftrightarrow> k \<in> set (agent_keys db)"
proof -
  obtain kid db1 where ret: "retire_agent_keys (rotated_key agent_id purpose kid) now db = Inr db1"
    and ins: "insert_key_or_nothing (registered_key agent_id now purpose jwk kid (thumb jwk)) db1 = Inr db'"
    using register_verification_key_Inr [OF assms(1)] by blast
  have "k \<in> set (agent_keys db1) \<longleftrightarrow> k \<in> set (agent_keys db)"
    using assms(2) unfolding retire_agent_keys_keys(1) [OF ret] set_update_where
    by (auto simp: rotated_key_def image_iff)
  moreover have "agent_keys db' = agent_keys db1 \<or>
      agent_keys db' = agent_keys db1 @ [registered_key agent_id now purpose jwk kid (thumb jwk)]"
    using insert_key_or_nothing_cases [OF ins] insert_agent_key_keys(1) by blast
  ultimately show ?thesis using assms(2) by auto
qed

text \<open>The registered pair of keys: each purpose has exactly the given key.\<close>

definition sole_active_key :: "gateway_db \<Rightarrow> string \<Rightarrow> agent_key_purpose \<Rightarrow> string \<Rightarrow> string \<Rightarrow> bool" where
  "sole_active_key db agent_id purpose key_id thumbprint \<longleftrightarrow>
    (\<exists>k \<in> set (agent_keys db). ak_key_id k = key_id \<and> ak_agent_id k = agent_id \<and> ak_purpose k = purpose \<and>
      ak_jwk_thumbprint k = thumbprint \<and> ak_retired_at k = None \<and>
      (\<forall>l \<in> set (agent_keys db). ak_agent_id l = agent_id \<and> ak_purpose l = purpose \<and>
        ak_retired_at l = None \<longrightarrow> l = k))"

lemma register_verification_key_sole:
  assumes "register_verification_key thumb agent_id now (purpose, jwk) db = Inr db'" and "agent_keys_ok db"
  shows "\<exists>kid. jwk_key_id jwk = Some kid \<and> sole_active_key db' agent_id purpose kid (thumb jwk)"
  using register_verification_key_active [OF assms] unfolding sole_active_key_def by blast

lemma sole_active_key_other_purpose:
  assumes "register_verification_key thumb agent_id now (purpose, jwk) db = Inr db'" and "other \<noteq> purpose"
    and "sole_active_key db agent_id other kid th"
  shows "sole_active_key db' agent_id other kid th"
  using assms(3) register_verification_key_other_purpose [OF assms(1)] assms(2)
  unfolding sole_active_key_def by metis

lemma register_pair:
  assumes "try_fold (register_verification_key thumb agent_id now)
      [(TransportIdentity, transport), (AgentState, state)] db = Inr db'"
    and "state_ok db" and "jwk_key_id transport = Some kid"
  shows "sole_active_key db' agent_id TransportIdentity kid (thumb transport)"
    and "\<exists>sid. jwk_key_id state = Some sid \<and> sole_active_key db' agent_id AgentState sid (thumb state)"
    and "db_progress db db'" and "\<exists>ks ps. db' = db\<lparr>agent_keys := ks, router_policies := ps\<rparr>"
proof -
  obtain db1 where r1: "register_verification_key thumb agent_id now (TransportIdentity, transport) db = Inr db1"
    and r2: "register_verification_key thumb agent_id now (AgentState, state) db1 = Inr db'"
    using assms(1) by (auto simp: and_then_eq_Inr)
  note p1 = register_verification_key_progress [OF r1] and p2 = register_verification_key_progress [OF r2]
  from p1 p2 show "db_progress db db'" by (rule progress.trans)
  have ok: "agent_keys_ok db" "agent_keys_ok db1"
    using p1 assms(2) by (simp_all add: db_progress_def state_ok_def db_ok_def)
  have "sole_active_key db1 agent_id TransportIdentity kid (thumb transport)"
    using register_verification_key_sole [OF r1 ok(1)] assms(3) by simp
  from sole_active_key_other_purpose [OF r2 _ this]
  show "sole_active_key db' agent_id TransportIdentity kid (thumb transport)" by simp
  show "\<exists>sid. jwk_key_id state = Some sid \<and> sole_active_key db' agent_id AgentState sid (thumb state)"
    using register_verification_key_sole [OF r2 ok(2)] .
  show "\<exists>ks ps. db' = db\<lparr>agent_keys := ks, router_policies := ps\<rparr>"
  proof -
    obtain ks ps ks' ps' where "db1 = db\<lparr>agent_keys := ks, router_policies := ps\<rparr>"
      and "db' = db1\<lparr>agent_keys := ks', router_policies := ps'\<rparr>"
      using register_verification_key_frame [OF r1] register_verification_key_frame [OF r2] by blast
    then have "db' = db\<lparr>agent_keys := ks', router_policies := ps'\<rparr>" by simp
    then show ?thesis by blast
  qed
qed

lemma sole_keys_active:
  assumes "sole_active_key db (ag_agent_id a) TransportIdentity (ag_key_id a) th"
    and "sole_active_key db (ag_agent_id a) AgentState sid th'"
    and "a \<in> set (agents db)" and "ag_dispatch_key a \<noteq> None"
  shows "is_active_agent db (ag_organization_id a) (ag_agent_id a)"
  using assms unfolding sole_active_key_def is_active_agent_def has_active_keys_def exists_where_iff
  by blast

lemma enrolled_invitation_id [simp]:
  "iv_invitation_id (enrolled_invitation i e snapshot fp now) = iv_invitation_id i"
  by (simp add: enrolled_invitation_def)

lemma persist_enrollment_progress:
  assumes "persist_enrollment ext t3 i e snapshot fp now db = Inr db'"
    and "find_by iv_invitation_id (iv_invitation_id i) (invitations db) = Some i" and "iv_state i = InvCreated"
  shows "db_progress db db'"
proof -
  let ?A = "agent_str (en_agent_id e)" and ?new = "enrolled_invitation i e snapshot fp now"
  obtain items db1 db2 db3 where agent: "persist_agent items e snapshot now db = Inr db1"
    and keys: "try_fold (register_verification_key (ex_thumbprint ext) ?A now)
      [(TransportIdentity, en_public_jwk e), (AgentState, en_state_signing_jwk e)] db1 = Inr db2"
    and inv: "update_invitation ?new (db2\<lparr>invitation_attempts := delete_where
        (\<lambda>a. at_invitation_id a = iv_invitation_id i) (invitation_attempts db2)\<rparr>) = Inr db3"
    and p4: "db_progress db3 db'"
    using persist_enrollment_phases [OF assms(1)] by blast
  have p2: "db_progress db1 db2"
    using keys by (rule progress.fold_steps) (rule register_verification_key_progress)
  have "invitations db2 = invitations db1"
    using keys by (rule try_fold_invariant) (auto dest!: register_verification_key_frame)
  moreover have "invitations db1 = invitations db" using persist_agent_frame [OF agent] by auto
  ultimately have "db_progress (db2\<lparr>invitation_attempts := delete_where
      (\<lambda>a. at_invitation_id a = iv_invitation_id i) (invitation_attempts db2)\<rparr>) db3"
    using assms(2,3)
    by (intro update_invitation_progress [OF inv, of i]) (simp_all add: invitation_evolves_def enrolled_invitation_def)
  then show ?thesis
    using persist_agent_progress [OF agent] p2 delete_attempts_progress p4 by (blast intro: progress.trans)
qed

text \<open>What a first enrolment leaves in the database.\<close>

lemma persist_enrollment_effect:
  assumes persist: "persist_enrollment ext t3 i e snapshot fp now db = Inr db'"
    and ok: "state_ok db"
    and row: "find_by iv_invitation_id (iv_invitation_id i) (invitations db) = Some i"
    and created: "iv_state i = InvCreated"
    and kid: "jwk_key_id (en_public_jwk e) = Some (en_key_id e)"
  shows "find_by iv_invitation_id (iv_invitation_id i) (invitations db') =
      Some (enrolled_invitation i e snapshot fp now)" (is ?invitation)
    and "filter (\<lambda>a. at_invitation_id a = iv_invitation_id i) (invitation_attempts db') = []" (is ?attempts)
    and "\<exists>at. find_by ag_agent_id (agent_str (en_agent_id e)) (agents db') =
      Some ((enrolled_agent e now)\<lparr>ag_enrolled_at := at\<rparr>)" (is ?agent)
    and "sole_active_key db' (agent_str (en_agent_id e)) TransportIdentity (en_key_id e)
      (ex_thumbprint ext (en_public_jwk e))" (is ?transport)
    and "\<exists>sid. jwk_key_id (en_state_signing_jwk e) = Some sid \<and> sole_active_key db'
      (agent_str (en_agent_id e)) AgentState sid (ex_thumbprint ext (en_state_signing_jwk e))" (is ?state)
proof -
  let ?A = "agent_str (en_agent_id e)" and ?new = "enrolled_invitation i e snapshot fp now"
  obtain items db1 db2 db3 where agent: "persist_agent items e snapshot now db = Inr db1"
    and keys: "try_fold (register_verification_key (ex_thumbprint ext) ?A now)
      [(TransportIdentity, en_public_jwk e), (AgentState, en_state_signing_jwk e)] db1 = Inr db2"
    and inv: "update_invitation ?new (db2\<lparr>invitation_attempts := delete_where
        (\<lambda>a. at_invitation_id a = iv_invitation_id i) (invitation_attempts db2)\<rparr>) = Inr db3"
    and audit: "db' = db3\<lparr>audit_events := audit_events db'\<rparr>" and p4: "db_progress db3 db'"
    using persist_enrollment_phases [OF persist] by blast
  obtain as ps ds at where db1: "db1 = db\<lparr>agents := as, router_policies := ps, devices := ds\<rparr>"
    and found: "find_by ag_agent_id ?A as = Some ((enrolled_agent e now)\<lparr>ag_enrolled_at := at\<rparr>)"
    using persist_agent_frame [OF agent] by blast
  note p1 = persist_agent_progress [OF agent]
  then have ok1: "state_ok db1" using ok by (simp add: db_progress_def)
  note pair = register_pair [OF keys ok1 kid]
  obtain ks ps' where db2: "db2 = db1\<lparr>agent_keys := ks, router_policies := ps'\<rparr>" using pair(4) by blast
  let ?del = "db2\<lparr>invitation_attempts := delete_where (\<lambda>a. at_invitation_id a = iv_invitation_id i)
      (invitation_attempts db2)\<rparr>"
  have db3: "db3 = ?del\<lparr>invitations := update_where (\<lambda>j. iv_invitation_id j = iv_invitation_id i)
      (\<lambda>_. ?new) (invitations db)\<rparr>"
    using inv by (simp add: update_invitation_def db2 db1)
  have "\<exists>es. db' = db3\<lparr>audit_events := es\<rparr>" using audit by (rule exI)
  then obtain es where db': "db' = db3\<lparr>audit_events := es\<rparr>" ..
  have "find_by iv_invitation_id (iv_invitation_id i) (invitations db') = map_option
      (\<lambda>j. if iv_invitation_id j = iv_invitation_id i then ?new else j)
      (find_by iv_invitation_id (iv_invitation_id i) (invitations db))"
    unfolding db' db3 by (simp add: find_by_update_where)
  then show ?invitation using row by simp
  show ?attempts by (simp add: db' db3 delete_where_def)
  show ?agent by (rule exI [of _ at]) (use found in \<open>simp add: db' db3 db2 db1\<close>)
  show ?transport using pair(1) by (simp add: db' db3 sole_active_key_def)
  show ?state using pair(2) by (simp add: db' db3 sole_active_key_def)
qed

lemma persist_enrollment_stale:
  assumes "persist_enrollment ext t3 i e snapshot fp now db = Inr db'" and "state_ok db"
    and "find_by iv_invitation_id (iv_invitation_id i) (invitations db) = Some i" and "iv_state i = InvCreated"
    and "jwk_key_id (en_public_jwk e) = Some (en_key_id e)"
    and "adm_organization_id adm = organization_str (en_organization_id e)" and "admission_known adm db"
  shows "admission_stale adm db'"
proof -
  obtain items db1 db2 db3 where agent: "persist_agent items e snapshot now db = Inr db1"
    and keys: "try_fold (register_verification_key (ex_thumbprint ext) (agent_str (en_agent_id e)) now)
      [(TransportIdentity, en_public_jwk e), (AgentState, en_state_signing_jwk e)] db1 = Inr db2"
    and inv: "update_invitation (enrolled_invitation i e snapshot fp now) (db2\<lparr>invitation_attempts := delete_where
        (\<lambda>a. at_invitation_id a = iv_invitation_id i) (invitation_attempts db2)\<rparr>) = Inr db3"
    and audit: "db' = db3\<lparr>audit_events := audit_events db'\<rparr>"
    using persist_enrollment_phases [OF assms(1)] by blast
  obtain db0 where up: "upsert_agent (enrolled_agent e now) db = Inr db0"
    and dev: "apply_inventory items (agent_str (en_agent_id e)) (site_str (en_site_id e))
      (snap_generated_at snapshot) (db0\<lparr>devices := delete_where
        (\<lambda>d. dv_agent_id d = agent_str (en_agent_id e)) (devices db0)\<rparr>) = Inr db1"
    using agent by (auto simp: persist_agent_def Let_def and_then_eq_Inr)
  have "admission_stale adm db0"
    using assms(2,6,7) by (intro upsert_agent_stale [OF up]) (simp_all add: enrolled_agent_def state_ok_def)
  moreover have "router_policies db1 = router_policies db0" using apply_inventory_frame [OF dev] by auto
  ultimately have stale: "admission_stale adm db1" by (simp add: admission_stale_def)
  have ok1: "state_ok db1" using persist_agent_progress [OF agent] assms(2) by (simp add: db_progress_def)
  have "authority_advances db1 db2" "state_ok db2"
    using register_pair(3) [OF keys ok1 assms(5)] ok1 by (simp_all add: db_progress_def)
  then have "admission_stale adm db2"
    using stale admission_stale_advances by (simp add: state_ok_def)
  moreover have "router_policies db3 = router_policies db2" using inv by (auto simp: update_invitation_def)
  moreover have "router_policies db' = router_policies db3"
    using arg_cong [OF audit, of router_policies] by simp
  ultimately show ?thesis by (simp add: admission_stale_def)
qed

lemma recent_failures_progress: "recent_failures iid now w db = Inr (db1, n) \<Longrightarrow> db_progress db db1"
  using recent_failures_Inr(1) delete_attempts_progress by blast

lemma enroll_agent_progress:
  assumes "enroll_agent ext t1 t2 t3 code e snapshot limit prepare db = (db', r)"
  shows "db_progress db db'"
  using assms
proof (cases rule: enroll_agent_cases)
  case refused
  then show ?thesis by (simp add: progress.refl)
next
  case (wrong i db1 n)
  then show ?thesis
    using recent_failures_progress insert_invitation_attempt_progress
    unfolding attempt_recorded_def by (blast intro: progress.trans)
next
  case (accepted i db1 n fp)
  have "find_by iv_invitation_id (iv_invitation_id i) (invitations db1) = Some i"
    using find_by_Some [OF accepted(1)] accepted(1) recent_failures_Inr(1) [OF accepted(2)] by simp
  then have "db_progress db1 db'"
    using accepted(5) progress.refl by (auto simp: accept_invitation_Inr intro: persist_enrollment_progress)
  then show ?thesis using recent_failures_progress [OF accepted(2)] by (blast intro: progress.trans)
qed

text \<open>The rows an enrolment works on once old failures are forgotten.\<close>

lemma recent_failures_frame:
  assumes "recent_failures iid now w db = Inr (db1, n)"
  shows "invitations db1 = invitations db" "agents db1 = agents db" "agent_keys db1 = agent_keys db"
    "router_policies db1 = router_policies db"
  using recent_failures_Inr(1) [OF assms] by simp_all

lemma delete_nothing: "(\<And>r. r \<in> set t \<Longrightarrow> \<not> P r) \<Longrightarrow> delete_where P t = t"
  by (simp add: delete_where_def filter_id_conv)

lemma recent_failures_keep:
  assumes "duration_from_std window = Some window"
    and "\<And>a. a \<in> set (invitation_attempts db) \<Longrightarrow> at_invitation_id a = iid \<Longrightarrow> now - window \<le> at_attempted_at a"
  shows "recent_failures iid now window db =
    Inr (db, length (filter (\<lambda>a. at_invitation_id a = iid) (invitation_attempts db)))"
proof -
  have "delete_where (\<lambda>a. at_invitation_id a = iid \<and> at_attempted_at a < now - window)
      (invitation_attempts db) = invitation_attempts db"
    using assms(2) by (intro delete_nothing) fastforce
  then show ?thesis using assms(1) by (simp add: recent_failures_def)
qed

text \<open>An invitation with too many recent failures answers nobody.\<close>

lemma enroll_throttled:
  assumes "find_by iv_invitation_id (invitation_id_str (ic_id code)) (invitations db) = Some i"
    and "recent_failures (invitation_id_str (ic_id code)) t1 (lim_window limit) db = Inr (db1, n)"
    and "max (lim_max_failures limit) 1 \<le> n"
  shows "enroll_agent ext t1 t2 t3 code e snapshot limit prepare db =
    (db, Inl (Forbidden ''too many failed invitation attempts''))"
  using assms by (simp add: enroll_agent_def transaction_def enroll_body_def enroll_checked_def)

text \<open>A wrong secret is recorded when there is room for it.\<close>

lemma enroll_wrong_secret:
  assumes "find_by iv_invitation_id (invitation_id_str (ic_id code)) (invitations db) = Some i"
    and "recent_failures (invitation_id_str (ic_id code)) t1 (lim_window limit) db = Inr (db, n)"
    and "n < max (lim_max_failures limit) 1"
    and "iv_secret_digest i \<noteq> secret_digest (ex_sha256 ext) code"
    and "invitation_attempts_ok db"
    and "(iv_invitation_id i, t1) \<notin>
      (\<lambda>a. (at_invitation_id a, at_attempted_at a)) ` set (invitation_attempts db)"
  shows "enroll_agent ext t1 t2 t3 code e snapshot limit prepare db =
    (db\<lparr>invitation_attempts := invitation_attempts db @
        [\<lparr>at_invitation_id = iv_invitation_id i, at_attempted_at = t1\<rparr>]\<rparr>, Inl rejected_secret)"
    and "invitation_attempts_ok (db\<lparr>invitation_attempts := invitation_attempts db @
        [\<lparr>at_invitation_id = iv_invitation_id i, at_attempted_at = t1\<rparr>]\<rparr>)"
proof -
  let ?row = "\<lparr>at_invitation_id = iv_invitation_id i, at_attempted_at = t1\<rparr>"
  have "iv_invitation_id i \<in> iv_invitation_id ` set (invitations db)" using find_by_Some [OF assms(1)] by blast
  then show ok: "invitation_attempts_ok (db\<lparr>invitation_attempts := invitation_attempts db @ [?row]\<rparr>)"
    using assms(5,6) by (simp add: invitation_attempts_ok_def refers_iff)
  then have "insert_invitation_attempt ?row db = Inr (db\<lparr>invitation_attempts := invitation_attempts db @ [?row]\<rparr>)"
    by (simp add: insert_invitation_attempt_def statement_def)
  then show "enroll_agent ext t1 t2 t3 code e snapshot limit prepare db =
    (db\<lparr>invitation_attempts := invitation_attempts db @ [?row]\<rparr>, Inl rejected_secret)"
    using assms(1,2,4) assms(3) [folded not_le]
    by (simp add: enroll_agent_def transaction_def enroll_body_def enroll_checked_def del: max.bounded_iff)
qed

text \<open>A sequence of enrolment requests, each with its time and code.\<close>

definition enroll_attempts ::
    "enrollment_externals \<Rightarrow> instant \<Rightarrow> instant \<Rightarrow> agent_enrollment_record \<Rightarrow> gateway_snapshot \<Rightarrow>
     invitation_attempt_limit \<Rightarrow> 't gateway_result \<Rightarrow> (instant \<times> invitation_code) list \<Rightarrow> gateway_db \<Rightarrow>
     gateway_db" where
  "enroll_attempts ext t2 t3 e snapshot limit prepare =
    fold (\<lambda>(t, code) db. fst (enroll_agent ext t t2 t3 code e snapshot limit prepare db))"

lemma wrong_secrets_recorded:
  assumes "find_by iv_invitation_id iid (invitations db) = Some i"
    and "duration_from_std (lim_window limit) = Some (lim_window limit)"
    and "filter (\<lambda>a. at_invitation_id a = iid) (invitation_attempts db) = []"
    and "invitation_attempts_ok db"
    and "sorted_wrt (<) (map fst ts)" and "length ts \<le> max (lim_max_failures limit) 1"
    and "\<forall>(t, code) \<in> set ts. now - lim_window limit \<le> t \<and> t \<le> now \<and> invitation_id_str (ic_id code) = iid \<and>
      iv_secret_digest i \<noteq> secret_digest (ex_sha256 ext) code"
  shows "invitations (enroll_attempts ext t2 t3 e snapshot limit prepare ts db) = invitations db \<and>
    invitation_attempts_ok (enroll_attempts ext t2 t3 e snapshot limit prepare ts db) \<and>
    filter (\<lambda>a. at_invitation_id a = iid)
      (invitation_attempts (enroll_attempts ext t2 t3 e snapshot limit prepare ts db)) =
      map (\<lambda>(t, code). \<lparr>at_invitation_id = iid, at_attempted_at = t\<rparr>) ts"
  using assms(5-7)
proof (induction ts rule: rev_induct)
  case Nil
  then show ?case using assms(3,4) by (simp add: enroll_attempts_def)
next
  case (snoc x ts)
  obtain t code where x: "x = (t, code)" by (cases x)
  let ?db = "enroll_attempts ext t2 t3 e snapshot limit prepare ts db"
  let ?row = "\<lambda>t. \<lparr>at_invitation_id = iid, at_attempted_at = t\<rparr>"
  have IH: "invitations ?db = invitations db" "invitation_attempts_ok ?db"
      "filter (\<lambda>a. at_invitation_id a = iid) (invitation_attempts ?db) = map (\<lambda>(t, code). ?row t) ts"
    using snoc by (auto simp: sorted_wrt_append)
  have times: "\<exists>s c. (s, c) \<in> set ts \<and> a = ?row s"
    if "a \<in> set (invitation_attempts ?db)" "at_invitation_id a = iid" for a
  proof -
    have "a \<in> set (filter (\<lambda>a. at_invitation_id a = iid) (invitation_attempts ?db))" using that by simp
    then show ?thesis unfolding IH(3) by auto
  qed
  have before: "now - lim_window limit \<le> s \<and> s < t" if "(s, c) \<in> set ts" for s c
    using snoc.prems that x by (fastforce simp: sorted_wrt_append)
  have t: "t \<le> now" "invitation_id_str (ic_id code) = iid"
      "iv_secret_digest i \<noteq> secret_digest (ex_sha256 ext) code"
    using snoc.prems x by auto
  have id: "iv_invitation_id i = iid" using find_by_Some [OF assms(1)] by simp
  have recent: "recent_failures iid t (lim_window limit) ?db = Inr (?db, length ts)"
  proof -
    have "t - lim_window limit \<le> at_attempted_at a"
      if "a \<in> set (invitation_attempts ?db)" "at_invitation_id a = iid" for a
      using times [OF that] before t(1) by fastforce
    from recent_failures_keep [OF assms(2) this] show ?thesis by (simp add: IH(3))
  qed
  have room: "length ts < max (lim_max_failures limit) 1" using snoc.prems by simp
  have fresh: "(iid, t) \<notin> (\<lambda>a. (at_invitation_id a, at_attempted_at a)) ` set (invitation_attempts ?db)"
  proof
    assume "(iid, t) \<in> (\<lambda>a. (at_invitation_id a, at_attempted_at a)) ` set (invitation_attempts ?db)"
    then obtain a where a: "a \<in> set (invitation_attempts ?db)" "at_invitation_id a = iid" "at_attempted_at a = t"
      by auto
    obtain s' c where "(s', c) \<in> set ts" "a = ?row s'" using times [OF a(1,2)] by blast
    then show False using before [of s' c] a(3) by simp
  qed
  note wrong = enroll_wrong_secret [of code ?db i t limit "length ts" ext, unfolded t(2) IH(1) id,
      OF assms(1) recent room t(3) IH(2) fresh]
  have "enroll_attempts ext t2 t3 e snapshot limit prepare (ts @ [x]) db =
      fst (enroll_agent ext t t2 t3 code e snapshot limit prepare ?db)"
    by (simp add: enroll_attempts_def x)
  also have "\<dots> = ?db\<lparr>invitation_attempts := invitation_attempts ?db @ [?row t]\<rparr>"
    unfolding wrong(1) by simp
  finally show ?case using wrong(2) IH x by simp
qed

section \<open>A concrete enrolment\<close>

definition sample_ext :: enrollment_externals where
  "sample_ext = \<lparr>ex_sha256 = (\<lambda>s. take 32 (rev s @ replicate 32 CHR ''0'')),
     ex_thumbprint = (\<lambda>j. case jwk_key_id j of None \<Rightarrow> ''none'' | Some k \<Rightarrow> ''thumb_'' @ k),
     ex_canonical_facts = (\<lambda>f. Inr (ef_agent_id f @ ef_key_id f)),
     ex_decode_inventory = (\<lambda>_. Some [sample_item]), ex_encoded_size = (\<lambda>_. Some 2)\<rparr>"

definition sample_code :: "char \<Rightarrow> invitation_code" where
  "sample_code c = \<lparr>ic_id = InvitationId ''ABCDEFGHIJKL'', ic_secret = InvitationSecret (replicate 32 c)\<rparr>"

definition sample_enrollment :: agent_enrollment_record where
  "sample_enrollment = \<lparr>en_agent_id = AgentId ''agt_b'', en_organization_id = OrganizationId ''org_a'',
     en_site_id = SiteId ''site_a'', en_key_id = ''kid_b'', en_jwk_thumbprint = ''thumb_kid_b'',
     en_public_jwk = sample_jwk\<lparr>jwk_key_id := Some ''kid_b''\<rparr>, en_dispatch_key = sample_dispatch_key,
     en_state_signing_jwk = sample_jwk\<lparr>jwk_key_id := Some ''agent_state_b''\<rparr>,
     en_namespace = ''inari/agt_b'', en_protocol_version = ProtocolVersion ''2026-10-03'',
     en_controller_actions = [], en_csr_fingerprint = ''csr''\<rparr>"

definition sample_snapshot :: gateway_snapshot where
  "sample_snapshot = \<lparr>snap_generated_at = 15, snap_protocol = ProtocolDescriptor_default,
     snap_service = \<lparr>svc_name = None, svc_version = None, svc_attributes = []\<rparr>,
     snap_security = \<lparr>sec_mode = ''secured'', sec_exposure = ''lan'', sec_tls_required = True,
       sec_certificate_mode = ''step_ca'', sec_mutual_tls_mode = ''required'', sec_mutual_tls_enabled = True,
       sec_certificate_expires_at = None, sec_attributes = []\<rparr>,
     snap_runtime = \<lparr>rt_queue = [], rt_devices = [], rt_inventory = []\<rparr>,
     snap_capabilities = \<lparr>cap_supported_device_commands = [], cap_supported_controller_actions = [],
       cap_features = [], cap_transport = ''zenoh'', cap_client_certificate_present = True\<rparr>,
     snap_observability = []\<rparr>"

definition sample_limit :: invitation_attempt_limit where
  "sample_limit = \<lparr>lim_window = 100, lim_max_failures = 2\<rparr>"

definition created_invitation :: invitation_row where
  "created_invitation = sample_invitation\<lparr>iv_state := InvCreated, iv_enrolled_at := None,
     iv_bound_agent_id := None, iv_bound_key_id := None, iv_enrollment_fingerprint := None,
     iv_secret_digest := secret_digest (ex_sha256 sample_ext) (sample_code CHR ''Q'')\<rparr>"

definition invited_db :: gateway_db where
  "invited_db = sample_db\<lparr>invitations := [created_invitation]\<rparr>"

definition sample_enrolled :: "gateway_db \<times> unit prepared_enrollment gateway_result" where
  "sample_enrolled = enroll_agent sample_ext 20 21 22 (sample_code CHR ''Q'') sample_enrollment
     sample_snapshot sample_limit (Inr ()) invited_db"

lemma invited_db_ok: "state_ok invited_db"
  by code_simp

lemma sample_enrolled_ok: "is_ok (snd sample_enrolled)"
  by code_simp

lemma sample_invited:
  "find_by iv_invitation_id (invitation_id_str (ic_id (sample_code c))) (invitations invited_db) =
    Some created_invitation"
  by (simp add: invited_db_def sample_code_def created_invitation_def sample_invitation_def)

lemma sample_created: "iv_state created_invitation = InvCreated" "iv_expires_at created_invitation = 1000"
  by (simp_all add: created_invitation_def sample_invitation_def)

lemma sample_enrollment_kid:
  "jwk_key_id (en_public_jwk sample_enrollment) = Some (en_key_id sample_enrollment)"
  by (simp add: sample_enrollment_def)

section \<open>Properties\<close>

text \<open>
  C15. The attempt limit: once as many wrong secrets as the limit allows (at least one) were
  tried on an invitation within the window, every further request in that window is refused,
  a correct secret included, and the refusal changes nothing.
\<close>

theorem enrollment_throttle:
  assumes row: "find_by iv_invitation_id iid (invitations db) = Some i"
    and window: "duration_from_std (lim_window limit) = Some (lim_window limit)"
    and none: "filter (\<lambda>a. at_invitation_id a = iid) (invitation_attempts db) = []"
    and ok: "invitation_attempts_ok db"
    and times: "sorted_wrt (<) (map fst ts)" and count: "length ts = max (lim_max_failures limit) 1"
    and wrong: "\<forall>(t, c) \<in> set ts. now - lim_window limit \<le> t \<and> t \<le> now \<and>
      invitation_id_str (ic_id c) = iid \<and> iv_secret_digest i \<noteq> secret_digest (ex_sha256 ext) c"
    and code: "invitation_id_str (ic_id code) = iid"
  shows "enroll_agent ext now t2' t3' code e' snapshot' limit prepare'
      (enroll_attempts ext t2 t3 e snapshot limit prepare ts db) =
    (enroll_attempts ext t2 t3 e snapshot limit prepare ts db,
     Inl (Forbidden ''too many failed invitation attempts''))"
proof -
  let ?db = "enroll_attempts ext t2 t3 e snapshot limit prepare ts db"
  have rec: "invitations ?db = invitations db" "filter (\<lambda>a. at_invitation_id a = iid) (invitation_attempts ?db) =
      map (\<lambda>(t, code). \<lparr>at_invitation_id = iid, at_attempted_at = t\<rparr>) ts"
    using wrong_secrets_recorded [OF row window none ok times eq_refl [OF count] wrong,
        where ?t2.0 = t2 and ?t3.0 = t3 and e = e and snapshot = snapshot and prepare = prepare] by blast+
  have "now - lim_window limit \<le> at_attempted_at a"
    if "a \<in> set (invitation_attempts ?db)" "at_invitation_id a = iid" for a
  proof -
    have "a \<in> set (filter (\<lambda>a. at_invitation_id a = iid) (invitation_attempts ?db))" using that by simp
    then show ?thesis unfolding rec(2) using wrong by auto
  qed
  from recent_failures_keep [OF window this]
  have "recent_failures iid now (lim_window limit) ?db = Inr (?db, length ts)" by (simp add: rec(2))
  moreover have "find_by iv_invitation_id iid (invitations ?db) = Some i" using row rec(1) by simp
  ultimately show ?thesis
    using enroll_throttled [of code ?db i now limit ?db "length ts"] eq_refl [OF count [symmetric]] code by blast
qed

theorem enrollment_throttle_witness:
  "snd (enroll_agent sample_ext 40 41 42 (sample_code CHR ''Q'') sample_enrollment sample_snapshot
      sample_limit (Inr ()) (enroll_attempts sample_ext 41 42 sample_enrollment sample_snapshot sample_limit
        (Inr ()) [(20, sample_code CHR ''A''), (30, sample_code CHR ''B'')] invited_db)) =
    Inl (Forbidden ''too many failed invitation attempts'')"
proof -
  let ?ts = "[(20 :: instant, sample_code CHR ''A''), (30, sample_code CHR ''B'')]"
  have "iv_secret_digest created_invitation \<noteq> secret_digest (ex_sha256 sample_ext) (sample_code CHR ''A'')"
    "iv_secret_digest created_invitation \<noteq> secret_digest (ex_sha256 sample_ext) (sample_code CHR ''B'')"
    by code_simp+
  then have wrong: "\<forall>(t, c) \<in> set ?ts. 40 - lim_window sample_limit \<le> t \<and> t \<le> 40 \<and>
      invitation_id_str (ic_id c) = ''ABCDEFGHIJKL'' \<and>
      iv_secret_digest created_invitation \<noteq> secret_digest (ex_sha256 sample_ext) c"
    by (simp add: sample_limit_def sample_code_def)
  have window: "duration_from_std (lim_window sample_limit) = Some (lim_window sample_limit)"
    and count: "length ?ts = max (lim_max_failures sample_limit) 1" and times: "sorted_wrt (<) (map fst ?ts)"
    by (simp_all add: sample_limit_def duration_from_std_def i64_max_def)
  have none: "filter (\<lambda>a. at_invitation_id a = ''ABCDEFGHIJKL'') (invitation_attempts invited_db) = []"
    and ok: "invitation_attempts_ok invited_db"
    by (simp_all add: invited_db_def sample_db_def empty_db_def invitation_attempts_ok_def refers_def)
  have code: "invitation_id_str (ic_id (sample_code c)) = ''ABCDEFGHIJKL''" for c
    by (simp add: sample_code_def)
  show ?thesis
    unfolding enrollment_throttle [OF sample_invited [of "CHR ''Q''", unfolded code] window none ok times
        count wrong code]
    by simp
qed



text \<open>
  C20. Replay: after a first enrolment, the same request (any snapshot, any clock before the
  expiry) is answered with the original enrolment time and writes nothing, while a request
  of another Agent with the same invitation is refused and writes nothing.
\<close>

theorem enrollment_replay:
  assumes "state_ok db"
    and enroll: "enroll_agent ext t1 t2 t3 code e snapshot limit prepare db = (db', Inr p)"
    and row: "find_by iv_invitation_id (invitation_id_str (ic_id code)) (invitations db) = Some i"
    and created: "iv_state i = InvCreated"
    and kid: "jwk_key_id (en_public_jwk e) = Some (en_key_id e)"
    and clock: "t1' < iv_expires_at i" "t2' < iv_expires_at i"
    and window: "duration_from_std (lim_window limit') = Some (lim_window limit')"
  shows "enroll_agent ext t1' t2' t3' code e snapshot' limit' (Inr v) db' =
      (db', Inr \<lparr>pe_value = v, pe_enrolled_at = pe_enrolled_at p\<rparr>) \<and>
    (en_agent_id e' \<noteq> en_agent_id e \<longrightarrow>
      (\<exists>err. enroll_agent ext t1' t2' t3' code e' snapshot' limit' (Inr v) db' = (db', Inl err)))"
  using enroll
proof (cases rule: enroll_agent_cases)
  case (accepted j db1 n fp)
  have j: "j = i" "iv_invitation_id i = invitation_id_str (ic_id code)"
    using accepted(1) row find_by_Some [OF row] by simp_all
  have persist: "persist_enrollment ext t3 i e snapshot fp t1 db1 = Inr db'" and time: "pe_enrolled_at p = t1"
    using accepted(5) created j by (auto simp: accept_invitation_Inr)
  have ok1: "state_ok db1"
    using recent_failures_progress [OF accepted(2)] assms(1) by (simp add: db_progress_def)
  have row1: "find_by iv_invitation_id (iv_invitation_id i) (invitations db1) = Some i"
    using row recent_failures_frame [OF accepted(2)] j by simp
  note effect = persist_enrollment_effect [OF persist ok1 row1 created kid]
  let ?new = "enrolled_invitation i e snapshot fp t1"
  have new: "iv_state ?new = InvEnrolled" "iv_expires_at ?new = iv_expires_at i"
      "iv_secret_digest ?new = iv_secret_digest i" "iv_organization_id ?new = iv_organization_id i"
      "iv_site_id ?new = iv_site_id i" "iv_bound_agent_id ?new = Some (agent_str (en_agent_id e))"
    by (simp_all add: enrolled_invitation_def)
  have "recent_failures (invitation_id_str (ic_id code)) t1' (lim_window limit') db' = Inr (db', 0)"
    using effect(2) recent_failures_keep [OF window, of db' "invitation_id_str (ic_id code)" t1'] j
    by (auto simp: filter_empty_conv)
  then have body: "enroll_body ext t1' t2' t3' code x snapshot' limit' (Inr v) db' =
      enroll_checked ext t1' t2' t3' code x snapshot' limit' (Inr v) ?new 0 db'" for x
    using effect(1) j by (simp add: enroll_body_def)
  obtain at where agent: "find_by ag_agent_id (agent_str (en_agent_id e)) (agents db') =
      Some ((enrolled_agent e t1)\<lparr>ag_enrolled_at := at\<rparr>)"
    using effect(3) by blast
  then have "replayed_enrollment ?new e fp db' = Inr t1"
    by (simp add: replayed_enrollment_def enrolled_invitation_def enrolled_agent_def)
  then have "enroll_checked ext t1' t2' t3' code e snapshot' limit' (Inr v) ?new 0 db' =
      Inr (db', Inr \<lparr>pe_value = v, pe_enrolled_at = t1\<rparr>)"
    using accepted(4) j clock new by (simp add: enroll_checked_def accept_invitation_def invitation_accepted_def)
  moreover have "\<exists>err. enroll_checked ext t1' t2' t3' code e' snapshot' limit' (Inr v) ?new 0 db' = Inl err"
    if "en_agent_id e' \<noteq> en_agent_id e"
  proof -
    have "agent_str (en_agent_id e) \<noteq> agent_str (en_agent_id e')" using that by (metis agent_id.expand)
    then have "replayed_enrollment ?new e' f db' = Inl (Forbidden ''enrollment invitation is bound to another Agent'')" for f
      by (simp add: replayed_enrollment_def new)
    then show ?thesis
      using accepted(4) j clock new
      by (cases "enrollment_fingerprint ext e'") (auto simp: enroll_checked_def accept_invitation_def invitation_accepted_def)
  qed
  ultimately show ?thesis using body time by (auto simp: enroll_agent_def transaction_def)
qed (simp_all add: attempt_recorded_def)

theorem enrollment_replay_witness:
  "snd (enroll_agent sample_ext 500 501 502 (sample_code CHR ''Q'') sample_enrollment sample_snapshot
      sample_limit (Inr ''again'') (fst sample_enrolled)) =
    Inr \<lparr>pe_value = ''again'', pe_enrolled_at = pe_enrolled_at (projr (snd sample_enrolled))\<rparr>"
proof -
  obtain p where p: "enroll_agent sample_ext 20 21 22 (sample_code CHR ''Q'') sample_enrollment
      sample_snapshot sample_limit (Inr ()) invited_db = (fst sample_enrolled, Inr p)" "snd sample_enrolled = Inr p"
    using sample_enrolled_ok unfolding is_ok_iff by (metis sample_enrolled_def prod.collapse)
  have "duration_from_std (lim_window sample_limit) = Some (lim_window sample_limit)"
    by (simp add: sample_limit_def duration_from_std_def i64_max_def)
  note replay = enrollment_replay [OF invited_db_ok p(1) sample_invited sample_created(1) sample_enrollment_kid
      _ _ this, of 500 501, unfolded sample_created(2), simplified, THEN conjunct1]
  show ?thesis unfolding replay by (simp add: p(2))
qed

text \<open>
  C34. A refused enrolment changes nothing, except that a wrong secret adds its own attempt
  and forgets those outside the window.
\<close>

theorem enrollment_refusal_frame:
  assumes "enroll_agent ext t1 t2 t3 code e snapshot limit prepare db = (db', Inl err)"
  shows "db' = db \<or> (err = rejected_secret \<and> (\<exists>i.
    find_by iv_invitation_id (invitation_id_str (ic_id code)) (invitations db) = Some i \<and>
    iv_secret_digest i \<noteq> secret_digest (ex_sha256 ext) code \<and>
    db' = db\<lparr>invitation_attempts := delete_where
        (\<lambda>a. at_invitation_id a = invitation_id_str (ic_id code) \<and> at_attempted_at a < t1 - lim_window limit)
        (invitation_attempts db) @ [\<lparr>at_invitation_id = iv_invitation_id i, at_attempted_at = t1\<rparr>]\<rparr>))"
  using assms
proof (cases rule: enroll_agent_cases)
  case (wrong i db1 n)
  then show ?thesis
    using recent_failures_Inr(1) [OF wrong(2)]
    by (auto simp: attempt_recorded_def insert_invitation_attempt_def)
next
  case (accepted i db1 n fp)
  then show ?thesis by (auto simp: accept_invitation_Inr)
qed simp

theorem enrollment_refusal_frame_witness:
  "invitation_attempts (fst (enroll_agent sample_ext 20 21 22 (sample_code CHR ''A'') sample_enrollment
      sample_snapshot sample_limit (Inr ()) invited_db)) \<in>
    {[], [\<lparr>at_invitation_id = ''ABCDEFGHIJKL'', at_attempted_at = 20\<rparr>]}"
proof -
  let ?r = "enroll_agent sample_ext 20 21 22 (sample_code CHR ''A'') sample_enrollment
      sample_snapshot sample_limit (Inr ()) invited_db"
  have "\<not> is_ok (snd ?r)" by code_simp
  then obtain err where "?r = (fst ?r, Inl err)"
    by (cases "snd ?r") (simp_all add: prod_eq_iff is_ok_iff)
  from enrollment_refusal_frame [OF this] sample_invited show ?thesis
    by (auto simp: invited_db_def sample_db_def empty_db_def delete_where_def created_invitation_def
        sample_invitation_def sample_code_def)
qed

end
