(* ===== verification/Retirement.thy ===== *)
theory Retirement
  imports Enrollment
begin

text \<open>
  Retirement of an Agent's credentials (\<^verbatim>\<open>inari-gateway/src/persistence/retirement.rs\<close>): both
  key purposes, the bound invitations and the device projection end in one transaction.
  The row locks of the source order concurrent transactions and read nothing else.
\<close>

section \<open>Definitions\<close>

definition active_key_of :: "string \<Rightarrow> agent_key_row \<Rightarrow> bool" where
  "active_key_of agent_id k \<longleftrightarrow> ak_agent_id k = agent_id \<and> ak_retired_at k = None"

definition bound_and_open :: "string \<Rightarrow> invitation_row \<Rightarrow> bool" where
  "bound_and_open agent_id i \<longleftrightarrow>
    iv_bound_agent_id i = Some agent_id \<and> iv_state i \<in> {InvEnrolled, InvOnline}"

definition close_agent :: "string \<Rightarrow> instant \<Rightarrow> gateway_db \<Rightarrow> gateway_db" where
  "close_agent agent_id now db =
    db\<lparr>invitations := update_where (bound_and_open agent_id)
         (\<lambda>i. i\<lparr>iv_state := InvRevoked, iv_revoked_at := Some now\<rparr>) (invitations db),
       devices := delete_where (\<lambda>d. dv_agent_id d = agent_id) (devices db)\<rparr>"

definition retire_agent_credentials ::
    "instant \<Rightarrow> instant \<Rightarrow> organization_id \<Rightarrow> agent_id \<Rightarrow> audit_context \<Rightarrow> gateway_db \<Rightarrow>
     gateway_db \<times> unit gateway_result" where
  "retire_agent_credentials now audited_at organization_id agent_id audit =
    transaction (\<lambda>db.
      and_then (ok_or (NotFound ''Agent was not found'')
                  (find_by ag_agent_id (agent_str agent_id) (agents db))) (\<lambda>agent.
      if ag_organization_id agent \<noteq> organization_str organization_id then
        Inl (NotFound ''Agent was not found'')
      else
        let rows_affected = length (filter (active_key_of (agent_str agent_id)) (agent_keys db)) in
        and_then (retire_agent_keys (active_key_of (agent_str agent_id)) now db) (\<lambda>db.
        let db = close_agent (agent_str agent_id) now db in
        if rows_affected > 0 then
          and_then (insert_audit_event audited_at
            \<lparr>dr_organization_id = organization_id, dr_actor_id = ctx_actor_id audit,
             dr_action = ActionAgentCredentialsRetired, dr_resource = ResourceAgent agent_id,
             dr_outcome = OutcomeSucceeded, dr_request_id = ctx_request_id audit\<rparr> db) (\<lambda>db.
          Inr (db, Inr ()))
        else Inr (db, Inr ()))))"

section \<open>Lemmas\<close>

lemma close_agent_progress: "db_progress db (close_agent agent_id now db)"
proof -
  let ?db = "db\<lparr>invitations := update_where (bound_and_open agent_id)
         (\<lambda>i. i\<lparr>iv_state := InvRevoked, iv_revoked_at := Some now\<rparr>) (invitations db)\<rparr>"
  have "db_progress db ?db"
    by (rule update_invitations_progress) (auto simp: bound_and_open_def invitation_evolves_def)
  moreover have "db_progress ?db (close_agent agent_id now db)"
    using delete_devices_progress [of ?db] by (simp add: close_agent_def)
  ultimately show ?thesis by (rule progress.trans)
qed

lemma retire_agent_credentials_cases:
  assumes "retire_agent_credentials now t org agent audit db = (db', r)"
  obtains (refused) err where "db' = db" "r = Inl err"
  | (retired) a db1 where "find_by ag_agent_id (agent_str agent) (agents db) = Some a"
      "ag_organization_id a = organization_str org"
      "retire_agent_keys (active_key_of (agent_str agent)) now db = Inr db1" "r = Inr ()"
      "\<exists>es. db' = (close_agent (agent_str agent) now db1)\<lparr>audit_events := audit_events db1 @ es\<rparr> \<and>
         (filter (active_key_of (agent_str agent)) (agent_keys db) = [] \<longrightarrow> es = [])"
      "db_progress db db'"
proof (cases r)
  case (Inl err)
  then have "db' = db"
    using assms by (auto simp: retire_agent_credentials_def transaction_eq and_then_eq_Inr Let_def split: if_splits)
  then show ?thesis using Inl refused by blast
next
  case (Inr u)
  let ?A = "agent_str agent"
  let ?n = "length (filter (active_key_of ?A) (agent_keys db))"
  let ?draft = "\<lparr>dr_organization_id = org, dr_actor_id = ctx_actor_id audit,
     dr_action = ActionAgentCredentialsRetired, dr_resource = ResourceAgent agent,
     dr_outcome = OutcomeSucceeded, dr_request_id = ctx_request_id audit\<rparr>"
  obtain a db1 where a: "find_by ag_agent_id ?A (agents db) = Some a" "ag_organization_id a = organization_str org"
    and ret: "retire_agent_keys (active_key_of ?A) now db = Inr db1"
    and fin: "if ?n > 0 then insert_audit_event t ?draft (close_agent ?A now db1) = Inr db'
      else db' = close_agent ?A now db1"
    using assms Inr
    by (auto simp: retire_agent_credentials_def transaction_eq and_then_eq_Inr ok_or_eq_Inr Let_def
        split: if_splits)
  have p1: "db_progress db db1" by (rule retire_agent_keys_progress [OF ret]) (simp add: active_key_of_def)
  have "\<exists>es. db' = (close_agent ?A now db1)\<lparr>audit_events := audit_events db1 @ es\<rparr> \<and>
      (filter (active_key_of ?A) (agent_keys db) = [] \<longrightarrow> es = [])"
  proof (cases "?n > 0")
    case True
    have "audit_events (close_agent ?A now db1) = audit_events db1" by (simp add: close_agent_def)
    then have "db' = (close_agent ?A now db1)\<lparr>audit_events := audit_events db1 @
        [audit_row t ?draft (close_agent ?A now db1)]\<rparr>"
      using fin True by (simp add: insert_audit_event_def insert_audit_row_def)
    moreover have "filter (active_key_of ?A) (agent_keys db) \<noteq> []" using True by (simp del: filter_empty_conv)
    ultimately show ?thesis by blast
  next
    case False
    then have "db' = (close_agent ?A now db1)\<lparr>audit_events := audit_events db1 @ []\<rparr>"
      using fin by (simp add: close_agent_def)
    then show ?thesis by blast
  qed
  moreover have "db_progress (close_agent ?A now db1) db'"
    using fin insert_audit_event_progress progress.refl by (auto split: if_splits)
  then have "db_progress db db'" using p1 close_agent_progress by (blast intro: progress.trans)
  ultimately show ?thesis using retired a ret Inr by (cases u) blast
qed

lemma retired_keys_inactive:
  assumes "retire_agent_keys (active_key_of agent_id) now db = Inr db1" and "k \<in> set (agent_keys db1)"
  shows "\<not> active_key_of agent_id k"
  using assms(2) unfolding retire_agent_keys_keys(1) [OF assms(1)]
  by (cases rule: update_where_member) (simp_all add: active_key_of_def)

lemma no_active_keys_inactive:
  assumes "\<And>k. k \<in> set (agent_keys db) \<Longrightarrow> \<not> active_key_of agent_id k"
  shows "\<not> is_active_agent db org agent_id"
  using assms by (auto simp: is_active_agent_def has_active_keys_def active_key_of_def)

text \<open>The retirement of an active key withdraws the admissions of its organization.\<close>

lemma retired_admissions_stale:
  assumes "state_ok db" and "retire_agent_credentials now t org agent audit db = (db', Inr ())"
    and "adm_organization_id adm = organization_str org" and "admission_known adm db"
    and "k \<in> set (agent_keys db)" and "active_key_of (agent_str agent) k"
  shows "admission_stale adm db'"
  using assms(2)
proof (cases rule: retire_agent_credentials_cases)
  case (retired a db1)
  have "admission_stale adm db1"
    using assms(1,3-6) retired(1,2)
    by (intro retire_agent_keys_stale [OF retired(3)]) (auto simp: state_ok_def active_key_of_def)
  then show ?thesis using retired(5) by (auto simp: admission_stale_def close_agent_def)
qed simp

text \<open>A retired key identifier is refused for every later registration.\<close>

lemma retired_key_refused:
  assumes "find_by ak_key_id kid (agent_keys db) = Some k" and "ak_retired_at k \<noteq> None"
    and "jwk_key_id jwk = Some kid"
  shows "register_verification_key thumb agent_id now (purpose, jwk) db =
    Inl (Conflict ''verification key identity is immutable and retirement is permanent'')"
  using assms by (simp add: register_verification_key_def)

lemma keys_evolve_retired:
  assumes "keys_evolve db db'" and "find_by ak_key_id kid (agent_keys db) = Some k" and "ak_retired_at k \<noteq> None"
  shows "\<exists>l. find_by ak_key_id kid (agent_keys db') = Some l \<and> ak_retired_at l \<noteq> None"
proof -
  obtain l where "find_by ak_key_id kid (agent_keys db') = Some l" "key_evolves k l"
    using assms(1,2) unfolding keys_evolve_def by blast
  then show ?thesis using assms(3) by (auto simp: key_evolves_def)
qed

lemma retired_key_never_enrolled:
  assumes "find_by ak_key_id kid (agent_keys db) = Some k" and "ak_retired_at k \<noteq> None"
    and "Some kid \<in> {jwk_key_id (en_public_jwk e), jwk_key_id (en_state_signing_jwk e)}"
  shows "persist_enrollment ext t3 i e snapshot fp now db \<noteq> Inr db'"
proof
  assume "persist_enrollment ext t3 i e snapshot fp now db = Inr db'"
  from persist_enrollment_phases [OF this] obtain items db1 db2 where
    agent: "persist_agent items e snapshot now db = Inr db1"
    and "try_fold (register_verification_key (ex_thumbprint ext) (agent_str (en_agent_id e)) now)
      [(TransportIdentity, en_public_jwk e), (AgentState, en_state_signing_jwk e)] db1 = Inr db2"
    by blast
  then obtain dbm where
    r1: "register_verification_key (ex_thumbprint ext) (agent_str (en_agent_id e)) now
      (TransportIdentity, en_public_jwk e) db1 = Inr dbm"
    and r2: "register_verification_key (ex_thumbprint ext) (agent_str (en_agent_id e)) now
      (AgentState, en_state_signing_jwk e) dbm = Inr db2"
    by (auto simp: and_then_eq_Inr)
  have "agent_keys db1 = agent_keys db" using persist_agent_frame [OF agent] by auto
  then have k1: "find_by ak_key_id kid (agent_keys db1) = Some k" using assms(1) by simp
  have "keys_evolve db1 dbm" using register_verification_key_progress [OF r1] by (simp add: db_progress_def)
  from keys_evolve_retired [OF this k1 assms(2)] obtain l where
    "find_by ak_key_id kid (agent_keys dbm) = Some l" "ak_retired_at l \<noteq> None" by blast
  then show False
    using assms(2,3) k1 r1 r2 retired_key_refused by force
qed

section \<open>A concrete retirement\<close>

definition sample_retired :: "gateway_db \<times> unit gateway_result" where
  "sample_retired = retire_agent_credentials 30 31 (OrganizationId ''org_a'') (AgentId ''agt_a'')
     \<lparr>ctx_actor_id = ActorId ''oidc:x'', ctx_request_id = None\<rparr> invited_db"

lemma sample_retired_ok: "snd sample_retired = Inr ()"
  by code_simp

lemma sample_retired_eq:
  "retire_agent_credentials 30 31 (OrganizationId ''org_a'') (AgentId ''agt_a'')
     \<lparr>ctx_actor_id = ActorId ''oidc:x'', ctx_request_id = None\<rparr> invited_db = (fst sample_retired, Inr ())"
  by (metis sample_retired_def sample_retired_ok prod.collapse)

section \<open>Properties\<close>



text \<open>
  C11. Retired credentials never come back: in every later state of the database, a first
  enrolment that presents one of the Agent's retired keys, as transport key or as state
  key, is refused.
\<close>

theorem retired_credentials_final:
  assumes "state_ok db"
    and retire: "retire_agent_credentials now t org agent audit db = (db', Inr ())"
    and key: "find_by ak_key_id kid (agent_keys db) = Some k" "ak_agent_id k = agent_str agent"
    and later: "db_progress db' db''"
    and row: "find_by iv_invitation_id (invitation_id_str (ic_id code)) (invitations db'') = Some i"
    and created: "iv_state i = InvCreated"
    and reuse: "Some kid \<in> {jwk_key_id (en_public_jwk e), jwk_key_id (en_state_signing_jwk e)}"
  shows "\<exists>err. snd (enroll_agent ext t1 t2 t3 code e snapshot limit prepare db'') = Inl err"
proof -
  have prog: "db_progress db db'" and none: "\<And>l. l \<in> set (agent_keys db') \<Longrightarrow> \<not> active_key_of (agent_str agent) l"
    using retire
    by (cases rule: retire_agent_credentials_cases;
        auto dest: retired_keys_inactive simp: close_agent_def)+
  obtain l where l: "find_by ak_key_id kid (agent_keys db') = Some l" "key_evolves k l"
    using prog key(1) unfolding db_progress_def keys_evolve_def by blast
  then have "ak_retired_at l \<noteq> None"
    using none [of l] find_by_Some [OF l(1)] key(2) by (auto simp: active_key_of_def key_evolves_def)
  with keys_evolve_retired l(1) later obtain m where
    m: "find_by ak_key_id kid (agent_keys db'') = Some m" "ak_retired_at m \<noteq> None"
    unfolding db_progress_def by blast
  obtain db3 r where enroll: "enroll_agent ext t1 t2 t3 code e snapshot limit prepare db'' = (db3, r)" by fastforce
  then show ?thesis
  proof (cases rule: enroll_agent_cases)
    case (accepted j db1 n fp)
    have "agent_keys db1 = agent_keys db''" by (rule recent_failures_frame(3) [OF accepted(2)])
    then have "persist_enrollment ext t3 j e snapshot fp t1 db1 \<noteq> Inr db3"
      using retired_key_never_enrolled [OF _ m(2) reuse] m(1) by metis
    then show ?thesis using accepted(1,5) row created by (auto simp: accept_invitation_Inr)
  qed (simp_all add: enroll attempt_recorded_def)
qed

theorem retired_credentials_final_witness:
  "\<exists>err. snd (enroll_agent sample_ext 40 41 42 (sample_code CHR ''Q'')
      (sample_enrollment\<lparr>en_public_jwk := sample_jwk\<rparr>) sample_snapshot sample_limit (Inr ())
      (fst sample_retired)) = Inl err"
proof (rule retired_credentials_final [OF invited_db_ok sample_retired_eq _ _ progress.refl])
  show "find_by ak_key_id ''kid_a'' (agent_keys invited_db) = Some sample_key"
    by (simp add: invited_db_def sample_db_def sample_key_def)
  show "ak_agent_id sample_key = agent_str (AgentId ''agt_a'')" by (simp add: sample_key_def)
  have "(case find_by iv_invitation_id ''ABCDEFGHIJKL'' (invitations (fst sample_retired)) of
      None \<Rightarrow> False | Some i \<Rightarrow> iv_state i = InvCreated)"
    by code_simp
  then obtain i where "find_by iv_invitation_id ''ABCDEFGHIJKL'' (invitations (fst sample_retired)) = Some i"
      "iv_state i = InvCreated"
    by (auto split: option.splits)
  then show "find_by iv_invitation_id (invitation_id_str (ic_id (sample_code CHR ''Q'')))
      (invitations (fst sample_retired)) =
      Some (the (find_by iv_invitation_id ''ABCDEFGHIJKL'' (invitations (fst sample_retired))))"
    and "iv_state (the (find_by iv_invitation_id ''ABCDEFGHIJKL'' (invitations (fst sample_retired)))) = InvCreated"
    by (simp_all add: sample_code_def)
qed (simp add: sample_jwk_def)

end
