(* ===== verification/Credentials.thy ===== *)
theory Credentials
  imports Protocol
begin

text \<open>
  Validation of the keys and the certificate request an Agent presents
  (\<^verbatim>\<open>inari-gateway/src/security.rs\<close>).  Base64url, hex, SHA-256, Ed25519, JWK thumbprints and
  X.509 parsing are libraries: they are the fields of \<open>key_library\<close> and \<open>csr_library\<close>.
\<close>

section \<open>Definitions\<close>

record key_library =
  kl_base64url_decode :: "string \<Rightarrow> bytes option"
  kl_base64url_encode :: "bytes \<Rightarrow> string"
  kl_hex :: "bytes \<Rightarrow> string"
  kl_sha256 :: "bytes \<Rightarrow> bytes"
  kl_thumbprint :: "jwk \<Rightarrow> string"
  kl_ed25519_valid :: "bytes \<Rightarrow> bool"
  kl_ed25519_weak :: "bytes \<Rightarrow> bool"
  kl_ed25519_verify_strict :: "bytes \<Rightarrow> bytes \<Rightarrow> bytes \<Rightarrow> bool"

text \<open>What the source reads of a parsed certificate request.\<close>

datatype general_name = URI string | OtherName string
datatype parsed_extension = SubjectAlternativeName "general_name list" | OtherExtension string

record certification_request =
  csr_signature_valid :: bool
  csr_public_key :: bytes
  csr_subject_attributes :: nat
  csr_common_names :: "string option list"
  csr_attributes_unique :: bool
  csr_requested_extensions :: "parsed_extension list option"

record csr_library =
  cl_parse_pem :: "bytes \<Rightarrow> (bytes \<times> bytes) option"
  cl_from_der :: "bytes \<Rightarrow> (bytes \<times> certification_request) option"

record validated_identity =
  vi_key_id :: string
  vi_jwk_thumbprint :: string
  vi_public_key :: bytes
  vi_csr_fingerprint :: string

record validated_dispatch_key =
  vd_key_id :: string
  vd_public_key :: bytes
  vd_fingerprint :: string

definition array32 :: "gateway_error \<Rightarrow> bytes \<Rightarrow> bytes gateway_result" where
  "array32 e b = (if length b = 32 then Inr b else Inl e)"

definition state_verifying_key :: "key_library \<Rightarrow> jwk \<Rightarrow> bytes gateway_result" where
  "state_verifying_key lib jwk =
    (if jwk_key_algorithm jwk \<noteq> Some EdDSA \<or> jwk_public_key_use jwk \<noteq> Some Signature \<or>
        jwk_key_operations jwk \<noteq> None
     then Inl (InvalidInput ''Agent State JWK must declare EdDSA and sig'')
     else case jwk_algorithm jwk of
       OtherParameters _ \<Rightarrow> Inl (InvalidInput ''Agent State JWK must be an OKP key'')
     | OctetKeyPair curve x \<Rightarrow>
       if curve \<noteq> Ed25519 then Inl (InvalidInput ''Agent State JWK curve must be Ed25519'')
       else
         and_then (ok_or (InvalidInput ''Agent State JWK x is not canonical base64url'')
                     (kl_base64url_decode lib x)) (\<lambda>decoded.
         and_then (array32 (InvalidInput ''Agent State public keys must be 32 bytes'') decoded) (\<lambda>public_key.
         if \<not> kl_ed25519_valid lib public_key then Inl (InvalidInput ''Agent State public key is invalid'')
         else if kl_ed25519_weak lib public_key then
           Inl (InvalidInput ''Agent State requires a separate, valid signing key'')
         else if jwk_key_id jwk \<noteq> Some (''agent_state_'' @ kl_hex lib (kl_sha256 lib public_key)) then
           Inl (InvalidInput ''Agent State kid must identify its public key'')
         else Inr public_key)))"

definition validate_state_signing_key :: "key_library \<Rightarrow> jwk \<Rightarrow> bytes \<Rightarrow> unit gateway_result" where
  "validate_state_signing_key lib jwk identity_key =
    and_then (state_verifying_key lib jwk) (\<lambda>key.
      if key = identity_key then Inl (InvalidInput ''Agent State requires a separate signing key'')
      else Inr ())"

definition dispatch_key_id_byte :: "char \<Rightarrow> bool" where
  "dispatch_key_id_byte c \<longleftrightarrow> is_ascii_alphanumeric c \<or> c = CHR ''_'' \<or> c = CHR ''-''"

text \<open>The source's KEM enumeration has one value, so its check of the KEM never fails.\<close>

definition validate_dispatch_key ::
    "key_library \<Rightarrow> dispatch_encryption_key \<Rightarrow> validated_dispatch_key gateway_result" where
  "validate_dispatch_key lib key =
    (if dk_key_id key = [] \<or> length (dk_key_id key) > 256 \<or>
        \<not> list_all dispatch_key_id_byte (dk_key_id key)
     then Inl (InvalidInput
       ''dispatch key IDs must use 1 to 256 ASCII letters, digits, hyphens, or underscores'')
     else if dk_kem key \<noteq> DhkemX25519HkdfSha256 then Inl (InvalidInput ''unsupported dispatch KEM'')
     else
       and_then (ok_or (InvalidInput ''dispatch public key is not base64url'')
                   (kl_base64url_decode lib (dk_public_key_base64url key))) (\<lambda>decoded.
       and_then (array32 (InvalidInput ''X25519 public keys must be 32 bytes'') decoded) (\<lambda>public_key.
       if list_all (\<lambda>b. byte_of b = 0) public_key then
         Inl (InvalidInput ''X25519 public keys must not be the all-zero value'')
       else Inr \<lparr>vd_key_id = dk_key_id key, vd_public_key = public_key,
                 vd_fingerprint = kl_base64url_encode lib (kl_sha256 lib public_key)\<rparr>)))"

definition validate_certificate_subject :: "certification_request \<Rightarrow> agent_id \<Rightarrow> unit gateway_result" where
  "validate_certificate_subject csr agent_id =
    (if csr_subject_attributes csr \<noteq> 1 \<or>
        (case csr_common_names csr of [] \<Rightarrow> None | name # _ \<Rightarrow> name) \<noteq> Some (agent_str agent_id)
     then Inl (InvalidInput ''certificate subject must contain only the Agent ID common name'')
     else Inr ())"

fun subject_alternative_names :: "parsed_extension list \<Rightarrow> general_name list list" where
  "subject_alternative_names [] = []"
| "subject_alternative_names (SubjectAlternativeName names # es) = names # subject_alternative_names es"
| "subject_alternative_names (OtherExtension _ # es) = subject_alternative_names es"

definition validate_certificate_names :: "parsed_extension list \<Rightarrow> agent_id \<Rightarrow> unit gateway_result" where
  "validate_certificate_names extensions agent_id =
    (case subject_alternative_names extensions of
       [names] \<Rightarrow>
         if names = [URI (''urn:inari:'' @ agent_str agent_id)] then Inr ()
         else Inl (InvalidInput ''certificate names must contain only the Agent Identity URI SAN'')
     | _ \<Rightarrow> Inl (InvalidInput ''certificate names must contain only the Agent Identity URI SAN''))"

text \<open>The public key of the JWK and its binding to the Agent: the first half of \<^verbatim>\<open>validate_identity\<close>.\<close>

definition identity_public_key ::
    "key_library \<Rightarrow> agent_id \<Rightarrow> string \<Rightarrow> jwk \<Rightarrow> bytes gateway_result" where
  "identity_public_key lib agent_id key_id jwk =
    (if jwk_key_id jwk \<noteq> Some key_id then Inl (InvalidInput ''public JWK kid must match key_id'')
     else if jwk_key_algorithm jwk \<noteq> Some EdDSA then Inl (InvalidInput ''public JWK alg must be EdDSA'')
     else if \<not> (jwk_public_key_use jwk = None \<or> jwk_public_key_use jwk = Some Signature) then
       Inl (InvalidInput ''public JWK use must be sig'')
     else case jwk_algorithm jwk of
       OtherParameters _ \<Rightarrow> Inl (InvalidInput ''public JWK must be an OKP key'')
     | OctetKeyPair curve x \<Rightarrow>
       if curve \<noteq> Ed25519 then Inl (InvalidInput ''public JWK curve must be Ed25519'')
       else
         and_then (ok_or (InvalidInput ''public JWK x is not valid base64url'')
                     (kl_base64url_decode lib x)) (\<lambda>decoded.
         and_then (array32 (InvalidInput ''Ed25519 public key must be 32 bytes'') decoded) (\<lambda>public_key.
         if \<not> kl_ed25519_valid lib public_key then Inl (InvalidInput ''Ed25519 public key is invalid'')
         else if kl_ed25519_weak lib public_key then
           Inl (InvalidInput ''Ed25519 public key must not be weak'')
         else
           let digest = kl_hex lib (kl_sha256 lib public_key) in
           if agent_str agent_id \<noteq> ''agt_'' @ take 24 digest \<or> key_id \<noteq> ''kid_'' @ take 12 digest
           then Inl (InvalidInput ''Agent ID and key ID must identify the public JWK key'')
           else Inr public_key)))"

text \<open>The certificate request: the second half, with the DER contents it returns.\<close>

definition identity_request ::
    "csr_library \<Rightarrow> agent_id \<Rightarrow> bytes \<Rightarrow> string \<Rightarrow> bytes gateway_result" where
  "identity_request csrs agent_id public_key csr_pem =
    and_then (ok_or (InvalidInput ''CSR is not valid PEM'') (cl_parse_pem csrs csr_pem)) (\<lambda>(rest, contents).
    if list_ex (\<lambda>b. \<not> is_ascii_whitespace b) rest then
      Inl (InvalidInput ''CSR must contain one PEM request'')
    else and_then (ok_or (InvalidInput ''CSR is not valid PKCS#10 DER'') (cl_from_der csrs contents)) (\<lambda>(rest, csr).
    if rest \<noteq> [] then Inl (InvalidInput ''CSR contains trailing DER data'')
    else if \<not> csr_signature_valid csr then Inl (InvalidInput ''CSR signature is invalid'')
    else if csr_public_key csr \<noteq> public_key then
      Inl (InvalidInput ''CSR public key does not match public JWK'')
    else and_then (validate_certificate_subject csr agent_id) (\<lambda>_.
    if \<not> csr_attributes_unique csr then Inl (InvalidInput ''CSR contains duplicate attributes'')
    else and_then (validate_certificate_names
           (case csr_requested_extensions csr of None \<Rightarrow> [] | Some es \<Rightarrow> es) agent_id) (\<lambda>_.
    Inr contents))))"

definition validate_identity ::
    "key_library \<Rightarrow> csr_library \<Rightarrow> agent_id \<Rightarrow> string \<Rightarrow> jwk \<Rightarrow> string \<Rightarrow>
     validated_identity gateway_result" where
  "validate_identity lib csrs agent_id key_id jwk csr_pem =
    and_then (identity_public_key lib agent_id key_id jwk) (\<lambda>public_key.
    and_then (identity_request csrs agent_id public_key csr_pem) (\<lambda>contents.
    Inr \<lparr>vi_key_id = key_id, vi_jwk_thumbprint = kl_thumbprint lib jwk, vi_public_key = public_key,
         vi_csr_fingerprint = kl_base64url_encode lib (kl_sha256 lib contents)\<rparr>))"

section \<open>Lemmas\<close>

lemma array32_Inr [simp]: "array32 e b = Inr c \<longleftrightarrow> length b = 32 \<and> c = b"
  by (auto simp: array32_def)

lemma state_verifying_key_Inr:
  "state_verifying_key lib jwk = Inr key \<longleftrightarrow>
    (\<exists>x. jwk_key_algorithm jwk = Some EdDSA \<and> jwk_public_key_use jwk = Some Signature \<and>
      jwk_key_operations jwk = None \<and> jwk_algorithm jwk = OctetKeyPair Ed25519 x \<and>
      kl_base64url_decode lib x = Some key \<and> length key = 32 \<and> kl_ed25519_valid lib key \<and>
      \<not> kl_ed25519_weak lib key \<and> jwk_key_id jwk = Some (''agent_state_'' @ kl_hex lib (kl_sha256 lib key)))"
  by (auto simp: state_verifying_key_def and_then_eq_Inr ok_or_eq_Inr
      split: algorithm_parameters.splits if_splits)

lemma identity_public_key_Inr:
  "identity_public_key lib agent_id key_id jwk = Inr key \<longleftrightarrow>
    (\<exists>x. jwk_key_id jwk = Some key_id \<and> jwk_key_algorithm jwk = Some EdDSA \<and>
      (jwk_public_key_use jwk = None \<or> jwk_public_key_use jwk = Some Signature) \<and>
      jwk_algorithm jwk = OctetKeyPair Ed25519 x \<and> kl_base64url_decode lib x = Some key \<and>
      length key = 32 \<and> kl_ed25519_valid lib key \<and> \<not> kl_ed25519_weak lib key \<and>
      agent_str agent_id = ''agt_'' @ take 24 (kl_hex lib (kl_sha256 lib key)) \<and>
      key_id = ''kid_'' @ take 12 (kl_hex lib (kl_sha256 lib key)))"
  by (auto simp: identity_public_key_def and_then_eq_Inr ok_or_eq_Inr Let_def
      split: algorithm_parameters.splits if_splits)

lemma validate_certificate_names_Inr:
  "validate_certificate_names es agent_id = Inr () \<longleftrightarrow>
    subject_alternative_names es = [[URI (''urn:inari:'' @ agent_str agent_id)]]"
  by (auto simp: validate_certificate_names_def split: list.splits)

lemma identity_request_Inr:
  assumes "identity_request csrs agent_id public_key csr_pem = Inr contents"
  shows "\<exists>rest csr. cl_parse_pem csrs csr_pem = Some (rest, contents) \<and> cl_from_der csrs contents = Some ([], csr) \<and>
    csr_signature_valid csr \<and> csr_public_key csr = public_key \<and> csr_subject_attributes csr = 1 \<and>
    (\<exists>names. csr_common_names csr = Some (agent_str agent_id) # names) \<and>
    (\<exists>es. csr_requested_extensions csr = Some es \<and>
      subject_alternative_names es = [[URI (''urn:inari:'' @ agent_str agent_id)]])"
  using assms
  by (auto simp: identity_request_def and_then_eq_Inr ok_or_eq_Inr validate_certificate_subject_def
      validate_certificate_names_Inr split: if_splits list.splits option.splits)

section \<open>A concrete library\<close>

text \<open>Identity encodings and a length-preserving digest are enough to evaluate the checks.\<close>

definition sample_key_bytes :: "char \<Rightarrow> bytes" where
  "sample_key_bytes c = replicate 32 c"

definition sample_keys :: key_library where
  "sample_keys = \<lparr>kl_base64url_decode = Some, kl_base64url_encode = (\<lambda>b. b), kl_hex = (\<lambda>b. b @ b),
     kl_sha256 = (\<lambda>b. b), kl_thumbprint = (\<lambda>j. ''t''), kl_ed25519_valid = (\<lambda>b. True),
     kl_ed25519_weak = (\<lambda>b. False), kl_ed25519_verify_strict = (\<lambda>k m s. s = k @ k)\<rparr>"

definition sample_transport_jwk :: jwk where
  "sample_transport_jwk = \<lparr>jwk_key_id = Some (''kid_'' @ replicate 12 CHR ''a''),
     jwk_key_algorithm = Some EdDSA, jwk_public_key_use = Some Signature, jwk_key_operations = None,
     jwk_algorithm = OctetKeyPair Ed25519 (sample_key_bytes CHR ''a'')\<rparr>"

definition sample_state_jwk :: jwk where
  "sample_state_jwk = \<lparr>jwk_key_id = Some (''agent_state_'' @ replicate 64 CHR ''b''),
     jwk_key_algorithm = Some EdDSA, jwk_public_key_use = Some Signature, jwk_key_operations = None,
     jwk_algorithm = OctetKeyPair Ed25519 (sample_key_bytes CHR ''b'')\<rparr>"

definition sample_agent_id :: agent_id where
  "sample_agent_id = AgentId (''agt_'' @ replicate 24 CHR ''a'')"

definition sample_csrs :: csr_library where
  "sample_csrs = \<lparr>cl_parse_pem = (\<lambda>b. Some ([], b)), cl_from_der = (\<lambda>b. Some ([],
     \<lparr>csr_signature_valid = True, csr_public_key = sample_key_bytes CHR ''a'', csr_subject_attributes = 1,
      csr_common_names = [Some (agent_str sample_agent_id)], csr_attributes_unique = True,
      csr_requested_extensions = Some [SubjectAlternativeName
        [URI (''urn:inari:'' @ agent_str sample_agent_id)]]\<rparr>))\<rparr>"

section \<open>Properties\<close>

text \<open>
  C23. An Agent identity is bound to its key: when the transport identity and the state key
  both validate, the Agent ID and both key IDs are functions of the public keys, the
  certificate request is signed, carries that same key and names exactly this Agent, the
  two purposes use different keys and different key IDs, and no other Agent ID validates
  with the same public key.
\<close>

theorem identity_binds_key:
  assumes identity: "validate_identity lib csrs agent_id key_id jwk csr_pem = Inr v"
    and state: "validate_state_signing_key lib state_jwk (vi_public_key v) = Inr ()"
  shows "agent_str agent_id = ''agt_'' @ take 24 (kl_hex lib (kl_sha256 lib (vi_public_key v))) \<and>
    jwk_key_id jwk = Some key_id \<and> key_id = ''kid_'' @ take 12 (kl_hex lib (kl_sha256 lib (vi_public_key v))) \<and>
    (\<exists>contents csr es. cl_from_der csrs contents = Some ([], csr) \<and> csr_signature_valid csr \<and>
      csr_public_key csr = vi_public_key v \<and> csr_requested_extensions csr = Some es \<and>
      subject_alternative_names es = [[URI (''urn:inari:'' @ agent_str agent_id)]] \<and>
      vi_csr_fingerprint v = kl_base64url_encode lib (kl_sha256 lib contents)) \<and>
    (\<exists>state_key. state_verifying_key lib state_jwk = Inr state_key \<and> state_key \<noteq> vi_public_key v) \<and>
    jwk_key_id state_jwk \<noteq> Some key_id \<and>
    (\<forall>agent_id' key_id' jwk' csr_pem' v'.
      validate_identity lib csrs agent_id' key_id' jwk' csr_pem' = Inr v' \<and> vi_public_key v' = vi_public_key v \<longrightarrow>
      agent_id' = agent_id \<and> key_id' = key_id)"
proof -
  have parts: "identity_public_key lib a k j = Inr (vi_public_key w)"
    if "validate_identity lib csrs a k j p = Inr w" for a k j p w
    using that by (auto simp: validate_identity_def and_then_eq_Inr)
  obtain contents where request: "identity_request csrs agent_id (vi_public_key v) csr_pem = Inr contents"
      and fp: "vi_csr_fingerprint v = kl_base64url_encode lib (kl_sha256 lib contents)"
    using identity by (auto simp: validate_identity_def and_then_eq_Inr)
  have state_key: "\<exists>k. state_verifying_key lib state_jwk = Inr k \<and> k \<noteq> vi_public_key v"
    using state by (auto simp: validate_state_signing_key_def and_then_eq_Inr split: if_splits)
  then have "jwk_key_id state_jwk \<noteq> Some key_id"
    using parts [OF identity] by (auto simp: state_verifying_key_Inr identity_public_key_Inr)
  moreover have "agent_id' = agent_id \<and> key_id' = key_id"
    if "validate_identity lib csrs agent_id' key_id' jwk' p' = Inr v'" "vi_public_key v' = vi_public_key v"
    for agent_id' key_id' jwk' p' v'
    using parts [OF that(1)] parts [OF identity] that(2)
    by (auto simp: identity_public_key_Inr intro: agent_id.expand)
  ultimately show ?thesis
    using parts [OF identity] identity_request_Inr [OF request] fp state_key
    by (auto simp: identity_public_key_Inr)
qed

theorem identity_binds_key_witness:
  "jwk_key_id sample_state_jwk \<noteq> Some (''kid_'' @ replicate 12 CHR ''a'')"
proof -
  have "validate_identity sample_keys sample_csrs sample_agent_id (''kid_'' @ replicate 12 CHR ''a'')
      sample_transport_jwk ''pem'' = Inr \<lparr>vi_key_id = ''kid_'' @ replicate 12 CHR ''a'', vi_jwk_thumbprint = ''t'',
        vi_public_key = sample_key_bytes CHR ''a'', vi_csr_fingerprint = ''pem''\<rparr>"
    and "validate_state_signing_key sample_keys sample_state_jwk (sample_key_bytes CHR ''a'') = Inr ()"
    by code_simp+
  then show ?thesis using identity_binds_key [of sample_keys sample_csrs sample_agent_id] by fastforce
qed

end
