(* ===== verification/Commands.thy ===== *)
theory Commands
  imports Router_Admission Audit_Log
begin

text \<open>
  The durable command queue (\<^verbatim>\<open>persistence/commands.rs\<close>): admission of a job command
  under the Router policy, sequence allocation per Agent, idempotent replay, publication
  marks and history.  \<open>build\<close> is the caller's closure.  \<open>t1\<close>, \<open>t2\<close> and \<open>t3\<close> are the
  successive readings of the clock in \<^verbatim>\<open>enqueue_command\<close>.
\<close>

section \<open>Definitions\<close>

record PersistedCommand =
  pc_agent_id :: agent_id
  pc_namespace :: string
  pc_command_id :: job_id
  pc_message_id :: string
  pc_sequence :: "64 word"
  pc_state :: job_state
  pc_command :: command_content
  pc_issued_at :: instant
  pc_published_at :: "instant option"
  pc_updated_at :: instant

text \<open>\<^verbatim>\<open>Display\<close> of an unsigned integer.\<close>

fun decimal :: "nat \<Rightarrow> string" where
  "decimal n = (if n < 10 then [char_of (48 + n)] else decimal (n div 10) @ [char_of (48 + n mod 10)])"

declare decimal.simps [simp del]

definition require_agent :: "gateway_db \<Rightarrow> string \<Rightarrow> agent_row gateway_result" where
  "require_agent db agent_id =
    ok_or (NotFound ''unknown managed gateway agent'') (find_by ag_agent_id agent_id (agents db))"

fun JobState_from :: "command_state \<Rightarrow> job_state" where
  "JobState_from CmdQueued = JobQueued"
| "JobState_from CmdPublished = JobPublished"
| "JobState_from CmdAccepted = JobAccepted"
| "JobState_from CmdRejected = JobRejected"
| "JobState_from CmdCompleted = JobCompleted"
| "JobState_from CmdFailed = JobFailed"
| "JobState_from CmdSuperseded = JobSuperseded"

fun is_dispatch_message :: "controller_command \<Rightarrow> bool" where
  "is_dispatch_message (DispatchDeviceWorkMessage _ _ _ _ _) = True"
| "is_dispatch_message _ = False"

fun inline_dispatch :: "command_content \<Rightarrow> bool" where
  "inline_dispatch (Inline message) = is_dispatch_message message"
| "inline_dispatch (ManagedWorkContent _) = False"

definition persisted_command :: "command_row \<Rightarrow> string \<Rightarrow> PersistedCommand gateway_result" where
  "persisted_command model namespace =
    (if inline_dispatch (cm_command model) then
       Inl (CorruptState ''Managed Work content exists outside protected payload storage'')
     else
       and_then (AgentId_from_str (cm_agent_id model)) (\<lambda>agent_id.
       and_then (JobId_from_str (cm_command_id model)) (\<lambda>command_id.
       and_then (ok_or (CorruptState ''stored command sequence is invalid'')
                   (u64_of_i64 (cm_sequence model))) (\<lambda>seq.
         Inr \<lparr>pc_agent_id = agent_id, pc_namespace = namespace, pc_command_id = command_id,
              pc_message_id = cm_message_id model, pc_sequence = seq,
              pc_state = JobState_from (cm_state model), pc_command = cm_command model,
              pc_issued_at = cm_issued_at model, pc_published_at = cm_published_at model,
              pc_updated_at = cm_updated_at model\<rparr>))))"

definition agent_sequences :: "gateway_db \<Rightarrow> string \<Rightarrow> int list" where
  "agent_sequences db agent_id = map cm_sequence (filter (\<lambda>c. cm_agent_id c = agent_id) (commands db))"

fun max_sequence :: "int list \<Rightarrow> int option" where
  "max_sequence [] = None"
| "max_sequence (x # xs) = Some (foldr max xs x)"

definition next_command_sequence :: "gateway_db \<Rightarrow> string \<Rightarrow> int gateway_result" where
  "next_command_sequence db agent_id =
    ok_or (Conflict ''command sequence is out of range'')
      (checked_add_i64 (case max_sequence (agent_sequences db agent_id) of None \<Rightarrow> 0 | Some m \<Rightarrow> m) 1)"

definition queue_new_command ::
    "instant \<Rightarrow> instant \<Rightarrow> router_admission \<Rightarrow> string \<Rightarrow> string option \<Rightarrow> bytes \<Rightarrow>
     (64 word \<Rightarrow> string \<Rightarrow> string \<Rightarrow> instant \<Rightarrow> controller_command gateway_result) \<Rightarrow>
     gateway_db \<Rightarrow> (gateway_db \<times> command_row) gateway_result" where
  "queue_new_command t2 t3 admission agent_id requested_command_id request_fingerprint build db =
    and_then (next_command_sequence db agent_id) (\<lambda>next.
    and_then (ok_or (Conflict ''command sequence is out of range'') (u64_of_i64 next)) (\<lambda>seq.
    let command_id = (case requested_command_id of Some c \<Rightarrow> c
                      | None \<Rightarrow> ''job_'' @ agent_id @ ''_'' @ decimal (unat seq));
        message_id = ''msg_'' @ command_id;
        issued_at = t2
    in and_then (build seq command_id message_id issued_at) (\<lambda>command_message.
      if is_dispatch_message command_message then
        Inl (InvalidInput ''Managed Work requires protected payload admission'')
      else
        let model = \<lparr>cm_command_id = command_id, cm_agent_id = agent_id, cm_message_id = message_id,
              cm_sequence = next, cm_state = CmdQueued, cm_command = Inline command_message,
              cm_request_fingerprint = request_fingerprint, cm_issued_at = issued_at,
              cm_published_at = None, cm_updated_at = issued_at\<rparr>
        in and_then (insert_command model db) (\<lambda>db'.
           and_then (require_admission_in t3 admission agent_id db') (\<lambda>_. Inr (db', model))))))"

definition requested_row :: "gateway_db \<Rightarrow> string option \<Rightarrow> command_row option" where
  "requested_row db requested_command_id =
    (case requested_command_id of None \<Rightarrow> None
     | Some command_id \<Rightarrow> find_by cm_command_id command_id (commands db))"

text \<open>The rest of \<^verbatim>\<open>enqueue_command\<close> once the admission and the Agent are known.\<close>

definition replay_or_queue ::
    "instant \<Rightarrow> instant \<Rightarrow> router_admission \<Rightarrow> string \<Rightarrow> string option \<Rightarrow> bytes \<Rightarrow>
     (64 word \<Rightarrow> string \<Rightarrow> string \<Rightarrow> instant \<Rightarrow> controller_command gateway_result) \<Rightarrow>
     agent_row \<Rightarrow> gateway_db \<Rightarrow> (gateway_db \<times> PersistedCommand gateway_result) gateway_result" where
  "replay_or_queue t2 t3 admission agent_id requested_command_id request_fingerprint build
      managed_agent db =
    (case requested_row db requested_command_id of
       Some existing \<Rightarrow>
         if cm_agent_id existing \<noteq> agent_id \<or> cm_request_fingerprint existing \<noteq> request_fingerprint
         then Inl (Conflict ''the idempotency key was already used for another request'')
         else and_then (require_admission_in t2 admission agent_id db) (\<lambda>_.
                Inr (db, persisted_command existing (ag_namespace managed_agent)))
     | None \<Rightarrow>
         and_then (queue_new_command t2 t3 admission agent_id requested_command_id
                     request_fingerprint build db) (\<lambda>(db', model).
           Inr (db', persisted_command model (ag_namespace managed_agent))))"

definition enqueue_command ::
    "instant \<Rightarrow> instant \<Rightarrow> instant \<Rightarrow> router_admission \<Rightarrow> string \<Rightarrow> string option \<Rightarrow> bytes \<Rightarrow>
     (64 word \<Rightarrow> string \<Rightarrow> string \<Rightarrow> instant \<Rightarrow> controller_command gateway_result) \<Rightarrow>
     gateway_db \<Rightarrow> gateway_db \<times> PersistedCommand gateway_result" where
  "enqueue_command t1 t2 t3 admission agent_id requested_command_id request_fingerprint build =
    transaction (\<lambda>db.
      and_then (require_admission_in t1 admission agent_id db) (\<lambda>_.
      and_then (require_agent db agent_id) (\<lambda>managed_agent.
        replay_or_queue t2 t3 admission agent_id requested_command_id request_fingerprint build
          managed_agent db)))"

definition mark_command_published :: "string \<Rightarrow> string \<Rightarrow> instant \<Rightarrow> gateway_db \<Rightarrow> gateway_db" where
  "mark_command_published agent_id command_id now db =
    db\<lparr>commands := update_where
      (\<lambda>c. cm_agent_id c = agent_id \<and> cm_state c \<in> {CmdQueued, CmdPublished} \<and> cm_command_id c = command_id)
      (\<lambda>c. c\<lparr>cm_state := CmdPublished, cm_published_at := Some now, cm_updated_at := now\<rparr>)
      (commands db)\<rparr>"

definition agent_namespace :: "gateway_db \<Rightarrow> string \<Rightarrow> string gateway_result" where
  "agent_namespace db agent_id = and_then (require_agent db agent_id) (\<lambda>a. Inr (ag_namespace a))"

definition job :: "gateway_db \<Rightarrow> job_id \<Rightarrow> PersistedCommand gateway_result" where
  "job db job_id =
    and_then (ok_or (NotFound ''job was not found'')
                (find_by cm_command_id (job_str job_id) (commands db))) (\<lambda>model.
    and_then (agent_namespace db (cm_agent_id model)) (\<lambda>namespace.
      persisted_command model namespace))"

definition jobs :: "gateway_db \<Rightarrow> string \<Rightarrow> PersistedCommand list gateway_result" where
  "jobs db agent_id =
    and_then (agent_namespace db agent_id) (\<lambda>namespace.
      try_map (\<lambda>model. persisted_command model namespace)
        (sort_key (\<lambda>c. - cm_issued_at c) (filter (\<lambda>c. cm_agent_id c = agent_id) (commands db))))"

definition command_history ::
    "(string \<Rightarrow> bool) \<Rightarrow> gateway_db \<Rightarrow> string \<Rightarrow> 64 word \<Rightarrow>
     (protocol_version \<times> PersistedCommand list) gateway_result" where
  "command_history naive_date db agent_id from_sequence =
    and_then (require_agent db agent_id) (\<lambda>managed_agent.
    let from = (case i64_of_u64 from_sequence of Some i \<Rightarrow> i | None \<Rightarrow> i64_max) in
    and_then (try_map (\<lambda>model. persisted_command model (ag_namespace managed_agent))
      (sort_key cm_sequence
        (filter (\<lambda>c. cm_agent_id c = agent_id \<and> cm_sequence c \<ge> from) (commands db)))) (\<lambda>history.
    and_then (ProtocolVersion_from_str naive_date (ag_protocol_version managed_agent)) (\<lambda>version.
      Inr (version, history))))"

text \<open>Every Agent's sequence numbers are 1, 2, ..., n in the order of admission.\<close>

definition sequences_ok :: "gateway_db \<Rightarrow> bool" where
  "sequences_ok db \<longleftrightarrow> list_all (\<lambda>c. agent_sequences db (cm_agent_id c) =
     map int [1..<Suc (length (agent_sequences db (cm_agent_id c)))]) (commands db)"

text \<open>Rows that every reader can decode.\<close>

definition command_row_ok :: "command_row \<Rightarrow> bool" where
  "command_row_ok c \<longleftrightarrow> \<not> inline_dispatch (cm_command c) \<and> is_ok (AgentId_from_str (cm_agent_id c)) \<and>
    is_ok (JobId_from_str (cm_command_id c)) \<and> 0 < cm_sequence c \<and> cm_sequence c \<le> i64_max"

section \<open>Lemmas\<close>

subsection \<open>Decimal numbers\<close>

lemma decimal_digits: "list_all is_ascii_digit (decimal n)"
proof (induction n rule: decimal.induct)
  case (1 n)
  have "is_ascii_digit (char_of (48 + m))" if "m < 10" for m :: nat
    using that by (simp add: is_ascii_digit_def)
  then show ?case using 1 by (subst decimal.simps) simp
qed

lemma decimal_length: "n < 10 ^ Suc k \<Longrightarrow> length (decimal n) \<le> Suc k"
proof (induction k arbitrary: n)
  case (Suc k)
  show ?case
  proof (cases "n < 10")
    case False
    have "n div 10 < 10 ^ Suc k" using Suc.prems by (simp add: less_mult_imp_div_less)
    then show ?thesis using False Suc.IH by (subst decimal.simps) simp
  qed (subst decimal.simps, simp)
qed (subst decimal.simps, simp)

lemma generated_job_id_valid:
  assumes "AgentId_from_str agent_id = Inr a" and "0 \<le> i" and "i \<le> i64_max"
  shows "JobId_from_str (''job_'' @ agent_id @ ''_'' @ decimal (unat (word_of_int i :: 64 word))) =
    Inr (JobId (''job_'' @ agent_id @ ''_'' @ decimal (unat (word_of_int i :: 64 word))))"
proof -
  let ?d = "decimal (unat (word_of_int i :: 64 word))"
  have "uint (word_of_int i :: 64 word) = i"
    using assms(2,3) by (simp add: uint_word_of_int_eq take_bit_int_eq_self i64_max_def)
  then have "unat (word_of_int i :: 64 word) = nat i" by (simp add: unat_eq_nat_uint)
  moreover have "nat i < 10 ^ Suc 18" using assms(2,3) by (simp add: i64_max_def)
  ultimately have "length ?d \<le> 19" using decimal_length [of "nat i" 18] by simp
  moreover have "length agent_id \<le> 64" "list_all resource_id_byte agent_id"
    using assms(1)
    by (auto simp: AgentId_from_str_iff list_all_iff agent_id_byte_def resource_id_byte_def
        is_ascii_lowercase_def)
  moreover have "list_all resource_id_byte ?d"
    using decimal_digits by (auto simp: list_all_iff resource_id_byte_def)
  ultimately show ?thesis
    by (simp add: JobId_from_str_def resource_id_from_str_iff resource_id_valid_iff)
      (simp add: resource_id_byte_def)
qed

subsection \<open>Sequence numbers\<close>

lemma sequences_okD:
  assumes "sequences_ok db"
  shows "agent_sequences db a = map int [1..<Suc (length (agent_sequences db a))]"
proof (cases "\<exists>c \<in> set (commands db). cm_agent_id c = a")
  case True
  then show ?thesis using assms by (auto simp: sequences_ok_def list_all_iff)
next
  case False
  then have "agent_sequences db a = []" by (auto simp: agent_sequences_def filter_empty_conv)
  then show ?thesis by simp
qed

lemma sequences_okI:
  "(\<And>a. agent_sequences db a = map int [1..<Suc (length (agent_sequences db a))]) \<Longrightarrow> sequences_ok db"
  by (simp add: sequences_ok_def list_all_iff)

lemma foldr_max: "foldr max xs (x :: int) = Max (insert x (set xs))"
proof (induction xs)
  case (Cons y xs)
  have "Max (insert x (set (y # xs))) = max y (Max (insert x (set xs)))"
    using Max_insert [of "insert x (set xs)" y] by (simp add: insert_commute del: Max_insert)
  then show ?case using Cons by simp
qed simp

lemma max_sequence_Max: "max_sequence xs = (if xs = [] then None else Some (Max (set xs)))"
  by (cases xs) (simp_all add: foldr_max)

lemma max_sequence_upt: "max_sequence (map int [1..<Suc n]) = (if n = 0 then None else Some (int n))"
proof -
  have "Max (int ` {1..<Suc n}) = int n" if "n \<noteq> 0"
    using that by (intro Max_eqI) auto
  then show ?thesis by (simp add: max_sequence_Max del: upt_Suc)
qed

lemma next_command_sequence_Inr:
  assumes "sequences_ok db" and "next_command_sequence db a = Inr next"
  shows "next = int (length (agent_sequences db a)) + 1" and "next \<le> i64_max"
proof -
  let ?n = "length (agent_sequences db a)"
  have "max_sequence (agent_sequences db a) = (if ?n = 0 then None else Some (int ?n))"
    using sequences_okD [OF assms(1)] max_sequence_upt by metis
  then show "next = int ?n + 1" "next \<le> i64_max"
    using assms(2) by (auto simp: next_command_sequence_def ok_or_eq_Inr checked_add_i64_def
        split: if_splits)
qed

lemma sequences_ok_append:
  assumes "sequences_ok db"
    and "cm_sequence c = int (length (agent_sequences db (cm_agent_id c))) + 1"
    and "commands db' = commands db @ [c]"
  shows "sequences_ok db'"
proof (rule sequences_okI)
  fix a
  have "agent_sequences db' a =
      agent_sequences db a @ (if cm_agent_id c = a then [cm_sequence c] else [])"
    using assms(3) by (simp add: agent_sequences_def)
  then show "agent_sequences db' a = map int [1..<Suc (length (agent_sequences db' a))]"
    using sequences_okD [OF assms(1), of a] assms(2) by (auto simp: upt_Suc_append)
qed

lemma agent_sequences_pairs:
  "agent_sequences db a =
    map snd (filter (\<lambda>p. fst p = a) (map (\<lambda>c. (cm_agent_id c, cm_sequence c)) (commands db)))"
proof -
  have "map cm_sequence (filter (\<lambda>c. cm_agent_id c = a) cs) =
      map snd (filter (\<lambda>p. fst p = a) (map (\<lambda>c. (cm_agent_id c, cm_sequence c)) cs))" for cs
    by (induction cs) auto
  then show ?thesis unfolding agent_sequences_def .
qed

lemma sequences_ok_update:
  assumes "sequences_ok db"
    and "commands db' = update_where P f (commands db)"
    and "\<And>c. cm_agent_id (f c) = cm_agent_id c" and "\<And>c. cm_sequence (f c) = cm_sequence c"
  shows "sequences_ok db'"
proof -
  have "agent_sequences db' a = agent_sequences db a" for a
    unfolding agent_sequences_pairs using assms(2-4) by (simp add: map_update_where)
  then show ?thesis using sequences_okD [OF assms(1)] by (intro sequences_okI) simp
qed

lemma mark_command_published_sequences:
  "sequences_ok db \<Longrightarrow> sequences_ok (mark_command_published a c now db)"
  by (erule sequences_ok_update [where f = "\<lambda>c. c\<lparr>cm_state := CmdPublished,
        cm_published_at := Some now, cm_updated_at := now\<rparr>"])
    (simp_all add: mark_command_published_def)

subsection \<open>Admission of a command\<close>

lemma queue_new_command_Inr:
  assumes "queue_new_command t2 t3 adm a req fp build db = Inr (db', c)"
  shows "insert_command c db = Inr db'" and "db' = db\<lparr>commands := commands db @ [c]\<rparr>"
    and "next_command_sequence db a = Inr (cm_sequence c)" and "0 \<le> cm_sequence c"
    and "cm_agent_id c = a" and "cm_state c = CmdQueued" and "cm_request_fingerprint c = fp"
    and "cm_command_id c = (case req of Some r \<Rightarrow> r | None \<Rightarrow>
          ''job_'' @ a @ ''_'' @ decimal (unat (word_of_int (cm_sequence c) :: 64 word)))"
    and "cm_message_id c = ''msg_'' @ cm_command_id c"
    and "\<exists>m. cm_command c = Inline m \<and> \<not> is_dispatch_message m \<and>
          build (word_of_int (cm_sequence c)) (cm_command_id c) (cm_message_id c) t2 = Inr m"
    and "require_admission_in t3 adm a db' = Inr ()"
    and "cm_issued_at c = t2 \<and> cm_published_at c = None \<and> cm_updated_at c = t2"
  using assms
  by (auto simp: queue_new_command_def and_then_eq_Inr ok_or_eq_Inr u64_of_i64_def Let_def
      insert_command_def split: if_splits option.splits)

lemma enqueue_command_cases:
  assumes "enqueue_command t1 t2 t3 adm a req fp build db = (db', r)"
  obtains (rollback) e where "db' = db" "r = Inl e"
  | (replay) agent row where "require_admission_in t1 adm a db = Inr ()" "require_agent db a = Inr agent"
      "requested_row db req = Some row" "cm_agent_id row = a" "cm_request_fingerprint row = fp"
      "require_admission_in t2 adm a db = Inr ()" "db' = db"
      "r = persisted_command row (ag_namespace agent)"
  | (queued) agent c where "require_admission_in t1 adm a db = Inr ()" "require_agent db a = Inr agent"
      "requested_row db req = None" "queue_new_command t2 t3 adm a req fp build db = Inr (db', c)"
      "r = persisted_command c (ag_namespace agent)"
proof -
  from assms [unfolded enqueue_command_def transaction_eq and_then_eq_Inr] show thesis
  proof (elim disjE exE conjE)
    fix u agent
    assume *: "require_admission_in t1 adm a db = Inr u" "require_agent db a = Inr agent"
      "replay_or_queue t2 t3 adm a req fp build agent db = Inr (db', r)"
    show thesis
    proof (cases "requested_row db req")
      case None
      with * show thesis by (auto simp: replay_or_queue_def and_then_eq_Inr intro: queued)
    next
      case (Some row)
      with * show thesis
        by (auto simp: replay_or_queue_def and_then_eq_Inr intro: replay split: if_splits)
    qed
  qed (rule rollback)
qed

lemma enqueue_command_replay:
  assumes "require_admission_in t1 adm a db = Inr ()" and "require_admission_in t2 adm a db = Inr ()"
    and "require_agent db a = Inr agent" and "requested_row db req = Some row" and "cm_agent_id row = a"
  shows "enqueue_command t1 t2 t3 adm a req fp build db =
    (db, if cm_request_fingerprint row = fp then persisted_command row (ag_namespace agent)
         else Inl (Conflict ''the idempotency key was already used for another request''))"
  using assms by (simp add: enqueue_command_def transaction_def replay_or_queue_def)

lemma persisted_command_ok:
  assumes "command_row_ok c"
  shows "persisted_command c ns =
    Inr \<lparr>pc_agent_id = AgentId (cm_agent_id c), pc_namespace = ns, pc_command_id = JobId (cm_command_id c),
      pc_message_id = cm_message_id c, pc_sequence = word_of_int (cm_sequence c),
      pc_state = JobState_from (cm_state c), pc_command = cm_command c, pc_issued_at = cm_issued_at c,
      pc_published_at = cm_published_at c, pc_updated_at = cm_updated_at c\<rparr>"
proof -
  have "AgentId_from_str (cm_agent_id c) = Inr (AgentId (cm_agent_id c))"
      "JobId_from_str (cm_command_id c) = Inr (JobId (cm_command_id c))"
    using assms by (auto simp: command_row_ok_def is_ok_iff AgentId_from_str_iff JobId_from_str_def
        resource_id_from_str_iff)
  then show ?thesis
    using assms by (simp add: command_row_ok_def persisted_command_def u64_of_i64_def)
qed

lemma command_sequence_uint:
  "command_row_ok c \<Longrightarrow> uint (word_of_int (cm_sequence c) :: 64 word) = cm_sequence c"
  by (simp add: command_row_ok_def uint_word_of_int_eq take_bit_int_eq_self i64_max_def)

lemma queued_row_ok:
  assumes "queue_new_command t2 t3 adm a req fp build db = Inr (db', c)"
    and "is_ok (AgentId_from_str a)" and "sequences_ok db"
    and "case req of None \<Rightarrow> True | Some cid \<Rightarrow> is_ok (JobId_from_str cid)"
  shows "command_row_ok c"
proof -
  note new = queue_new_command_Inr [OF assms(1)]
  have seq: "0 < cm_sequence c" "cm_sequence c \<le> i64_max"
    using next_command_sequence_Inr [OF assms(3) new(3)] by simp_all
  have "is_ok (JobId_from_str (cm_command_id c))"
  proof (cases req)
    case None
    then show ?thesis
      using new(8) seq assms(2) generated_job_id_valid [of a _ "cm_sequence c"]
      by (auto simp: is_ok_iff)
  next
    case (Some cid)
    then show ?thesis using new(8) assms(4) by simp
  qed
  then show ?thesis using new(5,10) seq assms(2) by (auto simp: command_row_ok_def)
qed

lemma enqueue_command_sequences:
  assumes "sequences_ok db" and "enqueue_command t1 t2 t3 adm a req fp build db = (db', r)"
  shows "sequences_ok db'"
  using assms(2)
proof (cases rule: enqueue_command_cases)
  case (queued agent c)
  note new = queue_new_command_Inr [OF queued(4)]
  show ?thesis
    using new(2,5) next_command_sequence_Inr(1) [OF assms(1) new(3)]
    by (intro sequences_ok_append [OF assms(1), of c]) simp_all
qed (use assms(1) in simp_all)

lemma sorted_filter_upt:
  "sorted (map cm_sequence cs) \<Longrightarrow> sort_key cm_sequence (filter P cs) = filter P cs"
  by (simp add: sorted_filter sort_key_id_if_sorted)

section \<open>A concrete run\<close>

definition sample_admission :: router_admission where
  "sample_admission = \<lparr>adm_organization_id = ''org_a'', adm_generation = 4, adm_digest = sample_digest,
     adm_valid_until = 50000000\<rparr>"

definition sample_build ::
    "64 word \<Rightarrow> string \<Rightarrow> string \<Rightarrow> instant \<Rightarrow> controller_command gateway_result" where
  "sample_build seq command_id message_id issued_at =
    Inr (CancelJobMessage message_id command_id seq issued_at ''job_x'')"

definition sample_enqueue :: "string option \<Rightarrow> gateway_db \<Rightarrow> gateway_db \<times> PersistedCommand gateway_result" where
  "sample_enqueue req = enqueue_command 2000000 2000001 2000002 sample_admission ''agt_a'' req
     sample_digest sample_build"

lemma sample_sequences: "sequences_ok sample_db"
  by code_simp

lemma sample_enqueue_ok: "is_ok (snd (sample_enqueue (Some ''job_1'') sample_db))"
  by code_simp

lemma sample_enqueue_admitted:
  "require_admission_in 3000000 sample_admission ''agt_a'' (fst (sample_enqueue (Some ''job_1'') sample_db)) = Inr ()"
  by code_simp

section \<open>Properties\<close>

text \<open>
  C16. Sequence numbers of an Agent's commands are gapless: if they are 1, ..., n then after
  any call of \<^verbatim>\<open>enqueue_command\<close> they still are, and the call changes nothing but, when it
  queues, to append exactly one command of this Agent, in state queued, with number n+1.
\<close>

theorem enqueue_command_gapless:
  assumes "sequences_ok db" and "enqueue_command t1 t2 t3 adm a req fp build db = (db', r)"
  shows "sequences_ok db' \<and> (db' = db \<or>
    (\<exists>c. db' = db\<lparr>commands := commands db @ [c]\<rparr> \<and> cm_agent_id c = a \<and> cm_state c = CmdQueued \<and>
      cm_sequence c = int (length (agent_sequences db a)) + 1 \<and> cm_request_fingerprint c = fp))"
proof
  show "sequences_ok db'" using assms by (rule enqueue_command_sequences)
  show "db' = db \<or> (\<exists>c. db' = db\<lparr>commands := commands db @ [c]\<rparr> \<and> cm_agent_id c = a \<and>
      cm_state c = CmdQueued \<and> cm_sequence c = int (length (agent_sequences db a)) + 1 \<and>
      cm_request_fingerprint c = fp)"
    using assms(2)
  proof (cases rule: enqueue_command_cases)
    case (queued agent c)
    note new = queue_new_command_Inr [OF queued(4)]
    show ?thesis
      using new(2,5-7) next_command_sequence_Inr(1) [OF assms(1) new(3)] by blast
  qed simp_all
qed

theorem enqueue_command_gapless_witness:
  "sequences_ok (fst (sample_enqueue None sample_db)) \<and>
   agent_sequences (fst (sample_enqueue None sample_db)) ''agt_a'' = [1]"
proof
  show "sequences_ok (fst (sample_enqueue None sample_db))"
    using enqueue_command_gapless [OF sample_sequences prod.collapse [symmetric]]
    by (simp add: sample_enqueue_def)
  show "agent_sequences (fst (sample_enqueue None sample_db)) ''agt_a'' = [1]"
    by code_simp
qed

text \<open>
  C30. Job requests are idempotent: once a command with a requested id was admitted, a
  retry under the same id and request fingerprint changes nothing and returns the same
  command, whatever it would have built; another fingerprint is refused as a conflict.
\<close>

theorem enqueue_command_idempotent:
  assumes "enqueue_command t1 t2 t3 adm a (Some cid) fp build db = (db', Inr command)"
    and "require_admission_in u1 adm' a db' = Inr ()" and "require_admission_in u2 adm' a db' = Inr ()"
  shows "enqueue_command u1 u2 u3 adm' a (Some cid) fp build' db' = (db', Inr command) \<and>
    (\<forall>fp'. fp' \<noteq> fp \<longrightarrow> enqueue_command u1 u2 u3 adm' a (Some cid) fp' build' db' =
      (db', Inl (Conflict ''the idempotency key was already used for another request'')))"
  using assms(1)
proof (cases rule: enqueue_command_cases)
  case (replay agent row)
  then show ?thesis using assms(2,3) by (simp add: enqueue_command_replay)
next
  case (queued agent c)
  note new = queue_new_command_Inr [OF queued(4)]
  have "requested_row db' (Some cid) = Some c"
    using command_store.find_inserted [OF new(1)] new(8) by (simp add: requested_row_def)
  moreover have "require_agent db' a = Inr agent"
    using queued(2) new(2) by (simp add: require_agent_def)
  ultimately show ?thesis
    using assms(2,3) new(5,7) queued(5) by (simp add: enqueue_command_replay)
qed simp

theorem enqueue_command_idempotent_witness:
  "\<exists>command. enqueue_command 3000000 3000000 3000000 sample_admission ''agt_a'' (Some ''job_1'')
     sample_digest (\<lambda>_ _ _ _. Inl Io) (fst (sample_enqueue (Some ''job_1'') sample_db)) =
     (fst (sample_enqueue (Some ''job_1'') sample_db), Inr command)"
proof -
  obtain command where "snd (sample_enqueue (Some ''job_1'') sample_db) = Inr command"
    using sample_enqueue_ok by (auto simp: is_ok_iff)
  then have "sample_enqueue (Some ''job_1'') sample_db =
      (fst (sample_enqueue (Some ''job_1'') sample_db), Inr command)"
    by (metis prod.collapse)
  from enqueue_command_idempotent [OF this [unfolded sample_enqueue_def],
      of 3000000 sample_admission 3000000 3000000 "\<lambda>_ _ _ _. Inl Io"] sample_enqueue_admitted
  show ?thesis by (auto simp: sample_enqueue_def)
qed

text \<open>
  Admission is atomic: for a valid Agent ID and a valid requested id, a call of
  \<^verbatim>\<open>enqueue_command\<close> that reports an error has changed nothing.  In particular the
  decoding of the row after the commit cannot fail.
\<close>

lemma enqueue_command_atomic:
  assumes "enqueue_command t1 t2 t3 adm a req fp build db = (db', Inl e)"
    and "is_ok (AgentId_from_str a)" and "sequences_ok db"
    and "case req of None \<Rightarrow> True | Some cid \<Rightarrow> is_ok (JobId_from_str cid)"
  shows "db' = db"
  using assms(1)
proof (cases rule: enqueue_command_cases)
  case (queued agent c)
  then show ?thesis
    using persisted_command_ok [OF queued_row_ok [OF queued(4) assms(2-4)]] by simp
qed simp_all



end
