(* ===== verification/State_Envelopes.thy ===== *)
theory State_Envelopes
  imports Credentials Commands
begin

text \<open>
  Signed Agent State (\<^verbatim>\<open>inari-gateway/src/security/state_envelopes.rs\<close>): parsing the compact
  JWS, verifying it with the registered key and validating its claims.  The JSON decoders
  are fields of \<open>envelope_library\<close>, over an arbitrary type of JSON values.
\<close>

section \<open>Definitions\<close>

definition MAX_JSON_INTEGER :: "64 word" where
  "MAX_JSON_INTEGER = 9007199254740991"

record protected_header =
  ph_alg :: string
  ph_kid :: string
  ph_typ :: string

record 'v envelope_library =
  el_decode_header :: "bytes \<Rightarrow> protected_header option"
  el_signature_from_slice :: "bytes \<Rightarrow> bytes option"
  el_json_from_slice :: "bytes \<Rightarrow> 'v option"
  el_canonical :: "'v \<Rightarrow> bytes gateway_result"
  el_observation_from_value :: "'v \<Rightarrow> agent_state_observation option"

record unverified_envelope =
  ue_signing_input :: string
  ue_header :: protected_header
  ue_payload :: bytes
  ue_signature :: bytes

definition invalid_state :: "string \<Rightarrow> gateway_error" where
  "invalid_state detail = InvalidInput (''Agent State '' @ detail)"

definition identifier_byte :: "char \<Rightarrow> bool" where
  "identifier_byte c \<longleftrightarrow> is_ascii_alphanumeric c \<or> c \<in> set ''._:/-''"

definition state_identifier :: "string \<Rightarrow> bool" where
  "state_identifier value \<longleftrightarrow> length value \<le> 256 \<and>
    (case value of [] \<Rightarrow> False | c # _ \<Rightarrow> is_ascii_alphanumeric c) \<and> list_all identifier_byte value"

definition fingerprint_text :: "string \<Rightarrow> bool" where
  "fingerprint_text value \<longleftrightarrow> (case strip_prefix ''sha256:'' value of None \<Rightarrow> False
    | Some digest \<Rightarrow> length digest = 64 \<and> list_all lowercase_hex digest)"

definition safe_code :: "string \<Rightarrow> nat \<Rightarrow> bool \<Rightarrow> bool" where
  "safe_code value limit dots \<longleftrightarrow> length value \<le> limit \<and>
    (case value of [] \<Rightarrow> False | c # _ \<Rightarrow> is_ascii_lowercase c) \<and>
    list_all (\<lambda>c. is_ascii_lowercase c \<or> is_ascii_digit c \<or> c = CHR ''_'' \<or> (dots \<and> c = CHR ''.'')) value"

text \<open>\<^verbatim>\<open>str::parse::<i64>\<close>: an optional sign and at least one digit, in range.\<close>

definition digits_value :: "string \<Rightarrow> int" where
  "digits_value s = foldl (\<lambda>n c. 10 * n + (int (byte_of c) - 48)) 0 s"

definition parse_i64 :: "string \<Rightarrow> int option" where
  "parse_i64 s =
    (let (sign, body) = (case s of [] \<Rightarrow> (1, [])
           | c # r \<Rightarrow> if c = CHR ''-'' then (- 1, r) else if c = CHR ''+'' then (1, r) else (1, s));
         v = sign * digits_value body
     in if body \<noteq> [] \<and> list_all is_ascii_digit body \<and> i64_min \<le> v \<and> v \<le> i64_max then Some v else None)"

definition record_id_ok :: "string \<Rightarrow> bool" where
  "record_id_ok record_id \<longleftrightarrow> (case parse_i64 record_id of None \<Rightarrow> False
    | Some v \<Rightarrow> v > 0 \<and> decimal (nat v) = record_id)"

definition UnverifiedAgentStateEnvelope_parse ::
    "key_library \<Rightarrow> 'v envelope_library \<Rightarrow> string \<Rightarrow> unverified_envelope gateway_result" where
  "UnverifiedAgentStateEnvelope_parse keys lib compact =
    (let decode = (\<lambda>s. ok_or (invalid_state ''JWS segments must use canonical base64url'')
           (kl_base64url_decode keys s)) in
     if length compact > 65536 then Inl (invalid_state ''envelope exceeds its size limit'')
     else case split_on CHR ''.'' compact of
       [protected, payload, signature] \<Rightarrow>
         if length protected > 1024 then Inl (invalid_state ''protected header exceeds its size limit'')
         else
           and_then (decode protected) (\<lambda>protected_bytes.
           and_then (ok_or (invalid_state ''protected header is invalid'')
                       (el_decode_header lib protected_bytes)) (\<lambda>header.
           if ph_alg header \<noteq> ''EdDSA'' \<or> ph_typ header \<noteq> ''application/inari-agent-state+jws'' \<or>
              \<not> state_identifier (ph_kid header)
           then Inl (invalid_state ''protected header has an unsupported algorithm, type, or key ID'')
           else
             and_then (decode payload) (\<lambda>payload_bytes.
             and_then (decode signature) (\<lambda>signature_bytes.
             and_then (ok_or (invalid_state ''signature must contain 64 bytes'')
                         (el_signature_from_slice lib signature_bytes)) (\<lambda>sig.
             Inr \<lparr>ue_signing_input = protected @ ''.'' @ payload, ue_header = header,
                  ue_payload = payload_bytes, ue_signature = sig\<rparr>)))))
     | _ \<Rightarrow> Inl (invalid_state ''envelope must use attached compact JWS''))"

definition opt_or :: "'a option \<Rightarrow> 'a option \<Rightarrow> 'a option" where
  "opt_or a b = (case a of None \<Rightarrow> b | Some _ \<Rightarrow> a)"

definition unwrap_or :: "'a option \<Rightarrow> 'a \<Rightarrow> 'a" where
  "unwrap_or a d = (case a of None \<Rightarrow> d | Some v \<Rightarrow> v)"

definition latest_at :: "managed_print_job_snapshot \<Rightarrow> instant" where
  "latest_at pj = unwrap_or (opt_or (pj_terminal_at pj) (pj_started_at pj)) (pj_accepted_at pj)"

fun valid_lifecycle :: "print_job_state \<Rightarrow> managed_print_job_snapshot \<Rightarrow> bool" where
  "valid_lifecycle PrintAccepted pj \<longleftrightarrow>
     pj_state_version pj = 1 \<and> pj_started_at pj = None \<and> pj_terminal_at pj = None"
| "valid_lifecycle PrintInProgress pj \<longleftrightarrow>
     pj_state_version pj \<ge> 2 \<and> pj_started_at pj \<noteq> None \<and> pj_terminal_at pj = None"
| "valid_lifecycle PrintOutputConfirmed pj \<longleftrightarrow>
     pj_state_version pj \<ge> 3 \<and> pj_started_at pj \<noteq> None \<and> pj_terminal_at pj \<noteq> None \<and>
     pj_confirmation_evidence pj \<noteq> None"
| "valid_lifecycle PrintOutcomeUnknown pj \<longleftrightarrow>
     pj_state_version pj \<ge> 3 \<and> pj_started_at pj \<noteq> None \<and> pj_terminal_at pj \<noteq> None"
| "valid_lifecycle PrintFailed pj \<longleftrightarrow> pj_state_version pj \<ge> 2 \<and> pj_terminal_at pj \<noteq> None"
| "valid_lifecycle PrintExpired pj \<longleftrightarrow>
     pj_state_version pj \<ge> 2 \<and> pj_started_at pj = None \<and> pj_terminal_at pj \<noteq> None"
| "valid_lifecycle PrintCanceled pj \<longleftrightarrow>
     pj_state_version pj \<ge> 2 \<and> pj_started_at pj = None \<and> pj_terminal_at pj \<noteq> None"

definition origin_source_ok :: "managed_print_job_origin \<Rightarrow> bool" where
  "origin_source_ok origin \<longleftrightarrow>
    (po_record_ids origin = []) \<noteq> (po_wizard_input_digest origin = None) \<and>
    length (po_record_ids origin) \<le> 100 \<and> list_all record_id_ok (po_record_ids origin) \<and>
    (case po_wizard_input_digest origin of None \<Rightarrow> True | Some v \<Rightarrow> fingerprint_text v)"

definition timestamps_ok :: "agent_state_observation \<Rightarrow> bool" where
  "timestamps_ok o' \<longleftrightarrow> (let pj = ob_job o' in
    pj_accepted_at pj < pj_expires_at pj \<and>
    (case pj_started_at pj of None \<Rightarrow> True | Some at \<Rightarrow> pj_accepted_at pj \<le> at) \<and>
    (case pj_terminal_at pj of None \<Rightarrow> True
      | Some at \<Rightarrow> unwrap_or (pj_started_at pj) (pj_accepted_at pj) \<le> at) \<and>
    latest_at pj \<le> ob_observed_at o' \<and> ob_observed_at o' \<le> ob_issued_at o')"

definition validate_observation :: "agent_state_observation \<Rightarrow> unit gateway_result" where
  "validate_observation o' =
    (let pj = ob_job o'; origin = pj_origin pj in
     if ob_contract_major o' \<noteq> 1 \<or> pj_contract_version pj \<noteq> ''v1'' then
       Inl (invalid_state ''contract version is unsupported'')
     else if \<not> list_all state_identifier [ob_envelope_id o', ob_agent_boot_id o', ob_reconciliation_session_id o',
         pj_print_job_id pj, po_database origin, po_company_id origin, po_report_binding_id origin,
         po_report_action origin, po_source_model origin] then
       Inl (invalid_state ''claims contain an invalid identifier'')
     else if \<not> list_all (\<lambda>v. 1 \<le> v \<and> v \<le> MAX_JSON_INTEGER) [ob_dispatch_epoch o', ob_envelope_sequence o',
         ob_durable_state_sequence o', pj_state_version pj] then
       Inl (invalid_state ''counters must be positive JSON-safe integers'')
     else if \<not> fingerprint_text (ob_payload_fingerprint o') then
       Inl (invalid_state ''Payload Fingerprint is invalid'')
     else if \<not> origin_source_ok origin then
       Inl (invalid_state ''Report Print Origin source is invalid'')
     else if \<not> timestamps_ok o' then
       Inl (invalid_state ''timestamps conflict with the Print Job lifecycle'')
     else if \<not> valid_lifecycle (pj_state pj) pj \<or>
         (pj_state pj \<noteq> PrintOutputConfirmed \<and> pj_confirmation_evidence pj \<noteq> None) then
       Inl (invalid_state ''state conflicts with the Print Job lifecycle or Output Evidence'')
     else if pj_state pj = PrintFailed \<or> pj_state pj = PrintOutcomeUnknown then
       if \<not> (case pj_error_code pj of None \<Rightarrow> False | Some v \<Rightarrow> safe_code v 64 False) \<or>
          \<not> (case pj_message_key pj of None \<Rightarrow> False | Some v \<Rightarrow> safe_code v 128 True)
       then Inl (invalid_state ''failure requires a safe error code and message key'')
       else Inr ()
     else if pj_error_code pj \<noteq> None \<or> pj_message_key pj \<noteq> None then
       Inl (invalid_state ''state cannot contain an error'')
     else Inr ())"

definition envelope_verify ::
    "key_library \<Rightarrow> 'v envelope_library \<Rightarrow> unverified_envelope \<Rightarrow> jwk \<Rightarrow>
     agent_state_observation gateway_result" where
  "envelope_verify keys lib env registered_key =
    (if jwk_key_id registered_key \<noteq> Some (ph_kid (ue_header env)) then
       Inl (invalid_state ''key ID does not match its registered signing key'')
     else
       and_then (state_verifying_key keys registered_key) (\<lambda>key.
       if \<not> kl_ed25519_verify_strict keys key (ue_signing_input env) (ue_signature env) then
         Inl (invalid_state ''signature is invalid'')
       else
         and_then (ok_or (invalid_state ''claims are not valid JSON'')
                     (el_json_from_slice lib (ue_payload env))) (\<lambda>v.
         and_then (el_canonical lib v) (\<lambda>canonical.
         if canonical \<noteq> ue_payload env then
           Inl (invalid_state ''claims must use RFC 8785 canonical JSON'')
         else
           and_then (ok_or (invalid_state ''claims do not match the managed Print Job contract'')
                       (el_observation_from_value lib v)) (\<lambda>observation.
           and_then (validate_observation observation) (\<lambda>_. Inr observation))))))"

section \<open>Lemmas\<close>

lemma split_on_three:
  assumes "split_on d s = [a, b, c]"
  shows "s = a @ [d] @ b @ [d] @ c \<and> d \<notin> set a \<and> d \<notin> set b \<and> d \<notin> set c"
proof -
  obtain r where r: "s = a @ d # r" "split_on d r = [b, c]" "d \<notin> set a"
    using split_on_Cons [OF assms] by auto
  obtain q where q: "r = b @ d # q" "split_on d q = [c]" "d \<notin> set b"
    using split_on_Cons [OF r(2)] by auto
  have "q = c \<and> d \<notin> set c" using split_on_Cons [OF q(2)] split_on_nonempty by blast
  then show ?thesis using r q by simp
qed

lemma UnverifiedAgentStateEnvelope_parse_Inr:
  assumes "UnverifiedAgentStateEnvelope_parse keys lib compact = Inr env"
  shows "\<exists>protected payload sig. compact = protected @ ''.'' @ payload @ ''.'' @ sig \<and>
    CHR ''.'' \<notin> set protected \<and> CHR ''.'' \<notin> set payload \<and> CHR ''.'' \<notin> set sig \<and>
    length compact \<le> 65536 \<and> ue_signing_input env = protected @ ''.'' @ payload \<and>
    kl_base64url_decode keys payload = Some (ue_payload env) \<and>
    (\<exists>b. kl_base64url_decode keys sig = Some b \<and> el_signature_from_slice lib b = Some (ue_signature env)) \<and>
    ph_alg (ue_header env) = ''EdDSA'' \<and> ph_typ (ue_header env) = ''application/inari-agent-state+jws''"
proof -
  obtain protected payload sig where parts: "split_on CHR ''.'' compact = [protected, payload, sig]"
      and len: "length compact \<le> 65536"
    using assms unfolding UnverifiedAgentStateEnvelope_parse_def Let_def
    by (auto split: if_splits list.splits)
  have "ue_signing_input env = protected @ ''.'' @ payload \<and>
    kl_base64url_decode keys payload = Some (ue_payload env) \<and>
    (\<exists>b. kl_base64url_decode keys sig = Some b \<and> el_signature_from_slice lib b = Some (ue_signature env)) \<and>
    ph_alg (ue_header env) = ''EdDSA'' \<and> ph_typ (ue_header env) = ''application/inari-agent-state+jws''"
    using assms len unfolding UnverifiedAgentStateEnvelope_parse_def Let_def parts
    by (auto simp: and_then_eq_Inr ok_or_eq_Inr split: if_splits)
  then show ?thesis using split_on_three [OF parts] len by auto
qed

lemma envelope_verify_Inr:
  "envelope_verify keys lib env jwk = Inr observation \<longleftrightarrow>
    (\<exists>key v. jwk_key_id jwk = Some (ph_kid (ue_header env)) \<and> state_verifying_key keys jwk = Inr key \<and>
      kl_ed25519_verify_strict keys key (ue_signing_input env) (ue_signature env) \<and>
      el_json_from_slice lib (ue_payload env) = Some v \<and> el_canonical lib v = Inr (ue_payload env) \<and>
      el_observation_from_value lib v = Some observation \<and> validate_observation observation = Inr ())"
  by (auto simp: envelope_verify_def and_then_eq_Inr ok_or_eq_Inr split: if_splits)

lemma validate_observation_Inr:
  assumes "validate_observation o' = Inr ()"
  shows "timestamps_ok o'" and "valid_lifecycle (pj_state (ob_job o')) (ob_job o')"
    and "pj_confirmation_evidence (ob_job o') \<noteq> None \<longrightarrow> pj_state (ob_job o') = PrintOutputConfirmed"
    and "pj_error_code (ob_job o') \<noteq> None \<longleftrightarrow> pj_state (ob_job o') \<in> {PrintFailed, PrintOutcomeUnknown}"
    and "1 \<le> pj_state_version (ob_job o') \<and> pj_state_version (ob_job o') \<le> MAX_JSON_INTEGER"
    and "1 \<le> ob_durable_state_sequence o' \<and> ob_durable_state_sequence o' \<le> MAX_JSON_INTEGER"
  using assms by (auto simp: validate_observation_def Let_def split: if_splits option.splits)

lemma digits_value_append: "digits_value (s @ [c]) = 10 * digits_value s + (int (byte_of c) - 48)"
  by (simp add: digits_value_def)

lemma byte_of_digit: "n < 10 \<Longrightarrow> byte_of (char_of (48 + n)) = 48 + n"
  by simp

lemma digits_value_decimal: "digits_value (decimal n) = int n"
proof (induction n rule: decimal.induct)
  case (1 n)
  show ?case
  proof (cases "n < 10")
    case True
    then show ?thesis by (simp add: decimal.simps digits_value_def byte_of_digit)
  next
    case False
    then have "digits_value (decimal n) = 10 * int (n div 10) + int (n mod 10)"
      using 1 by (simp add: decimal.simps [of n] digits_value_append byte_of_digit)
    then show ?thesis by presburger
  qed
qed

lemma decimal_first: "0 < n \<Longrightarrow> \<exists>c r. decimal n = c # r \<and> is_ascii_digit c"
  using decimal_digits [of n] by (subst decimal.simps, subst (asm) decimal.simps) (auto simp: neq_Nil_conv
      intro: list.exhaust [of "decimal (n div 10)"] split: if_splits)

text \<open>The number of states of the shortest history that ends in a state.\<close>

fun states_entered :: "print_job_state \<Rightarrow> 64 word" where
  "states_entered PrintAccepted = 1"
| "states_entered PrintInProgress = 2"
| "states_entered PrintFailed = 2"
| "states_entered PrintExpired = 2"
| "states_entered PrintCanceled = 2"
| "states_entered PrintOutputConfirmed = 3"
| "states_entered PrintOutcomeUnknown = 3"

section \<open>A concrete observation\<close>

definition sample_origin :: managed_print_job_origin where
  "sample_origin = \<lparr>po_kind = Report, po_organization_id = OrganizationId ''org_a'',
     po_site_id = SiteId ''site_a'', po_database = ''db'', po_company_id = ''1'',
     po_report_binding_id = ''rb'', po_report_route = Manual, po_report_action = ''act'',
     po_source_model = ''sale.order'', po_record_ids = [''7'', ''42''], po_wizard_input_digest = None,
     po_rendered_document_index = 0\<rparr>"

definition sample_print_job :: managed_print_job_snapshot where
  "sample_print_job = \<lparr>pj_print_job_id = ''pj1'', pj_print_intent_id = PrintIntentId ''pi_a'',
     pj_device_id = DeviceId ''dev_a'', pj_origin = sample_origin, pj_managed_work_id = ManagedWorkId ''mw_a'',
     pj_state = PrintAccepted, pj_state_version = 1, pj_accepted_at = 100, pj_started_at = None,
     pj_terminal_at = None, pj_expires_at = 900, pj_error_code = None, pj_message_key = None,
     pj_confirmation_evidence = None, pj_contract_version = ''v1''\<rparr>"

definition sample_observation :: agent_state_observation where
  "sample_observation = \<lparr>ob_contract_major = 1, ob_envelope_id = ''env1'', ob_agent_id = AgentId ''agt_a'',
     ob_agent_boot_id = ''boot'', ob_reconciliation_session_id = ''sess'', ob_dispatch_epoch = 1,
     ob_envelope_sequence = 1, ob_durable_state_sequence = 1, ob_observed_at = 110, ob_issued_at = 120,
     ob_payload_fingerprint = ''sha256:'' @ replicate 64 CHR ''d'', ob_job = sample_print_job\<rparr>"

definition sample_envelopes :: "unit envelope_library" where
  "sample_envelopes = \<lparr>el_decode_header = (\<lambda>b. Some \<lparr>ph_alg = ''EdDSA'',
       ph_kid = ''agent_state_'' @ replicate 64 CHR ''b'', ph_typ = ''application/inari-agent-state+jws''\<rparr>),
     el_signature_from_slice = Some, el_json_from_slice = (\<lambda>b. Some ()),
     el_canonical = (\<lambda>v. Inr ''claims''), el_observation_from_value = (\<lambda>v. Some sample_observation)\<rparr>"

definition sample_compact :: string where
  "sample_compact = ''header.claims.'' @ replicate 64 CHR ''b''"

definition sample_envelope :: unverified_envelope where
  "sample_envelope = \<lparr>ue_signing_input = ''header.claims'', ue_header = \<lparr>ph_alg = ''EdDSA'',
      ph_kid = ''agent_state_'' @ replicate 64 CHR ''b'', ph_typ = ''application/inari-agent-state+jws''\<rparr>,
      ue_payload = ''claims'', ue_signature = replicate 64 CHR ''b''\<rparr>"

lemma sample_envelope_parsed:
  "UnverifiedAgentStateEnvelope_parse sample_keys sample_envelopes sample_compact = Inr sample_envelope"
proof -
  have "split_on CHR ''.'' sample_compact = [''header'', ''claims'', replicate 64 CHR ''b'']"
    "state_identifier (''agent_state_'' @ replicate 64 CHR ''b'')"
    by code_simp+
  then show ?thesis
    by (simp add: UnverifiedAgentStateEnvelope_parse_def sample_keys_def sample_envelopes_def
        sample_compact_def sample_envelope_def)
qed

lemma sample_envelope_verified:
  "envelope_verify sample_keys sample_envelopes sample_envelope sample_state_jwk = Inr sample_observation"
  by code_simp

lemma sample_observation_valid: "validate_observation sample_observation = Inr ()"
  by code_simp

section \<open>Properties\<close>



text \<open>
  C35. A validated observation describes one consistent Print Job: its times are ordered, it
  has an end time exactly when its state is terminal, output evidence exactly when output
  is confirmed, an error exactly when it failed or is unknown, and its version is at least
  the number of states of the shortest history that reaches its state.
\<close>

theorem validated_observation_lifecycle:
  assumes valid: "validate_observation o' = Inr ()"
  defines "pj \<equiv> ob_job o'"
  shows "pj_accepted_at pj < pj_expires_at pj \<and>
    (\<forall>s. pj_started_at pj = Some s \<longrightarrow> pj_accepted_at pj \<le> s) \<and>
    (\<forall>s t. pj_started_at pj = Some s \<and> pj_terminal_at pj = Some t \<longrightarrow> s \<le> t) \<and>
    (\<forall>t. pj_terminal_at pj = Some t \<longrightarrow> pj_accepted_at pj \<le> t \<and> t \<le> ob_observed_at o') \<and>
    pj_accepted_at pj \<le> ob_observed_at o' \<and> ob_observed_at o' \<le> ob_issued_at o' \<and>
    (pj_terminal_at pj \<noteq> None \<longleftrightarrow> is_terminal (pj_state pj)) \<and>
    (pj_confirmation_evidence pj \<noteq> None \<longleftrightarrow> pj_state pj = PrintOutputConfirmed) \<and>
    (pj_error_code pj \<noteq> None \<longleftrightarrow> pj_state pj \<in> {PrintFailed, PrintOutcomeUnknown}) \<and>
    states_entered (pj_state pj) \<le> pj_state_version pj \<and> pj_state_version pj \<le> 2 ^ 53 - 1"
proof -
  note facts = validate_observation_Inr [OF valid, folded pj_def]
  have times: "pj_accepted_at pj < pj_expires_at pj"
      "pj_started_at pj = Some s \<Longrightarrow> pj_accepted_at pj \<le> s"
      "pj_terminal_at pj = Some t \<Longrightarrow> unwrap_or (pj_started_at pj) (pj_accepted_at pj) \<le> t"
      "latest_at pj \<le> ob_observed_at o'" "ob_observed_at o' \<le> ob_issued_at o'" for s t
    using facts(1) by (auto simp: timestamps_ok_def Let_def pj_def)
  have order: "pj_accepted_at pj \<le> ob_observed_at o'"
    "pj_terminal_at pj = Some t \<Longrightarrow> pj_accepted_at pj \<le> t \<and> t \<le> ob_observed_at o'"
    "pj_started_at pj = Some s \<Longrightarrow> pj_terminal_at pj = Some t \<Longrightarrow> s \<le> t" for s t
    using times(2) [of "the (pj_started_at pj)"] times(3) [of "the (pj_terminal_at pj)"] times(4)
    by (auto simp: latest_at_def opt_or_def unwrap_or_def split: option.splits)
  have life: "(pj_terminal_at pj \<noteq> None \<longleftrightarrow> is_terminal (pj_state pj)) \<and>
      (pj_state pj = PrintOutputConfirmed \<longrightarrow> pj_confirmation_evidence pj \<noteq> None) \<and>
      states_entered (pj_state pj) \<le> pj_state_version pj"
    using facts(2) by (cases "pj_state pj") (auto simp: is_terminal_def)
  have "pj_state_version pj \<le> 2 ^ 53 - 1" using facts(5) by (simp add: MAX_JSON_INTEGER_def)
  then show ?thesis using times(1,2,5) order life facts(3,4) by blast
qed

theorem validated_observation_lifecycle_witness:
  "pj_accepted_at (ob_job sample_observation) < pj_expires_at (ob_job sample_observation)"
  using validated_observation_lifecycle [OF sample_observation_valid] by blast

text \<open>
  C36. The record identifiers an observation may carry are exactly the decimal numerals,
  without sign or leading zero, of the positive 64-bit integers.
\<close>

theorem record_id_canonical:
  "record_id_ok s \<longleftrightarrow> (\<exists>n. 0 < n \<and> int n \<le> i64_max \<and> s = decimal n)"
proof
  assume "record_id_ok s"
  then obtain v where "parse_i64 s = Some v" "v > 0" "decimal (nat v) = s"
    by (auto simp: record_id_ok_def split: option.splits)
  moreover from this have "v \<le> i64_max" by (auto simp: parse_i64_def Let_def split: if_splits prod.splits)
  ultimately show "\<exists>n. 0 < n \<and> int n \<le> i64_max \<and> s = decimal n" by (intro exI [of _ "nat v"]) auto
next
  assume "\<exists>n. 0 < n \<and> int n \<le> i64_max \<and> s = decimal n"
  then obtain n where n: "0 < n" "int n \<le> i64_max" "s = decimal n" by blast
  obtain c r where c: "decimal n = c # r" "is_ascii_digit c" using decimal_first [OF n(1)] by blast
  have "c \<noteq> CHR ''-''" "c \<noteq> CHR ''+''" using c(2) by (auto simp: is_ascii_digit_def)
  then have "parse_i64 s = Some (int n)"
    using n c decimal_digits [of n] digits_value_decimal [of n]
    by (simp add: parse_i64_def i64_min_def)
  then show "record_id_ok s" using n by (simp add: record_id_ok_def)
qed

end
