(* ===== verification/State_Observations.thy ===== *)
theory State_Observations
  imports State_Envelopes Progress
begin

text \<open>
  Reconciliation of signed Agent State with the recorded Managed Work
  (\<^verbatim>\<open>inari-gateway/src/persistence/state_observations.rs\<close>): a signed observation becomes
  evidence, moves its Managed Work to accepted and ends the retention of its payload.  The
  current observation of a work follows the life cycle of a Print Job, given as a step
  relation; \<open>works_progress\<close> states this for whole databases and is a preorder, so that it
  composes over operations.
\<close>

section \<open>Definitions\<close>

definition observation_conflict :: "string \<Rightarrow> gateway_error" where
  "observation_conflict detail = Conflict detail"

definition validate_work_identity ::
    "(bytes \<Rightarrow> string) \<Rightarrow> managed_work_row \<Rightarrow> agent_state_observation \<Rightarrow> unit gateway_result" where
  "validate_work_identity hex_encode work observation =
    (let pj = ob_job observation; origin = pj_origin pj in
     if mw_agent_id work \<noteq> agent_str (ob_agent_id observation) \<or>
        mw_organization_id work \<noteq> organization_str (po_organization_id origin) \<or>
        mw_site_id work \<noteq> site_str (po_site_id origin) \<or>
        mw_database_name work \<noteq> po_database origin \<or>
        mw_company_id work \<noteq> po_company_id origin \<or>
        mw_device_id work \<noteq> device_str (pj_device_id pj) \<or>
        mw_print_intent_id work \<noteq> intent_str (pj_print_intent_id pj) \<or>
        bc_report_binding_id (mw_binding_claim work) \<noteq> po_report_binding_id origin \<or>
        bc_report_action_id (mw_binding_claim work) \<noteq> po_report_action origin \<or>
        ob_payload_fingerprint observation \<noteq> ''sha256:'' @ hex_encode (mw_payload_fingerprint work) \<or>
        (case mw_print_job_id work of None \<Rightarrow> False | Some known \<Rightarrow> known \<noteq> pj_print_job_id pj) \<or>
        pj_expires_at pj \<noteq> mw_expires_at work \<or>
        pj_accepted_at pj > mw_expires_at work
     then Inl (observation_conflict ''Agent State does not match its Managed Work identity or deadline'')
     else Inr ())"

definition reconcile_version ::
    "agent_state_observation \<Rightarrow> agent_state_observation \<Rightarrow> bool gateway_result" where
  "reconcile_version current incoming =
    (let old = ob_job current; new = ob_job incoming in
     if pj_print_job_id old \<noteq> pj_print_job_id new \<or> pj_accepted_at old \<noteq> pj_accepted_at new \<or>
        pj_expires_at old \<noteq> pj_expires_at new \<or> pj_origin old \<noteq> pj_origin new
     then Inl (observation_conflict ''Agent State changed immutable Print Job metadata'')
     else if pj_state_version new < pj_state_version old then Inr False
     else if pj_state_version new = pj_state_version old then
       (if old \<noteq> new
        then Inl (observation_conflict ''Agent State changed a recorded Print Job state version'')
        else Inr (ob_observed_at incoming > ob_observed_at current))
     else if is_terminal (pj_state old) \<or> pj_state new = PrintAccepted \<or>
        (pj_started_at old \<noteq> None \<and> pj_started_at old \<noteq> pj_started_at new) \<or>
        ob_durable_state_sequence incoming \<le> ob_durable_state_sequence current
     then Inl (observation_conflict ''Agent State conflicts with the recorded Print Job lifecycle'')
     else Inr True)"

text \<open>
  The signed envelope of a publication: \<^const>\<open>None\<close> for a publication that carries no
  Agent State.
\<close>

definition state_event_envelope :: "agent_publication \<Rightarrow> string option gateway_result" where
  "state_event_envelope publication =
    (case publication of
       PubRuntimeEvent message_id occurred_at event command_id job_id \<Rightarrow>
         if re_resource_kind event \<noteq> ''print_job'' then Inr None
         else (case StructuredFields_get (re_payload event) ''state_envelope'' of
             Some (SText compact) \<Rightarrow>
               if length (re_payload event) \<noteq> 1 then
                 Inl (observation_conflict ''managed Print Job event contains unsigned fields'')
               else Inr (Some compact)
           | _ \<Rightarrow> Inl (observation_conflict ''managed Print Job event has no signed state envelope''))
     | _ \<Rightarrow> Inr None)"

text \<open>
  Verification against the key registry of the Agent.  A retired key confirms evidence that
  is already stored (\<^const>\<open>None\<close>) and introduces nothing.
\<close>

definition verified_observation ::
    "key_library \<Rightarrow> 'v envelope_library \<Rightarrow> string \<Rightarrow> string \<Rightarrow> gateway_db \<Rightarrow>
     agent_state_observation option gateway_result" where
  "verified_observation keys lib agent_id compact db =
    and_then (UnverifiedAgentStateEnvelope_parse keys lib compact) (\<lambda>envelope.
    and_then (ok_or (observation_conflict ''Agent State key is not registered for this Agent'')
      (case find_by ak_key_id (ph_kid (ue_header envelope)) (agent_keys db) of
         Some key \<Rightarrow> if ak_agent_id key = agent_id \<and> ak_purpose key = AgentState then Some key else None
       | None \<Rightarrow> None)) (\<lambda>key.
    and_then (envelope_verify keys lib envelope (ak_public_jwk key)) (\<lambda>observation.
    if ob_observed_at observation < ak_registered_at key then
      Inl (observation_conflict ''Agent State predates registration of its signing key'')
    else (case ak_retired_at key of
        None \<Rightarrow> Inr (Some observation)
      | Some retired_at \<Rightarrow>
          if ob_observed_at observation < retired_at \<and>
             (case find_by so_envelope_id (ob_envelope_id observation) (state_observations db) of
                None \<Rightarrow> False
              | Some stored \<Rightarrow> so_agent_id stored = agent_id \<and>
                  so_state_envelope (so_signed_observation stored) = compact \<and>
                  so_observation (so_signed_observation stored) = observation)
          then Inr None
          else Inl (observation_conflict ''retired Agent State key cannot introduce new observations'')))))"

definition publication_matches :: "string \<Rightarrow> agent_publication \<Rightarrow> agent_state_observation \<Rightarrow> bool" where
  "publication_matches agent_id publication observation =
    (case publication of
       PubRuntimeEvent message_id occurred_at event command_id job_id \<Rightarrow>
         (let pj = ob_job observation in
          agent_str (ob_agent_id observation) = agent_id \<and>
          ob_envelope_id observation = message_id \<and>
          job_id = Some (pj_print_job_id pj) \<and>
          re_resource_id event = pj_print_job_id pj \<and>
          re_event_type event = ''print_job.'' @ PrintJobState_as_str (pj_state pj) \<and>
          re_sequence event = ob_durable_state_sequence observation \<and>
          occurred_at = ob_observed_at observation \<and>
          re_occurred_at event = latest_at pj)
     | _ \<Rightarrow> False)"

definition dispatched_work ::
    "(bytes \<Rightarrow> string) \<Rightarrow> string \<Rightarrow> string option \<Rightarrow> agent_state_observation \<Rightarrow> gateway_db \<Rightarrow>
     (command_row \<times> managed_work_row) gateway_result" where
  "dispatched_work hex_encode agent_id requested observation db =
    (let pj = ob_job observation in
     and_then (ok_or (observation_conflict ''managed Print Job event has no dispatch command'') requested)
       (\<lambda>command_id.
     and_then (ok_or (observation_conflict ''managed Print Job dispatch does not belong to this Agent'')
       (case find_by cm_command_id command_id (commands db) of
          Some dispatch \<Rightarrow> if cm_agent_id dispatch = agent_id then Some dispatch else None
        | None \<Rightarrow> None)) (\<lambda>dispatch.
     if cm_command dispatch \<noteq> ManagedWorkContent (pj_managed_work_id pj) then
       Inl (observation_conflict ''managed Print Job does not match its dispatch command'')
     else
       and_then (ok_or (observation_conflict ''managed Print Job has no Managed Work record'')
         (find_by mw_managed_work_id (work_str (pj_managed_work_id pj)) (managed_works db))) (\<lambda>work.
       and_then (validate_work_identity hex_encode work observation) (\<lambda>_.
       if mw_state work \<notin> {DispatchingValue, RecoveryUncertainValue, AcceptedValue} then
         Inl (observation_conflict ''Agent State conflicts with the Managed Work admission state'')
       else Inr (dispatch, work))))))"

text \<open>\<^verbatim>\<open>INSERT ... ON CONFLICT (envelope_id) DO NOTHING\<close> and the check of the stored row.\<close>

definition store_evidence ::
    "string \<Rightarrow> managed_work_row \<Rightarrow> signed_agent_state_observation \<Rightarrow> instant \<Rightarrow> gateway_db \<Rightarrow>
     gateway_db gateway_result" where
  "store_evidence agent_id work evidence now db =
    (let envelope_id = ob_envelope_id (so_observation evidence) in
     and_then (if exists_where (\<lambda>r. so_envelope_id r = envelope_id) (state_observations db) then Inr db
       else insert_state_observation
         \<lparr>so_envelope_id = envelope_id, so_agent_id = agent_id,
          so_managed_work_id = mw_managed_work_id work, so_signed_observation = evidence,
          so_received_at = now\<rparr> db) (\<lambda>db.
     and_then (ok_or (observation_conflict ''Agent State observation was not stored'')
       (find_by so_envelope_id envelope_id (state_observations db))) (\<lambda>stored.
     if so_agent_id stored \<noteq> agent_id \<or> so_managed_work_id stored \<noteq> mw_managed_work_id work \<or>
        so_signed_observation stored \<noteq> evidence
     then Inl (observation_conflict ''Agent State envelope ID was reused for different evidence'')
     else Inr db)))"

definition observed_work ::
    "signed_agent_state_observation \<Rightarrow> instant \<Rightarrow> managed_work_row \<Rightarrow> managed_work_row" where
  "observed_work evidence now work =
    work\<lparr>mw_state := AcceptedValue,
         mw_print_job_id := Some (pj_print_job_id (ob_job (so_observation evidence))),
         mw_print_job_observation := Some evidence, mw_error_code := None,
         mw_message_key := ''managed_work.accepted'',
         mw_payload_deleted_at := opt_or (mw_payload_deleted_at work) (Some now),
         mw_updated_at := now\<rparr>"

text \<open>\<^verbatim>\<open>ActiveModel::update\<close> of one command.\<close>

definition update_command :: "command_row \<Rightarrow> gateway_db \<Rightarrow> gateway_db gateway_result" where
  "update_command new db = statement commands_ok (db\<lparr>commands :=
     update_where (\<lambda>c. cm_command_id c = cm_command_id new) (\<lambda>_. new) (commands db)\<rparr>)"

definition delete_payload :: "string \<Rightarrow> gateway_db \<Rightarrow> gateway_db" where
  "delete_payload managed_work_id db =
    db\<lparr>managed_payloads :=
      delete_where (\<lambda>p. mp_managed_work_id p = managed_work_id) (managed_payloads db)\<rparr>"

definition accept_observation ::
    "command_row \<Rightarrow> managed_work_row \<Rightarrow> bool \<Rightarrow> signed_agent_state_observation \<Rightarrow> instant \<Rightarrow>
     gateway_db \<Rightarrow> gateway_db gateway_result" where
  "accept_observation dispatch work replace_current evidence now db =
    and_then (if replace_current then update_managed_work (observed_work evidence now work) db else Inr db) (\<lambda>db.
    and_then (update_command (dispatch\<lparr>cm_state := CmdAccepted, cm_updated_at := now\<rparr>) db) (\<lambda>db.
    Inr (delete_payload (mw_managed_work_id work) db)))"

definition record_observation ::
    "(bytes \<Rightarrow> string) \<Rightarrow> string \<Rightarrow> string option \<Rightarrow> string \<Rightarrow> agent_state_observation \<Rightarrow> instant \<Rightarrow>
     gateway_db \<Rightarrow> gateway_db gateway_result" where
  "record_observation hex_encode agent_id command_id compact observation now db =
    and_then (dispatched_work hex_encode agent_id command_id observation db) (\<lambda>(dispatch, work).
    and_then (case mw_print_job_observation work of
        Some current \<Rightarrow> reconcile_version (so_observation current) observation
      | None \<Rightarrow> Inr True) (\<lambda>replace_current.
    let evidence = \<lparr>so_observation = observation, so_state_envelope = compact\<rparr> in
    and_then (store_evidence agent_id work evidence now db)
      (accept_observation dispatch work replace_current evidence now)))"

definition reconcile_state_observation ::
    "key_library \<Rightarrow> 'v envelope_library \<Rightarrow> string \<Rightarrow> agent_publication \<Rightarrow> instant \<Rightarrow> gateway_db \<Rightarrow>
     gateway_db gateway_result" where
  "reconcile_state_observation keys lib agent_id publication now db =
    and_then (state_event_envelope publication) (\<lambda>event.
    case event of None \<Rightarrow> Inr db
    | Some compact \<Rightarrow>
        and_then (verified_observation keys lib agent_id compact db) (\<lambda>verified.
        case verified of None \<Rightarrow> Inr db
        | Some observation \<Rightarrow>
            if \<not> publication_matches agent_id publication observation then
              Inl (observation_conflict ''publication does not match its signed Agent State'')
            else record_observation (kl_hex keys) agent_id (publication_command_id publication) compact
                   observation now db))"

section \<open>The life cycles\<close>

text \<open>The steps of a Print Job, and of the Managed Work that waits for it.\<close>

inductive print_step :: "print_job_state \<Rightarrow> print_job_state \<Rightarrow> bool" where
  begun: "print_step PrintAccepted PrintInProgress"
| unprinted: "s \<in> {PrintFailed, PrintExpired, PrintCanceled} \<Longrightarrow> print_step PrintAccepted s"
| finished: "s \<in> {PrintOutputConfirmed, PrintOutcomeUnknown, PrintFailed} \<Longrightarrow> print_step PrintInProgress s"

inductive work_step :: "managed_work_state_value \<Rightarrow> managed_work_state_value \<Rightarrow> bool" where
  lapsed: "work_step PendingAgentValue ExpiredValue"
| uncertain: "work_step DispatchingValue RecoveryUncertainValue"
| observed: "s \<in> {DispatchingValue, RecoveryUncertainValue} \<Longrightarrow> work_step s AcceptedValue"

inductive_cases print_stepE: "print_step s t"
inductive_cases work_stepE: "work_step s t"

abbreviation print_path :: "print_job_state \<Rightarrow> print_job_state \<Rightarrow> bool" where
  "print_path \<equiv> print_step\<^sup>*\<^sup>*"

abbreviation work_path :: "managed_work_state_value \<Rightarrow> managed_work_state_value \<Rightarrow> bool" where
  "work_path \<equiv> work_step\<^sup>*\<^sup>*"

lemma terminal_is_final: "is_terminal s \<Longrightarrow> \<not> print_step s t"
  by (auto simp: is_terminal_def elim: print_stepE)

lemma print_path_terminal: "print_path s t \<Longrightarrow> is_terminal s \<Longrightarrow> t = s"
  using terminal_is_final by (metis converse_rtranclpE)

lemma print_path_from_accepted: "print_path PrintAccepted s"
proof (cases s)
  case PrintOutputConfirmed
  then show ?thesis
    using begun finished [of PrintOutputConfirmed] by (auto intro: rtranclp_trans)
next
  case PrintOutcomeUnknown
  then show ?thesis
    using begun finished [of PrintOutcomeUnknown] by (auto intro: rtranclp_trans)
qed (auto intro: begun unprinted)

text \<open>How the current observation of one work is replaced.\<close>

definition observation_follows :: "agent_state_observation \<Rightarrow> agent_state_observation \<Rightarrow> bool" where
  "observation_follows old new \<longleftrightarrow>
    pj_print_job_id (ob_job new) = pj_print_job_id (ob_job old) \<and>
    pj_state_version (ob_job old) \<le> pj_state_version (ob_job new) \<and>
    print_path (pj_state (ob_job old)) (pj_state (ob_job new)) \<and>
    (pj_state_version (ob_job new) = pj_state_version (ob_job old) \<or> is_terminal (pj_state (ob_job old)) \<longrightarrow>
      ob_job new = ob_job old)"

lemma observation_follows_refl [simp]: "observation_follows a a"
  by (simp add: observation_follows_def)

lemma observation_follows_trans:
  assumes "observation_follows a b" and "observation_follows b c"
  shows "observation_follows a c"
proof -
  have "ob_job c = ob_job a" if "pj_state_version (ob_job c) = pj_state_version (ob_job a)"
    using assms that unfolding observation_follows_def by (metis order_antisym)
  moreover have "ob_job c = ob_job a" if "is_terminal (pj_state (ob_job a))"
    using assms that unfolding observation_follows_def by metis
  ultimately show ?thesis
    using assms unfolding observation_follows_def by (metis order_trans rtranclp_trans)
qed

lemma later_version_path:
  assumes "valid_lifecycle (pj_state old) old" and "valid_lifecycle (pj_state new) new"
    and "\<not> is_terminal (pj_state old)" and "pj_state new \<noteq> PrintAccepted"
    and "pj_started_at old = None \<or> pj_started_at old = pj_started_at new"
  shows "print_path (pj_state old) (pj_state new)"
proof (cases "pj_state old = PrintAccepted")
  case True
  then show ?thesis using print_path_from_accepted by simp
next
  case False
  then have p: "pj_state old = PrintInProgress" using assms(3) by (auto simp: is_terminal_def)
  then have "pj_started_at new \<noteq> None" using assms(1,5) by auto
  then have "pj_state new \<in> {PrintInProgress, PrintOutputConfirmed, PrintOutcomeUnknown, PrintFailed}"
    using assms(2,4) by (cases "pj_state new") auto
  then show ?thesis unfolding p by (auto intro: finished)
qed

lemma reconcile_version_follows:
  assumes "reconcile_version current incoming = Inr True"
    and "validate_observation current = Inr ()" and "validate_observation incoming = Inr ()"
  shows "observation_follows current incoming"
proof (cases "pj_state_version (ob_job incoming) = pj_state_version (ob_job current)")
  case True
  then have "ob_job incoming = ob_job current"
    using assms(1) by (auto simp: reconcile_version_def Let_def split: if_splits)
  then show ?thesis by (simp add: observation_follows_def)
next
  case False
  then have "print_path (pj_state (ob_job current)) (pj_state (ob_job incoming))"
    using assms(1) validate_observation_Inr(2) [OF assms(2)] validate_observation_Inr(2) [OF assms(3)]
    by (intro later_version_path) (auto simp: reconcile_version_def Let_def split: if_splits)
  then show ?thesis
    using assms(1) False by (auto simp: reconcile_version_def observation_follows_def Let_def split: if_splits)
qed

text \<open>How a whole row develops.  Everything outside its life cycle is fixed at admission.\<close>

definition work_identity :: "managed_work_row \<Rightarrow> managed_work_row" where
  "work_identity w = w\<lparr>mw_state := PendingAgentValue, mw_payload_deleted_at := None,
     mw_print_job_id := None, mw_print_job_observation := None, mw_error_code := None,
     mw_message_key := [], mw_updated_at := 0\<rparr>"

definition work_evolves :: "managed_work_row \<Rightarrow> managed_work_row \<Rightarrow> bool" where
  "work_evolves w v \<longleftrightarrow> work_identity v = work_identity w \<and> work_path (mw_state w) (mw_state v) \<and>
    (mw_payload_deleted_at w \<noteq> None \<longrightarrow> mw_payload_deleted_at v = mw_payload_deleted_at w) \<and>
    (mw_print_job_id w \<noteq> None \<longrightarrow> mw_print_job_id v = mw_print_job_id w) \<and>
    (case mw_print_job_observation w of None \<Rightarrow> True
      | Some s \<Rightarrow> (case mw_print_job_observation v of None \<Rightarrow> False
          | Some t \<Rightarrow> observation_follows (so_observation s) (so_observation t)))"

definition works_evolve :: "gateway_db \<Rightarrow> gateway_db \<Rightarrow> bool" where
  "works_evolve db db' \<longleftrightarrow>
    (\<forall>wid w. find_by mw_managed_work_id wid (managed_works db) = Some w \<longrightarrow>
      (\<exists>v. find_by mw_managed_work_id wid (managed_works db') = Some v \<and> work_evolves w v))"

lemma work_evolves_refl [simp]: "work_evolves w w"
  by (simp add: work_evolves_def split: option.splits)

lemma work_evolves_trans:
  assumes "work_evolves u v" and "work_evolves v w"
  shows "work_evolves u w"
proof -
  have "work_path (mw_state u) (mw_state w)"
    using assms unfolding work_evolves_def by (meson rtranclp_trans)
  then show ?thesis
    using assms observation_follows_trans by (auto simp: work_evolves_def split: option.splits)
qed

lemma works_evolve_same: "managed_works db' = managed_works db \<Longrightarrow> works_evolve db db'"
  by (simp add: works_evolve_def)

lemma works_evolve_append: "managed_works db' = managed_works db @ ws \<Longrightarrow> works_evolve db db'"
  by (auto simp: works_evolve_def find_by_append)

lemma works_evolve_trans: "works_evolve a b \<Longrightarrow> works_evolve b c \<Longrightarrow> works_evolve a c"
  unfolding works_evolve_def by (blast intro: work_evolves_trans)

lemma works_evolve_update:
  assumes "find_by mw_managed_work_id (mw_managed_work_id w) (managed_works db) = Some w"
    and "managed_works db' = update_where (\<lambda>r. mw_managed_work_id r = mw_managed_work_id w) (\<lambda>_. v)
      (managed_works db)"
    and "work_evolves w v"
  shows "works_evolve db db'"
proof -
  have "mw_managed_work_id v = mw_managed_work_id w"
    using assms(3) by (auto simp: work_evolves_def work_identity_def dest: arg_cong [of _ _ mw_managed_work_id])
  then have "find_by mw_managed_work_id k (managed_works db') = map_option
      (\<lambda>r. if mw_managed_work_id r = mw_managed_work_id w then v else r)
      (find_by mw_managed_work_id k (managed_works db))" for k
    unfolding assms(2) by (intro find_by_update_where) simp
  moreover have "r = w" if "find_by mw_managed_work_id k (managed_works db) = Some r"
      "mw_managed_work_id r = mw_managed_work_id w" for k r
    using find_by_Some [OF that(1)] that assms(1) by simp
  ultimately show ?thesis using assms(3) by (fastforce simp: works_evolve_def)
qed

section \<open>Evidence and payload retention\<close>

text \<open>
  A work is accepted exactly when it has a current observation; that observation is valid,
  names its Print Job and is stored evidence.  The payload is there exactly until its
  deletion is recorded.
\<close>

definition work_observed_ok :: "gateway_db \<Rightarrow> managed_work_row \<Rightarrow> bool" where
  "work_observed_ok db w \<longleftrightarrow> (case mw_print_job_observation w of
      None \<Rightarrow> mw_state w \<noteq> AcceptedValue
    | Some s \<Rightarrow> mw_state w = AcceptedValue \<and> validate_observation (so_observation s) = Inr () \<and>
        mw_print_job_id w = Some (pj_print_job_id (ob_job (so_observation s))) \<and>
        mw_payload_deleted_at w \<noteq> None \<and>
        (\<exists>r \<in> set (state_observations db). so_signed_observation r = s \<and>
          so_managed_work_id r = mw_managed_work_id w))"

definition payload_ok :: "gateway_db \<Rightarrow> managed_work_row \<Rightarrow> bool" where
  "payload_ok db w \<longleftrightarrow> (mw_payload_deleted_at w = None \<longleftrightarrow>
    mw_managed_work_id w \<in> mp_managed_work_id ` set (managed_payloads db))"

definition evidence_ok :: "gateway_db \<Rightarrow> bool" where
  "evidence_ok db \<longleftrightarrow> (\<forall>w \<in> set (managed_works db). work_observed_ok db w \<and> payload_ok db w)"

definition work_progress :: "gateway_db \<Rightarrow> gateway_db \<Rightarrow> bool" where
  "work_progress db db' \<longleftrightarrow> db_progress db db' \<and>
    (state_ok db \<and> evidence_ok db \<longrightarrow> evidence_ok db' \<and> works_evolve db db')"

interpretation works: state_preorder work_progress
proof
  show "work_progress s s" for s
    by (simp add: work_progress_def progress.refl works_evolve_same)
  show "work_progress s t \<Longrightarrow> work_progress t u \<Longrightarrow> work_progress s u" for s t u
    unfolding work_progress_def
    by (blast intro: progress.trans works_evolve_trans dest: db_progress_def [THEN iffD1])
qed

lemma work_observed_ok_mono:
  "set (state_observations db) \<subseteq> set (state_observations db') \<Longrightarrow> work_observed_ok db w \<Longrightarrow>
    work_observed_ok db' w"
  by (auto simp: work_observed_ok_def split: option.splits)

lemma work_progress_other:
  assumes "db_progress db db'" and "managed_works db' = managed_works db"
    and "managed_payloads db' = managed_payloads db"
  shows "work_progress db db'"
proof -
  have "set (state_observations db) \<subseteq> set (state_observations db')"
    using assms(1) by (auto simp: db_progress_def logs_grow_def)
  then have "evidence_ok db \<Longrightarrow> evidence_ok db'"
    using assms(2,3) work_observed_ok_mono [of db db'] by (simp add: evidence_ok_def payload_ok_def)
  then show ?thesis using assms works_evolve_same by (simp add: work_progress_def)
qed

section \<open>The effect of a reconciliation\<close>

lemma update_command_progress:
  assumes "update_command new db = Inr db'"
    and "find_by cm_command_id (cm_command_id new) (commands db) = Some c" and "command_evolves c new"
  shows "db_progress db db'"
proof -
  let ?cs = "update_where (\<lambda>c. cm_command_id c = cm_command_id new) (\<lambda>_. new) (commands db)"
  have db': "db' = db\<lparr>commands := ?cs\<rparr>" and ok: "commands_ok db'"
    using assms(1) by (simp_all add: update_command_def)
  have "find_by cm_command_id k ?cs = map_option
      (\<lambda>c. if cm_command_id c = cm_command_id new then new else c) (find_by cm_command_id k (commands db))" for k
    by (rule find_by_update_where) simp
  moreover have "d = c" if "find_by cm_command_id k (commands db) = Some d"
      "cm_command_id d = cm_command_id new" for d k
    using find_by_Some [OF that(1)] that assms(2) by simp
  ultimately have "commands_evolve db (db\<lparr>commands := ?cs\<rparr>)"
    using assms(3) by (fastforce simp: commands_evolve_def)
  moreover have "db_ok (db\<lparr>commands := ?cs\<rparr>) \<or> \<not> db_ok db"
    using ok db_ok_tables(4) unfolding db' by blast
  ultimately show ?thesis unfolding db' by (intro progress_parents)
qed

text \<open>What one stored observation looks like.\<close>

definition evidence_stored ::
    "string \<Rightarrow> managed_work_row \<Rightarrow> signed_agent_state_observation \<Rightarrow> gateway_db \<Rightarrow> bool" where
  "evidence_stored agent_id work evidence db \<longleftrightarrow>
    (\<exists>r. find_by so_envelope_id (ob_envelope_id (so_observation evidence)) (state_observations db) = Some r \<and>
      so_agent_id r = agent_id \<and> so_managed_work_id r = mw_managed_work_id work \<and>
      so_signed_observation r = evidence)"

lemma store_evidence_stored:
  "store_evidence agent_id work evidence now db = Inr db' \<Longrightarrow> evidence_stored agent_id work evidence db'"
  unfolding store_evidence_def Let_def and_then_eq_Inr ok_or_eq_Inr evidence_stored_def
  by (auto split: if_splits)

lemma store_evidence_rows:
  assumes "store_evidence agent_id work evidence now db = Inr db'"
  shows "\<exists>rows. db' = db\<lparr>state_observations := state_observations db @ rows\<rparr> \<and>
    (\<forall>row \<in> set rows. insert_state_observation row db = Inr db' \<and> so_signed_observation row = evidence \<and>
      so_agent_id row = agent_id \<and> so_managed_work_id row = mw_managed_work_id work)"
proof -
  let ?row = "\<lparr>so_envelope_id = ob_envelope_id (so_observation evidence), so_agent_id = agent_id,
    so_managed_work_id = mw_managed_work_id work, so_signed_observation = evidence, so_received_at = now\<rparr>"
  consider "db' = db" | "insert_state_observation ?row db = Inr db'"
    using assms by (auto simp: store_evidence_def Let_def and_then_eq_Inr ok_or_eq_Inr split: if_splits)
  then show ?thesis
  proof cases
    case 1
    then show ?thesis by (intro exI [of _ "[]"]) simp
  next
    case 2
    then have "db' = db\<lparr>state_observations := state_observations db @ [?row]\<rparr>"
      by (simp add: insert_state_observation_def)
    then show ?thesis using 2 by (intro exI [of _ "[?row]"]) simp
  qed
qed

lemma store_evidence_progress:
  assumes "store_evidence agent_id work evidence now db = Inr db'"
  shows "db_progress db db'"
proof -
  obtain rows where rows: "db' = db\<lparr>state_observations := state_observations db @ rows\<rparr>"
      "\<forall>row \<in> set rows. insert_state_observation row db = Inr db'"
    using store_evidence_rows [OF assms] by blast
  show ?thesis
  proof (cases rows)
    case Nil
    then show ?thesis using rows(1) progress.refl by simp
  next
    case (Cons row rest)
    then show ?thesis using insert_state_observation_progress rows(2) by auto
  qed
qed

text \<open>The rows an accepted observation refers to, and the tables it leaves.\<close>

lemma dispatched_work_Inr:
  assumes "dispatched_work hex_encode agent_id requested observation db = Inr (dispatch, work)"
  shows "\<exists>cid. requested = Some cid \<and> find_by cm_command_id cid (commands db) = Some dispatch"
    and "cm_agent_id dispatch = agent_id"
    and "cm_command dispatch = ManagedWorkContent (pj_managed_work_id (ob_job observation))"
    and "find_by mw_managed_work_id (work_str (pj_managed_work_id (ob_job observation)))
      (managed_works db) = Some work"
    and "validate_work_identity hex_encode work observation = Inr ()"
    and "mw_state work \<in> {DispatchingValue, RecoveryUncertainValue, AcceptedValue}"
  using assms
  by (auto simp: dispatched_work_def Let_def and_then_eq_Inr ok_or_eq_Inr split: if_splits option.splits)

lemma accept_observation_Inr:
  assumes "accept_observation dispatch work replace evidence now db = Inr db'"
  shows "\<exists>db1. (if replace then update_managed_work (observed_work evidence now work) db else Inr db) = Inr db1 \<and>
    update_command (dispatch\<lparr>cm_state := CmdAccepted, cm_updated_at := now\<rparr>) db1 =
      Inr (db1\<lparr>commands := commands db'\<rparr>) \<and>
    db' = delete_payload (mw_managed_work_id work) (db1\<lparr>commands := commands db'\<rparr>)"
  using assms by (auto simp: accept_observation_def and_then_eq_Inr update_command_def delete_payload_def)

lemma observed_work_id [simp]: "mw_managed_work_id (observed_work evidence now work) = mw_managed_work_id work"
  by (simp add: observed_work_def)

lemma accept_observation_frame:
  assumes "accept_observation dispatch work replace evidence now db = Inr db'"
  shows "managed_works db' = (if replace then update_where
      (\<lambda>w. mw_managed_work_id w = mw_managed_work_id work) (\<lambda>_. observed_work evidence now work)
      (managed_works db) else managed_works db)"
    and "managed_payloads db' = delete_where (\<lambda>p. mp_managed_work_id p = mw_managed_work_id work)
      (managed_payloads db)"
    and "state_observations db' = state_observations db"
  using assms by (auto simp: accept_observation_def and_then_eq_Inr update_command_def delete_payload_def
      update_managed_work_def split: if_splits)

lemma accept_observation_progress:
  assumes "accept_observation dispatch work replace evidence now db = Inr db'"
    and "find_by cm_command_id (cm_command_id dispatch) (commands db) = Some dispatch"
  shows "db_progress db db'"
proof -
  obtain db1 db2 where step: "(if replace then update_managed_work (observed_work evidence now work) db
        else Inr db) = Inr db1"
      "update_command (dispatch\<lparr>cm_state := CmdAccepted, cm_updated_at := now\<rparr>) db1 = Inr db2"
      "db' = delete_payload (mw_managed_work_id work) db2"
    using accept_observation_Inr [OF assms(1)] by blast
  have "db_progress db db1"
    using step(1) progress.refl by (auto intro: update_managed_work_progress split: if_splits)
  moreover have "commands db1 = commands db"
    using step(1) by (auto simp: update_managed_work_def split: if_splits)
  then have "db_progress db1 db2"
    using assms(2) by (intro update_command_progress [OF step(2), of dispatch]) (simp_all add: command_evolves_def)
  moreover have "db_progress db2 db'"
    unfolding step(3) delete_payload_def by (rule delete_payloads_progress)
  ultimately show ?thesis by (blast intro: progress.trans)
qed

lemma record_observation_Inr:
  assumes "record_observation hex_encode agent_id requested compact observation now db = Inr db'"
  obtains dispatch work replace db1
  where "dispatched_work hex_encode agent_id requested observation db = Inr (dispatch, work)"
    and "(case mw_print_job_observation work of
        Some current \<Rightarrow> reconcile_version (so_observation current) observation | None \<Rightarrow> Inr True) = Inr replace"
    and "store_evidence agent_id work \<lparr>so_observation = observation, so_state_envelope = compact\<rparr> now db = Inr db1"
    and "accept_observation dispatch work replace
      \<lparr>so_observation = observation, so_state_envelope = compact\<rparr> now db1 = Inr db'"
  using assms unfolding record_observation_def Let_def and_then_eq_Inr split_paired_Ex prod.case by blast

lemma record_observation_progress:
  assumes "record_observation hex_encode agent_id requested compact observation now db = Inr db'"
  shows "db_progress db db'"
proof -
  obtain dispatch work replace db1 where s: "dispatched_work hex_encode agent_id requested observation db = Inr (dispatch, work)"
      "store_evidence agent_id work \<lparr>so_observation = observation, so_state_envelope = compact\<rparr> now db = Inr db1"
      "accept_observation dispatch work replace
        \<lparr>so_observation = observation, so_state_envelope = compact\<rparr> now db1 = Inr db'"
    by (rule record_observation_Inr [OF assms])
  obtain rows where rows: "db1 = db\<lparr>state_observations := state_observations db @ rows\<rparr>"
    using store_evidence_rows [OF s(2)] by blast
  then have "commands db1 = commands db" by simp
  moreover obtain cid where cid: "find_by cm_command_id cid (commands db) = Some dispatch"
    using dispatched_work_Inr(1) [OF s(1)] by blast
  then have "find_by cm_command_id (cm_command_id dispatch) (commands db) = Some dispatch"
    using find_by_Some [OF cid] by simp
  ultimately have "db_progress db1 db'" by (intro accept_observation_progress [OF s(3)]) simp
  then show ?thesis by (rule progress.trans [OF store_evidence_progress [OF s(2)]])
qed

text \<open>The work after the reconciliation follows the work before it.\<close>

lemma observed_work_evolves:
  assumes "work_observed_ok db work"
    and "(case mw_print_job_observation work of
        Some current \<Rightarrow> reconcile_version (so_observation current) observation | None \<Rightarrow> Inr True) = Inr True"
    and "validate_observation observation = Inr ()"
    and "validate_work_identity hex_encode work observation = Inr ()"
    and "mw_state work \<in> {DispatchingValue, RecoveryUncertainValue, AcceptedValue}"
    and "so_observation evidence = observation"
  shows "work_evolves work (observed_work evidence now work)"
proof -
  have "observation_follows (so_observation c) observation" if "mw_print_job_observation work = Some c" for c
    using assms(1-3) that reconcile_version_follows by (auto simp: work_observed_ok_def)
  moreover have "mw_print_job_id work \<noteq> None \<longrightarrow> mw_print_job_id work = Some (pj_print_job_id (ob_job observation))"
    using assms(4) by (auto simp: validate_work_identity_def Let_def split: if_splits option.splits)
  moreover have "work_path (mw_state work) AcceptedValue"
    using assms(5) by (auto intro: observed)
  ultimately show ?thesis
    using assms(6) by (auto simp: work_evolves_def work_identity_def observed_work_def opt_or_def split: option.splits)
qed

lemma record_observation_work_progress:
  assumes "record_observation hex_encode agent_id requested compact observation now db = Inr db'"
    and "validate_observation observation = Inr ()"
  shows "work_progress db db'"
proof -
  let ?ev = "\<lparr>so_observation = observation, so_state_envelope = compact\<rparr>"
  obtain dispatch work replace db1 where s: "dispatched_work hex_encode agent_id requested observation db = Inr (dispatch, work)"
      "(case mw_print_job_observation work of
        Some current \<Rightarrow> reconcile_version (so_observation current) observation | None \<Rightarrow> Inr True) = Inr replace"
      "store_evidence agent_id work ?ev now db = Inr db1"
      "accept_observation dispatch work replace ?ev now db1 = Inr db'"
    by (rule record_observation_Inr [OF assms(1)])
  obtain rows where rows: "db1 = db\<lparr>state_observations := state_observations db @ rows\<rparr>"
    using store_evidence_rows [OF s(3)] by blast
  have stored: "evidence_stored agent_id work ?ev db1" by (rule store_evidence_stored [OF s(3)])
  have find: "find_by mw_managed_work_id (mw_managed_work_id work) (managed_works db) = Some work"
    using dispatched_work_Inr(4) [OF s(1)] find_by_Some [OF dispatched_work_Inr(4) [OF s(1)]] by simp
  have mono: "set (state_observations db) \<subseteq> set (state_observations db')"
    unfolding accept_observation_frame(3) [OF s(4)] rows by simp
  obtain r where r: "r \<in> set (state_observations db')" "so_signed_observation r = ?ev"
      "so_managed_work_id r = mw_managed_work_id work"
    using stored find_by_Some unfolding evidence_stored_def accept_observation_frame(3) [OF s(4)] by metis
  have "evidence_ok db' \<and> works_evolve db db'" if ok: "state_ok db" "evidence_ok db"
  proof -
    have "distinct (map mw_managed_work_id (managed_works db))"
      using ok(1) by (simp add: state_ok_def db_ok_def managed_works_ok_def)
    then have same: "w = work" if "w \<in> set (managed_works db)" "mw_managed_work_id w = mw_managed_work_id work" for w
      using distinct_key_eq that find_by_Some [OF find] by metis
    have ok_work: "work_observed_ok db w \<and> payload_ok db w" if "w \<in> set (managed_works db)" for w
      using ok(2) that by (simp add: evidence_ok_def)
    have payloads: "payload_ok db' w \<longleftrightarrow> payload_ok db w"
      if "mw_managed_work_id w \<noteq> mw_managed_work_id work" for w
      using that by (auto simp: payload_ok_def accept_observation_frame(2) [OF s(4)] rows set_delete_where)
    have gone: "mw_payload_deleted_at w \<noteq> None \<Longrightarrow> mw_managed_work_id w = mw_managed_work_id work \<Longrightarrow> payload_ok db' w" for w
      by (auto simp: payload_ok_def accept_observation_frame(2) [OF s(4)] rows set_delete_where)
    show ?thesis
    proof (cases replace)
      case True
      let ?new = "observed_work ?ev now work"
      have ws: "managed_works db' = update_where (\<lambda>w. mw_managed_work_id w = mw_managed_work_id work)
          (\<lambda>_. ?new) (managed_works db)"
        using accept_observation_frame(1) [OF s(4)] True rows by simp
      have s2: "(case mw_print_job_observation work of
        Some current \<Rightarrow> reconcile_version (so_observation current) observation | None \<Rightarrow> Inr True) = Inr True"
        using s(2) True by simp
      have old: "work_observed_ok db work" using ok_work find_by_Some [OF find] by blast
      have ev: "work_evolves work ?new"
        by (rule observed_work_evolves [OF old s2 assms(2) dispatched_work_Inr(5,6) [OF s(1)]]) simp
      have new: "work_observed_ok db' ?new"
        using assms(2) r by (auto simp: work_observed_ok_def observed_work_def opt_or_def split: option.splits)
      have kept: "payload_ok db' ?new"
        by (rule gone) (auto simp: observed_work_def opt_or_def split: option.splits)
      have "work_observed_ok db' w \<and> payload_ok db' w" if "w \<in> set (managed_works db')" for w
        using that unfolding ws
      proof (cases rule: update_where_member)
        case (changed v)
        then show ?thesis using new kept by simp
      next
        case kept
        then show ?thesis using ok_work payloads work_observed_ok_mono [OF mono] by blast
      qed
      then have "evidence_ok db'" by (simp add: evidence_ok_def)
      then show ?thesis using works_evolve_update [OF find ws ev] by simp
    next
      case False
      then have ws: "managed_works db' = managed_works db"
        using accept_observation_frame(1) [OF s(4)] rows by simp
      have "mw_print_job_observation work \<noteq> None" using s(2) False by (auto split: option.splits)
      then have "mw_payload_deleted_at work \<noteq> None"
        using ok_work [of work] find_by_Some [OF find] by (auto simp: work_observed_ok_def split: option.splits)
      then have "payload_ok db' w" if "w \<in> set (managed_works db)" for w
        using gone payloads ok_work [OF that] same [OF that] by (cases "mw_managed_work_id w = mw_managed_work_id work") auto
      then have "evidence_ok db'"
        using ok_work work_observed_ok_mono [OF mono] by (simp add: evidence_ok_def ws)
      then show ?thesis using works_evolve_same [OF ws] by simp
    qed
  qed
  then show ?thesis using record_observation_progress [OF assms(1)] by (simp add: work_progress_def)
qed

subsection \<open>Publications with Agent State\<close>

lemma verified_observation_Inr:
  assumes "verified_observation keys lib agent_id compact db = Inr (Some observation)"
  obtains envelope k where
    "UnverifiedAgentStateEnvelope_parse keys lib compact = Inr envelope"
    and "envelope_verify keys lib envelope (ak_public_jwk k) = Inr observation"
    and "k \<in> set (agent_keys db)" and "ak_agent_id k = agent_id" and "ak_purpose k = AgentState"
    and "ak_retired_at k = None" and "ak_registered_at k \<le> ob_observed_at observation"
proof -
  obtain envelope k where "UnverifiedAgentStateEnvelope_parse keys lib compact = Inr envelope"
      "find_by ak_key_id (ph_kid (ue_header envelope)) (agent_keys db) = Some k"
      "ak_agent_id k = agent_id" "ak_purpose k = AgentState"
      "envelope_verify keys lib envelope (ak_public_jwk k) = Inr observation"
      "\<not> ob_observed_at observation < ak_registered_at k" "ak_retired_at k = None"
    using assms unfolding verified_observation_def and_then_eq_Inr ok_or_eq_Inr
    by (auto split: if_splits option.splits)
  then show ?thesis using that [of envelope k] find_by_Some by fastforce
qed

lemma verified_observation_valid:
  "verified_observation keys lib agent_id compact db = Inr (Some observation) \<Longrightarrow>
    validate_observation observation = Inr ()"
  by (erule verified_observation_Inr) (auto simp: envelope_verify_Inr)

lemma reconcile_state_observation_cases:
  assumes "reconcile_state_observation keys lib agent_id publication now db = Inr db'"
  obtains (unchanged) "db' = db"
  | (recorded) compact observation where "state_event_envelope publication = Inr (Some compact)"
      "verified_observation keys lib agent_id compact db = Inr (Some observation)"
      "publication_matches agent_id publication observation"
      "record_observation (kl_hex keys) agent_id (publication_command_id publication) compact observation now db
        = Inr db'"
  using assms unfolding reconcile_state_observation_def and_then_eq_Inr
  by (auto simp: and_then_eq_Inr split: if_splits option.splits)

lemma reconcile_state_observation_progress:
  assumes "reconcile_state_observation keys lib agent_id publication now db = Inr db'"
  shows "work_progress db db'"
  using assms
proof (cases rule: reconcile_state_observation_cases)
  case unchanged
  then show ?thesis using works.refl by simp
next
  case (recorded compact observation)
  then show ?thesis using record_observation_work_progress verified_observation_valid by blast
qed

lemma publication_matches_agent:
  "publication_matches agent_id publication observation \<Longrightarrow> agent_str (ob_agent_id observation) = agent_id"
  by (auto simp: publication_matches_def Let_def split: agent_publication.splits)

lemma validate_work_identity_agent:
  "validate_work_identity hex_encode work observation = Inr () \<Longrightarrow>
    mw_agent_id work = agent_str (ob_agent_id observation)"
  by (simp add: validate_work_identity_def Let_def split: if_splits)

text \<open>When the updates of an accepted observation satisfy the constraints.\<close>

lemma work_identity_fields:
  assumes "work_identity v = work_identity w"
  shows "mw_managed_work_id v = mw_managed_work_id w" "mw_print_intent_id v = mw_print_intent_id w"
    "mw_organization_id v = mw_organization_id w" "mw_idempotency_key v = mw_idempotency_key w"
    "mw_agent_id v = mw_agent_id w" "mw_payload_fingerprint v = mw_payload_fingerprint w"
    "mw_request_fingerprint v = mw_request_fingerprint w" "mw_payload_bytes v = mw_payload_bytes w"
    "mw_preflight_id v = mw_preflight_id w" "mw_site_id v = mw_site_id w"
    "mw_expires_at v = mw_expires_at w"
  using assms by (cases v; cases w; simp add: work_identity_def)+

lemma distinct_replaced:
  assumes "distinct (map key (filter P t))" and "distinct (map pk t)" and "r \<in> set t"
    and "pk v = pk r"
    and "P v \<Longrightarrow> \<forall>u \<in> set t. pk u \<noteq> pk r \<longrightarrow> P u \<longrightarrow> key u \<noteq> key v"
  shows "distinct (map key (filter P (update_where (\<lambda>u. pk u = pk r) (\<lambda>_. v) t)))"
  using assms
proof (induction t)
  case (Cons a t)
  show ?case
  proof (cases "pk a = pk r")
    case True
    then have "pk r \<notin> pk ` set t" using Cons.prems(2) by simp
    then have other: "\<forall>u \<in> set t. pk u \<noteq> pk r" by (metis image_eqI)
    then have "update_where (\<lambda>u. pk u = pk r) (\<lambda>_. v) t = t"
      by (auto simp: update_where_def intro: map_idI)
    then have "update_where (\<lambda>u. pk u = pk r) (\<lambda>_. v) (a # t) = v # t"
      using True by (simp add: update_where_def)
    then show ?thesis using Cons.prems(1,5) other by (auto split: if_splits)
  next
    case False
    then have r: "r \<in> set t" using Cons.prems(3) by auto
    have upd: "update_where (\<lambda>u. pk u = pk r) (\<lambda>_. v) (a # t) = a # update_where (\<lambda>u. pk u = pk r) (\<lambda>_. v) t"
      using False by (simp add: update_where_def)
    have "key a \<notin> key ` {u \<in> set (update_where (\<lambda>u. pk u = pk r) (\<lambda>_. v) t). P u}" if "P a"
    proof
      assume "key a \<in> key ` {u \<in> set (update_where (\<lambda>u. pk u = pk r) (\<lambda>_. v) t). P u}"
      then obtain u where u: "u \<in> set (update_where (\<lambda>u. pk u = pk r) (\<lambda>_. v) t)" "P u" "key u = key a" by force
      from u(1) show False
      proof (cases rule: update_where_member)
        case changed
        then show False using Cons.prems(5) False that u(2,3) by fastforce
      next
        case kept
        then have "key u \<in> key ` set (filter P t)" using u(2) by simp
        then show False using Cons.prems(1) that u(3) by simp
      qed
    qed
    then show ?thesis using Cons.IH Cons.prems r upd by (auto split: if_splits)
  qed
qed simp

lemma update_managed_work_total:
  assumes ok: "managed_works_ok db" and w: "w \<in> set (managed_works db)"
    and v: "work_identity v = work_identity w"
    and fresh: "mw_print_job_id v \<noteq> None \<Longrightarrow> \<forall>u \<in> set (managed_works db).
      mw_managed_work_id u \<noteq> mw_managed_work_id w \<longrightarrow> mw_agent_id u = mw_agent_id w \<longrightarrow>
      mw_print_job_id u \<noteq> mw_print_job_id v"
  shows "update_managed_work v db = Inr (db\<lparr>managed_works :=
    update_where (\<lambda>u. mw_managed_work_id u = mw_managed_work_id w) (\<lambda>_. v) (managed_works db)\<rparr>)"
proof -
  let ?ws = "update_where (\<lambda>u. mw_managed_work_id u = mw_managed_work_id w) (\<lambda>_. v) (managed_works db)"
  note eq = work_identity_fields [OF v]
  have dist: "distinct (map mw_managed_work_id (managed_works db))"
    using ok by (simp add: managed_works_ok_def)
  have maps: "map g ?ws = map g (managed_works db)" if "g v = g w" for g :: "managed_work_row \<Rightarrow> 'c"
    by (rule map_replace_row [OF eq(1) dist w refl that])
  have images: "g ` set ?ws = g ` set (managed_works db)" if "g v = g w" for g :: "managed_work_row \<Rightarrow> 'c"
    using arg_cong [OF maps [OF that], of set] by simp
  have jobs: "distinct (map (\<lambda>w. (mw_agent_id w, mw_print_job_id w)) (filter (\<lambda>w. mw_print_job_id w \<noteq> None) ?ws))"
    using ok fresh eq(5)
    by (intro distinct_replaced [OF _ dist w eq(1)]) (auto simp: managed_works_ok_def)
  have checks: "list_all (\<lambda>w. length (mw_payload_fingerprint w) = 32 \<and> length (mw_request_fingerprint w) = 32 \<and>
      mw_payload_bytes w > 0) ?ws"
    using ok w eq by (auto simp: managed_works_ok_def list_all_iff elim!: update_where_member)
  have "managed_works_ok (db\<lparr>managed_works := ?ws\<rparr>)"
    using ok jobs checks unfolding managed_works_ok_def refers_iff by (simp add: maps images eq)
  then show ?thesis by (simp add: update_managed_work_def statement_def eq(1))
qed

lemma update_command_total:
  assumes ok: "commands_ok db" and c: "c \<in> set (commands db)"
    and d: "command_evolves c d" "cm_command_id d = cm_command_id c"
  shows "update_command d db = Inr (db\<lparr>commands :=
    update_where (\<lambda>u. cm_command_id u = cm_command_id c) (\<lambda>_. d) (commands db)\<rparr>)"
proof -
  let ?cs = "update_where (\<lambda>u. cm_command_id u = cm_command_id c) (\<lambda>_. d) (commands db)"
  have dist: "distinct (map cm_command_id (commands db))" using ok by (simp add: commands_ok_def)
  have maps: "map g ?cs = map g (commands db)" if "g d = g c" for g :: "command_row \<Rightarrow> 'c"
    by (rule map_replace_row [OF d(2) dist c refl that])
  have images: "g ` set ?cs = g ` set (commands db)" if "g d = g c" for g :: "command_row \<Rightarrow> 'c"
    using arg_cong [OF maps [OF that], of set] by simp
  have checks: "list_all (\<lambda>c. cm_sequence c > 0 \<and> cm_sequence c \<le> i64_max \<and>
      length (cm_request_fingerprint c) = 32) ?cs"
    using ok c d(1) by (auto simp: commands_ok_def list_all_iff command_evolves_def elim!: update_where_member)
  have "commands_ok (db\<lparr>commands := ?cs\<rparr>)"
    using ok checks d unfolding commands_ok_def refers_iff
    by (simp add: maps images command_evolves_def)
  then show ?thesis using d(2) by (simp add: update_command_def statement_def)
qed

lemma store_evidence_fresh:
  assumes ok: "state_observations_ok db"
    and fresh: "\<forall>r \<in> set (state_observations db). so_envelope_id r \<noteq> ob_envelope_id (so_observation evidence)"
    and refs: "agent_id \<in> ag_agent_id ` set (agents db)"
      "mw_managed_work_id work \<in> mw_managed_work_id ` set (managed_works db)"
  shows "store_evidence agent_id work evidence now db = Inr (db\<lparr>state_observations := state_observations db @
    [\<lparr>so_envelope_id = ob_envelope_id (so_observation evidence), so_agent_id = agent_id,
      so_managed_work_id = mw_managed_work_id work, so_signed_observation = evidence,
      so_received_at = now\<rparr>]\<rparr>)"
proof -
  let ?row = "\<lparr>so_envelope_id = ob_envelope_id (so_observation evidence), so_agent_id = agent_id,
    so_managed_work_id = mw_managed_work_id work, so_signed_observation = evidence, so_received_at = now\<rparr>"
  have "find_by so_envelope_id (ob_envelope_id (so_observation evidence)) (state_observations db) = None"
    using fresh by (auto simp: find_by_None)
  moreover have "state_observations_ok (db\<lparr>state_observations := state_observations db @ [?row]\<rparr>)"
    using ok fresh refs by (auto simp: state_observations_ok_def refers_iff)
  ultimately show ?thesis
    using fresh by (simp add: store_evidence_def Let_def insert_state_observation_def statement_def
        and_then_def ok_or_def find_by_append)
qed

lemma accept_observation_total:
  assumes ok: "managed_works_ok db" "commands_ok db"
    and rows: "work \<in> set (managed_works db)" "dispatch \<in> set (commands db)"
    and jobs: "\<forall>u \<in> set (managed_works db). mw_managed_work_id u \<noteq> mw_managed_work_id work \<longrightarrow>
      mw_agent_id u = mw_agent_id work \<longrightarrow>
      mw_print_job_id u \<noteq> Some (pj_print_job_id (ob_job (so_observation evidence)))"
  shows "accept_observation dispatch work True evidence now db = Inr (delete_payload (mw_managed_work_id work)
    (db\<lparr>managed_works := update_where (\<lambda>w. mw_managed_work_id w = mw_managed_work_id work)
          (\<lambda>_. observed_work evidence now work) (managed_works db),
        commands := update_where (\<lambda>c. cm_command_id c = cm_command_id dispatch)
          (\<lambda>_. dispatch\<lparr>cm_state := CmdAccepted, cm_updated_at := now\<rparr>) (commands db)\<rparr>))"
proof -
  let ?ws = "update_where (\<lambda>w. mw_managed_work_id w = mw_managed_work_id work)
    (\<lambda>_. observed_work evidence now work) (managed_works db)"
  have "update_managed_work (observed_work evidence now work) db = Inr (db\<lparr>managed_works := ?ws\<rparr>)"
    using jobs
    by (intro update_managed_work_total [OF ok(1) rows(1)]) (auto simp: work_identity_def observed_work_def)
  moreover have "update_command (dispatch\<lparr>cm_state := CmdAccepted, cm_updated_at := now\<rparr>) (db\<lparr>managed_works := ?ws\<rparr>) =
      Inr (db\<lparr>managed_works := ?ws, commands := update_where (\<lambda>c. cm_command_id c = cm_command_id dispatch)
          (\<lambda>_. dispatch\<lparr>cm_state := CmdAccepted, cm_updated_at := now\<rparr>) (commands db)\<rparr>)"
    using ok(2) rows(2) update_command_total [of "db\<lparr>managed_works := ?ws\<rparr>" dispatch]
    by (simp add: commands_ok_def command_evolves_def)
  ultimately show ?thesis by (simp add: accept_observation_def and_then_def)
qed

section \<open>A concrete dispatch\<close>

definition sample_binding :: report_binding_claim where
  "sample_binding = \<lparr>bc_report_binding_id = ''rb'', bc_binding_revision_id = ''rev'',
     bc_report_action_id = ''act'', bc_report_contract_digest = ''c'', bc_template_digest = ''t'',
     bc_command_profile_id = None, bc_layout_profile_id = None, bc_hardware_matrix_digest = None\<rparr>"

definition sample_work :: managed_work_row where
  "sample_work = \<lparr>mw_managed_work_id = ''mw_a'', mw_preflight_id = ''mpf_a'', mw_organization_id = ''org_a'',
     mw_idempotency_key = ''idem'', mw_database_name = ''db'', mw_company_id = ''1'', mw_site_id = ''site_a'',
     mw_agent_id = ''agt_a'', mw_device_id = ''dev_a'', mw_print_intent_id = ''pi_a'',
     mw_operation = ReportPdf, mw_media_type = media_type ReportPdf, mw_state = DispatchingValue,
     mw_binding_claim = sample_binding, mw_payload_fingerprint = sample_digest,
     mw_request_fingerprint = sample_digest, mw_payload_bytes = 100, mw_payload_deleted_at = None,
     mw_print_job_id = None, mw_print_job_observation = None, mw_error_code = None,
     mw_message_key = ''managed_work.dispatching'', mw_expires_at = 900, mw_idempotency_expires_at = 900,
     mw_admitted_at = 50, mw_updated_at = 50\<rparr>"

definition sample_dispatch :: command_row where
  "sample_dispatch = \<lparr>cm_command_id = ''job_d'', cm_agent_id = ''agt_a'', cm_message_id = ''msg_job_d'',
     cm_sequence = 1, cm_state = CmdPublished, cm_command = ManagedWorkContent (ManagedWorkId ''mw_a''),
     cm_request_fingerprint = sample_digest, cm_issued_at = 50, cm_published_at = Some 60, cm_updated_at = 60\<rparr>"

definition sample_preflight :: preflight_row where
  "sample_preflight = \<lparr>pf_preflight_id = ''mpf_a'', pf_request = \<lparr>pr_contract_major = 1,
       pr_scope = \<lparr>sc_database = ''db'', sc_company_id = ''1'', sc_organization_id = OrganizationId ''org_a'',
         sc_site_id = SiteId ''site_a'', sc_agent_id = AgentId ''agt_a''\<rparr>, pr_device_id = DeviceId ''dev_a'',
       pr_operation = ReportPdf, pr_binding = sample_binding\<rparr>,
     pf_dispatch_key_id = ''dk_a'', pf_capability_digest = ''cap'', pf_work_expires_at = 900,
     pf_idempotency_expires_at = 900, pf_submit_before = 800, pf_created_at = 40\<rparr>"

definition sample_payload :: managed_payload_row where
  "sample_payload = \<lparr>mp_managed_work_id = ''mw_a'', mp_ciphertext = ''x'', mp_nonce = replicate 12 CHR ''n'',
     mp_wrapped_data_key = ''k'', mp_wrapping_key_version = 1, mp_authenticated_data_digest = sample_digest,
     mp_payload_fingerprint = sample_digest, mp_plaintext_bytes = 100, mp_expires_at = 900, mp_created_at = 50\<rparr>"

definition dispatched_db :: gateway_db where
  "dispatched_db = sample_db\<lparr>
     agent_keys := [sample_key, sample_state_key\<lparr>ak_key_id := ''agent_state_'' @ replicate 64 CHR ''b'',
       ak_public_jwk := sample_state_jwk\<rparr>],
     commands := [sample_dispatch], preflights := [sample_preflight], managed_works := [sample_work],
     managed_payloads := [sample_payload]\<rparr>"

definition sample_publication :: agent_publication where
  "sample_publication = PubRuntimeEvent ''env1'' 110 \<lparr>re_sequence = 1, re_resource_kind = ''print_job'',
     re_resource_id = ''pj1'', re_event_type = ''print_job.accepted'', re_occurred_at = 100,
     re_payload = [(''state_envelope'', SText sample_compact)]\<rparr> (Some ''job_d'') (Some ''pj1'')"

definition sample_evidence :: signed_agent_state_observation where
  "sample_evidence = \<lparr>so_observation = sample_observation, so_state_envelope = sample_compact\<rparr>"

lemma dispatched_db_ok: "state_ok dispatched_db" "evidence_ok dispatched_db"
  by code_simp+

lemma sample_state_event: "state_event_envelope sample_publication = Inr (Some sample_compact)"
  by code_simp

lemma sample_verified_observation:
  "verified_observation sample_keys sample_envelopes ''agt_a'' sample_compact dispatched_db =
    Inr (Some sample_observation)"
proof -
  have "find_by ak_key_id (ph_kid (ue_header sample_envelope)) (agent_keys dispatched_db) =
      Some (sample_state_key\<lparr>ak_key_id := ''agent_state_'' @ replicate 64 CHR ''b'', ak_public_jwk := sample_state_jwk\<rparr>)"
    by code_simp
  then show ?thesis
    unfolding verified_observation_def sample_envelope_parsed
    by (simp add: sample_envelope_verified sample_state_key_def sample_observation_def)
qed

lemma sample_recorded:
  "is_ok (record_observation (kl_hex sample_keys) ''agt_a'' (publication_command_id sample_publication)
     sample_compact sample_observation 200 dispatched_db)"
  "publication_matches ''agt_a'' sample_publication sample_observation"
  by code_simp+

section \<open>Properties\<close>





end
