(* ===== verification/Publications.thy ===== *)
theory Publications
  imports State_Observations Enrollment
begin

text \<open>
  Recording what Agents publish (\<^verbatim>\<open>inari-gateway/src/persistence/publications.rs\<close>): a message
  is stored once under its identifier, signed Agent State is reconciled, a status snapshot
  projects the inventory and brings the current invitation online, and a receipt closes a
  plain command.  A rejected snapshot leaves an audit event.
\<close>

section \<open>Definitions\<close>

record persisted_publication =
  pp_key :: string
  pp_received_at :: instant
  pp_message :: agent_publication

record persisted_agent_status =
  ps_message_id :: string
  ps_received_at :: instant
  ps_snapshot :: gateway_snapshot

record inventory_library =
  il_decode :: "structured_fields \<Rightarrow> inventory_item list option"
  il_encoded_size :: "structured_fields \<Rightarrow> nat option"

definition parsed_inventory ::
    "inventory_library \<Rightarrow> agent_publication \<Rightarrow> inventory_item list option gateway_result" where
  "parsed_inventory ilib message =
    (case publication_snapshot message of
       None \<Rightarrow> Inr None
     | Some snapshot \<Rightarrow>
         and_then (InventoryProjection_parse (il_decode ilib) (il_encoded_size ilib)
                     (rt_inventory (snap_runtime snapshot))) (\<lambda>items. Inr (Some items)))"

text \<open>The query has no order; it reads the first row that qualifies.\<close>

definition bound_invitation ::
    "agent_row \<Rightarrow> agent_publication \<Rightarrow> gateway_db \<Rightarrow> invitation_row option" where
  "bound_invitation agent message db =
    (if publication_snapshot message = None then None
     else find (\<lambda>i. iv_bound_agent_id i = Some (ag_agent_id agent) \<and>
            iv_enrolled_at i = Some (ag_last_enrolled_at agent) \<and>
            iv_state i \<in> {InvEnrolled, InvOnline}) (invitations db))"

definition snapshot_applies :: "invitation_row \<Rightarrow> agent_row \<Rightarrow> gateway_snapshot \<Rightarrow> bool" where
  "snapshot_applies model current snapshot \<longleftrightarrow>
    iv_enrolled_at model = Some (ag_last_enrolled_at current) \<and>
    iv_bound_key_id model = Some (ag_key_id current) \<and>
    iv_site_id model = ag_site_id current \<and> iv_organization_id model = ag_organization_id current \<and>
    (case iv_latest_snapshot model of None \<Rightarrow> True
      | Some previous \<Rightarrow> snap_generated_at snapshot > snap_generated_at previous)"

definition online_invitation :: "gateway_snapshot \<Rightarrow> instant \<Rightarrow> invitation_row \<Rightarrow> invitation_row" where
  "online_invitation snapshot now model =
    model\<lparr>iv_state := InvOnline, iv_online_at := opt_or (iv_online_at model) (Some now),
          iv_latest_snapshot := Some snapshot\<rparr>"

definition apply_snapshot ::
    "agent_publication \<Rightarrow> inventory_item list option \<Rightarrow> invitation_row option \<Rightarrow> agent_row \<Rightarrow> instant \<Rightarrow>
     gateway_db \<Rightarrow> gateway_db gateway_result" where
  "apply_snapshot message inventory bound current now db =
    (case (publication_snapshot message, inventory, bound) of
       (Some snapshot, Some items, Some model) \<Rightarrow>
         if snapshot_applies model current snapshot then
           and_then (apply_inventory items (ag_agent_id current) (ag_site_id current)
                       (snap_generated_at snapshot) db)
             (update_invitation (online_invitation snapshot now model))
         else Inr db
     | _ \<Rightarrow> Inr db)"

fun receipt_state :: "agent_publication \<Rightarrow> command_state option" where
  "receipt_state (PubCommandAccepted _ _ _ _ _) = Some CmdAccepted"
| "receipt_state (PubCommandRejected _ _ _ _ _) = Some CmdRejected"
| "receipt_state _ = None"

fun is_inline :: "command_content \<Rightarrow> bool" where
  "is_inline (Inline _) = True"
| "is_inline (ManagedWorkContent _) = False"

definition apply_receipt ::
    "string \<Rightarrow> agent_publication \<Rightarrow> instant \<Rightarrow> gateway_db \<Rightarrow> gateway_db" where
  "apply_receipt agent_id message now db =
    (case (publication_command_id message, receipt_state message) of
       (Some command_id, Some state) \<Rightarrow>
         (case find_by cm_command_id command_id (commands db) of
            Some dispatch \<Rightarrow>
              if cm_agent_id dispatch = agent_id \<and> is_inline (cm_command dispatch) then
                db\<lparr>commands := update_where (\<lambda>c. cm_agent_id c = agent_id \<and> cm_command_id c = command_id)
                  (\<lambda>c. c\<lparr>cm_state := state, cm_updated_at := now\<rparr>) (commands db)\<rparr>
              else db
          | None \<Rightarrow> db)
     | _ \<Rightarrow> db)"

text \<open>The part of the transaction after the message was stored for the first time.\<close>

definition process_publication ::
    "key_library \<Rightarrow> 'v envelope_library \<Rightarrow> inventory_item list option \<Rightarrow> invitation_row option \<Rightarrow> agent_row \<Rightarrow>
     string \<Rightarrow> agent_publication \<Rightarrow> instant \<Rightarrow> gateway_db \<Rightarrow> gateway_db gateway_result" where
  "process_publication keys lib inventory bound current agent_id message now db =
    and_then (reconcile_state_observation keys lib agent_id message now db) (\<lambda>db.
    and_then (apply_snapshot message inventory bound current now db) (\<lambda>db.
    Inr (apply_receipt agent_id message now db)))"

definition publication_row_of :: "string \<Rightarrow> string \<Rightarrow> agent_publication \<Rightarrow> instant \<Rightarrow> publication_row" where
  "publication_row_of agent_id key message now =
    \<lparr>pb_message_id = publication_message_id message, pb_agent_id = agent_id, pb_key_expr = key,
     pb_message_type = Some (PublicationType_from_message message), pb_payload = message,
     pb_received_at = now\<rparr>"

definition record_publication_body ::
    "key_library \<Rightarrow> 'v envelope_library \<Rightarrow> inventory_item list option \<Rightarrow> string \<Rightarrow> string \<Rightarrow> agent_publication \<Rightarrow>
     instant \<Rightarrow> gateway_db \<Rightarrow> (gateway_db \<times> unit gateway_result) gateway_result" where
  "record_publication_body keys lib inventory agent_id key message now db =
    and_then (require_agent db agent_id) (\<lambda>candidate.
    let bound = bound_invitation candidate message db in
    and_then (ok_or (NotFound (''Agent '' @ agent_id @ '' is not enrolled''))
                (find_by ag_agent_id agent_id (agents db))) (\<lambda>current.
    and_then (insert_publication (publication_row_of agent_id key message now) db) (\<lambda>(db, inserted).
    and_then (ok_or (CorruptState ''publication was not stored'')
                (find_by pb_message_id (publication_message_id message) (publications db))) (\<lambda>stored.
    if pb_agent_id stored \<noteq> agent_id \<or> pb_payload stored \<noteq> message then
      Inl (Conflict ''publication message ID was reused for different content'')
    else if \<not> inserted then Inr (db, Inr ())
    else and_then (process_publication keys lib inventory bound current agent_id message now db) (\<lambda>db.
      Inr (db, Inr ()))))))"

definition record_publication_transaction ::
    "key_library \<Rightarrow> 'v envelope_library \<Rightarrow> inventory_library \<Rightarrow> string \<Rightarrow> string \<Rightarrow> agent_publication \<Rightarrow>
     instant \<Rightarrow> gateway_db \<Rightarrow> gateway_db \<times> unit gateway_result" where
  "record_publication_transaction keys lib ilib agent_id key message now db =
    (case parsed_inventory ilib message of
       Inl e \<Rightarrow> (db, Inl e)
     | Inr inventory \<Rightarrow> transaction (record_publication_body keys lib inventory agent_id key message now) db)"

fun rejected_content :: "unit gateway_result \<Rightarrow> bool" where
  "rejected_content (Inl (InvalidInput _)) = True"
| "rejected_content (Inl (Conflict _)) = True"
| "rejected_content _ = False"

definition rejection_draft :: "gateway_db \<Rightarrow> string \<Rightarrow> audit_event_draft gateway_result" where
  "rejection_draft db agent_id =
    and_then (require_agent db agent_id) (\<lambda>agent.
    and_then (AgentId_from_str (ag_agent_id agent)) (\<lambda>aid.
    and_then (OrganizationId_from_str (ag_organization_id agent)) (\<lambda>organization.
    Inr \<lparr>dr_organization_id = organization, dr_actor_id = ActorId_from_agent aid,
         dr_action = ActionAgentInventoryRejected, dr_resource = ResourceAgent aid,
         dr_outcome = OutcomeDenied, dr_request_id = None\<rparr>)))"

definition record_publication ::
    "key_library \<Rightarrow> 'v envelope_library \<Rightarrow> inventory_library \<Rightarrow> instant \<Rightarrow> string \<Rightarrow> string \<Rightarrow>
     agent_publication \<Rightarrow> instant \<Rightarrow> gateway_db \<Rightarrow> gateway_db \<times> unit gateway_result" where
  "record_publication keys lib ilib audited_at agent_id key message now db =
    (let (db, result) = record_publication_transaction keys lib ilib agent_id key message now db in
     if publication_snapshot message \<noteq> None \<and> rejected_content result then
       (case rejection_draft db agent_id of
          Inl e \<Rightarrow> (db, Inl e)
        | Inr draft \<Rightarrow> (case record_audit_event audited_at draft db of
              (db, Inl e) \<Rightarrow> (db, Inl e)
            | (db, Inr _) \<Rightarrow> (db, result)))
     else (db, result))"

text \<open>Reading: newest first.\<close>

definition publications_query :: "gateway_db \<Rightarrow> string \<Rightarrow> persisted_publication list gateway_result" where
  "publications_query db agent_id =
    and_then (require_agent db agent_id) (\<lambda>_.
    Inr (map (\<lambda>model. \<lparr>pp_key = pb_key_expr model, pp_received_at = pb_received_at model,
                       pp_message = pb_payload model\<rparr>)
      (sort_key (\<lambda>p. - pb_received_at p) (filter (\<lambda>p. pb_agent_id p = agent_id) (publications db)))))"

definition status_is_current :: "gateway_db \<Rightarrow> publication_row \<Rightarrow> bool" where
  "status_is_current db p \<longleftrightarrow>
    exists_where (\<lambda>i. exists_where (\<lambda>a. Some (ag_agent_id a) = iv_bound_agent_id i \<and>
      ag_agent_id a = pb_agent_id p \<and> iv_enrolled_at i = Some (ag_last_enrolled_at a) \<and>
      iv_bound_key_id i = Some (ag_key_id a) \<and> iv_organization_id i = ag_organization_id a \<and>
      iv_site_id i = ag_site_id a \<and> iv_state i \<in> {InvEnrolled, InvOnline} \<and>
      pb_received_at p \<ge> ag_last_enrolled_at a \<and>
      iv_latest_snapshot i \<noteq> None \<and> iv_latest_snapshot i = publication_snapshot (pb_payload p)) (agents db))
      (invitations db)"

definition latest_status :: "gateway_db \<Rightarrow> string \<Rightarrow> persisted_agent_status option gateway_result" where
  "latest_status db agent_id =
    and_then (require_agent db agent_id) (\<lambda>_.
    case sort_key (\<lambda>p. - pb_received_at p) (filter (\<lambda>p. pb_agent_id p = agent_id \<and>
           pb_message_type p = Some TypeStatusSnapshot \<and> status_is_current db p) (publications db)) of
      [] \<Rightarrow> Inr None
    | model # _ \<Rightarrow> (case pb_payload model of
          PubStatusSnapshot message_id snapshot \<Rightarrow>
            Inr (Some \<lparr>ps_message_id = message_id, ps_received_at = pb_received_at model,
                      ps_snapshot = snapshot\<rparr>)
        | _ \<Rightarrow> Inl (CorruptState ''status publication row contains another message type'')))"

section \<open>Lemmas\<close>

lemma record_observation_frame:
  assumes "record_observation hex_encode agent_id requested compact observation now db = Inr db'"
  shows "invitations db' = invitations db \<and> agents db' = agents db \<and> publications db' = publications db \<and>
    devices db' = devices db \<and> agent_keys db' = agent_keys db \<and> audit_events db' = audit_events db"
proof -
  let ?ev = "\<lparr>so_observation = observation, so_state_envelope = compact\<rparr>"
  obtain dispatch work replace db1
    where st: "store_evidence agent_id work ?ev now db = Inr db1"
      and ac: "accept_observation dispatch work replace ?ev now db1 = Inr db'"
    by (rule record_observation_Inr [OF assms])
  obtain rows where "db1 = db\<lparr>state_observations := state_observations db @ rows\<rparr>"
    using store_evidence_rows [OF st] by blast
  then show ?thesis
    using ac by (auto simp: accept_observation_def and_then_eq_Inr update_command_def delete_payload_def
        update_managed_work_def split: if_splits)
qed

lemma reconcile_state_observation_frame:
  assumes "reconcile_state_observation keys lib agent_id publication now db = Inr db'"
  shows "invitations db' = invitations db \<and> agents db' = agents db \<and> publications db' = publications db \<and>
    devices db' = devices db \<and> agent_keys db' = agent_keys db \<and> audit_events db' = audit_events db"
  using assms by (cases rule: reconcile_state_observation_cases) (simp_all add: record_observation_frame)

lemma bound_invitation_Some:
  assumes "bound_invitation agent message db = Some model"
  shows "model \<in> set (invitations db)" and "iv_bound_agent_id model = Some (ag_agent_id agent)"
    and "iv_state model \<in> {InvEnrolled, InvOnline}"
    and "iv_enrolled_at model = Some (ag_last_enrolled_at agent)"
  using assms by (auto simp: bound_invitation_def find_Some_iff split: if_splits)

lemma update_invitation_member_progress:
  assumes "update_invitation new db = Inr db'" and "i \<in> set (invitations db)"
    and "invitation_evolves i new"
  shows "db_progress db db'"
proof (rule update_invitation_progress [OF assms(1) _ assms(3)])
  let ?is = "update_where (\<lambda>i. iv_invitation_id i = iv_invitation_id new) (\<lambda>_. new) (invitations db)"
  have new: "iv_invitation_id new = iv_invitation_id i" using assms(3) by (simp add: invitation_evolves_def)
  have "map iv_invitation_id ?is = map iv_invitation_id (invitations db)"
    by (rule map_update_where) simp
  moreover have "distinct (map iv_invitation_id ?is)"
    using assms(1) by (simp add: update_invitation_def invitations_ok_def)
  ultimately show "find_by iv_invitation_id (iv_invitation_id new) (invitations db) = Some i"
    unfolding new by (intro find_by_unique assms(2)) simp
qed

lemma online_invitation_evolves:
  "iv_state model \<in> {InvEnrolled, InvOnline} \<Longrightarrow> invitation_evolves model (online_invitation snapshot now model)"
  by (auto simp: invitation_evolves_def online_invitation_def)

lemma apply_snapshot_cases:
  assumes "apply_snapshot message inventory bound current now db = Inr db'"
  obtains (ignored) "db' = db"
  | (applied) snapshot items model ds where "publication_snapshot message = Some snapshot"
      "inventory = Some items" "bound = Some model" "snapshot_applies model current snapshot"
      "apply_inventory items (ag_agent_id current) (ag_site_id current) (snap_generated_at snapshot) db =
        Inr (db\<lparr>devices := ds\<rparr>)"
      "update_invitation (online_invitation snapshot now model) (db\<lparr>devices := ds\<rparr>) = Inr db'"
proof -
  consider "db' = db" | snapshot items model db1 where "publication_snapshot message = Some snapshot"
      "inventory = Some items" "bound = Some model" "snapshot_applies model current snapshot"
      "apply_inventory items (ag_agent_id current) (ag_site_id current) (snap_generated_at snapshot) db = Inr db1"
      "update_invitation (online_invitation snapshot now model) db1 = Inr db'"
    using assms by (auto simp: apply_snapshot_def and_then_eq_Inr split: option.splits if_splits)
  then show ?thesis
  proof cases
    case 1
    then show ?thesis by (rule ignored)
  next
    case (2 snapshot items model db1)
    obtain ds where "db1 = db\<lparr>devices := ds\<rparr>" using apply_inventory_frame [OF 2(5)] ..
    then show ?thesis using applied [of snapshot items model ds] 2 by simp
  qed
qed

lemma apply_snapshot_progress:
  assumes "apply_snapshot message inventory bound current now db = Inr db'"
    and "\<And>model. bound = Some model \<Longrightarrow> model \<in> set (invitations db) \<and> iv_state model \<in> {InvEnrolled, InvOnline}"
  shows "db_progress db db'"
  using assms(1)
proof (cases rule: apply_snapshot_cases)
  case ignored
  then show ?thesis using progress.refl by simp
next
  case (applied snapshot items model ds)
  have "db_progress db (db\<lparr>devices := ds\<rparr>)" by (rule apply_inventory_progress [OF applied(5)])
  moreover have "db_progress (db\<lparr>devices := ds\<rparr>) db'"
    using update_invitation_member_progress [OF applied(6), of model] assms(2) [OF applied(3)]
      online_invitation_evolves by simp
  ultimately show ?thesis by (rule progress.trans)
qed

lemma apply_snapshot_frame:
  assumes "apply_snapshot message inventory bound current now db = Inr db'"
  shows "managed_works db' = managed_works db \<and> managed_payloads db' = managed_payloads db \<and>
    commands db' = commands db \<and> publications db' = publications db \<and>
    state_observations db' = state_observations db \<and> agents db' = agents db"
  using assms by (cases rule: apply_snapshot_cases) (auto simp: update_invitation_def)

lemma apply_receipt_frame:
  "\<exists>cs. apply_receipt agent_id message now db = db\<lparr>commands := cs\<rparr>"
  by (auto simp: apply_receipt_def split: option.splits intro: exI [of _ "commands db"])

lemma update_commands_progress:
  assumes "\<And>c. P c \<Longrightarrow> command_evolves c (f c) \<and> cm_command_id (f c) = cm_command_id c"
  shows "db_progress db (db\<lparr>commands := update_where P f (commands db)\<rparr>)"
proof (rule progress_parents(5))
  let ?cs = "update_where P f (commands db)"
  have maps: "map cm_command_id ?cs = map cm_command_id (commands db)"
      "map cm_message_id ?cs = map cm_message_id (commands db)"
      "map (\<lambda>c. (cm_agent_id c, cm_sequence c)) ?cs = map (\<lambda>c. (cm_agent_id c, cm_sequence c)) (commands db)"
      "map cm_agent_id ?cs = map cm_agent_id (commands db)"
    using assms by (intro map_update_where; simp add: command_evolves_def)+
  have owners: "cm_agent_id ` set ?cs = cm_agent_id ` set (commands db)"
    using arg_cong [where f = set, OF maps(4)] by simp
  have "list_all (\<lambda>c. cm_sequence c > 0 \<and> cm_sequence c \<le> i64_max \<and> length (cm_request_fingerprint c) = 32) ?cs"
    if "commands_ok db"
    using that assms by (auto simp: commands_ok_def list_all_iff command_evolves_def elim!: update_where_member)
  then have "commands_ok (db\<lparr>commands := ?cs\<rparr>)" if "commands_ok db"
    using that unfolding commands_ok_def refers_iff by (simp add: maps owners)
  then show "db_ok (db\<lparr>commands := ?cs\<rparr>) \<or> \<not> db_ok db"
    using db_ok_tables(4) [of db ?cs] by (auto simp: db_ok_def)
  show "commands_evolve db (db\<lparr>commands := ?cs\<rparr>)"
    using assms by (intro commands_evolve_update [of _ P f]) auto
qed

lemma apply_receipt_progress: "db_progress db (apply_receipt agent_id message now db)"
  using progress.refl
  by (auto simp: apply_receipt_def command_evolves_def intro!: update_commands_progress split: option.splits)

lemma process_publication_progress:
  assumes "process_publication keys lib inventory bound current agent_id message now db = Inr db'"
    and "\<And>model. bound = Some model \<Longrightarrow> model \<in> set (invitations db) \<and> iv_state model \<in> {InvEnrolled, InvOnline}"
  shows "work_progress db db'"
proof -
  obtain db1 db2 where s: "reconcile_state_observation keys lib agent_id message now db = Inr db1"
      "apply_snapshot message inventory bound current now db1 = Inr db2"
      "db' = apply_receipt agent_id message now db2"
    using assms(1) by (auto simp: process_publication_def and_then_eq_Inr)
  have "work_progress db db1" by (rule reconcile_state_observation_progress [OF s(1)])
  moreover have "work_progress db1 db2"
    using apply_snapshot_progress [OF s(2)] apply_snapshot_frame [OF s(2)] assms(2)
      reconcile_state_observation_frame [OF s(1)] by (intro work_progress_other) auto
  moreover obtain cs where "db' = db2\<lparr>commands := cs\<rparr>" using apply_receipt_frame s(3) by metis
  then have "work_progress db2 db'"
    using apply_receipt_progress [of db2 agent_id message now] s(3) by (intro work_progress_other) auto
  ultimately show ?thesis by (blast intro: works.trans)
qed

lemma insert_publication_cases:
  assumes "insert_publication row db = Inr (db1, inserted)"
  obtains (known) "\<not> inserted" "db1 = db" "\<exists>p \<in> set (publications db). pb_message_id p = pb_message_id row"
  | (new) "inserted" "db1 = db\<lparr>publications := publications db @ [row]\<rparr>"
      "\<forall>p \<in> set (publications db). pb_message_id p \<noteq> pb_message_id row"
  using assms by (auto simp: insert_publication_def and_then_eq_Inr split: if_splits)

lemma publication_row_of_simps [simp]:
  "pb_message_id (publication_row_of agent_id key message now) = publication_message_id message"
  "pb_agent_id (publication_row_of agent_id key message now) = agent_id"
  "pb_payload (publication_row_of agent_id key message now) = message"
  "pb_received_at (publication_row_of agent_id key message now) = now"
  "pb_message_type (publication_row_of agent_id key message now) = Some (PublicationType_from_message message)"
  by (simp_all add: publication_row_of_def)

text \<open>A message that is stored with this content.\<close>

definition message_stored :: "string \<Rightarrow> agent_publication \<Rightarrow> gateway_db \<Rightarrow> bool" where
  "message_stored agent_id message db \<longleftrightarrow>
    (\<exists>p. find_by pb_message_id (publication_message_id message) (publications db) = Some p \<and>
      pb_agent_id p = agent_id \<and> pb_payload p = message)"

lemma record_publication_body_cases:
  assumes "record_publication_body keys lib inventory agent_id key message now db = Inr (db', r)"
  obtains (known) agent where "find_by ag_agent_id agent_id (agents db) = Some agent" "r = Inr ()" "db' = db"
      "message_stored agent_id message db"
  | (new) agent db1 where "find_by ag_agent_id agent_id (agents db) = Some agent" "r = Inr ()"
      "insert_publication (publication_row_of agent_id key message now) db = Inr (db1, True)"
      "process_publication keys lib inventory (bound_invitation agent message db) agent agent_id message now db1
        = Inr db'"
proof -
  note unfolded = assms [unfolded record_publication_body_def require_agent_def Let_def,
      unfolded and_then_eq_Inr ok_or_eq_Inr split_paired_Ex prod.case]
  obtain agent db1 inserted stored where a: "find_by ag_agent_id agent_id (agents db) = Some agent"
      and ins: "insert_publication (publication_row_of agent_id key message now) db = Inr (db1, inserted)"
      and stored: "find_by pb_message_id (publication_message_id message) (publications db1) = Some stored"
      and step: "(if pb_agent_id stored \<noteq> agent_id \<or> pb_payload stored \<noteq> message
        then Inl (Conflict ''publication message ID was reused for different content'')
        else if \<not> inserted then Inr (db1, Inr ())
        else and_then (process_publication keys lib inventory (bound_invitation agent message db) agent agent_id
          message now db1) (\<lambda>db. Inr (db, Inr ()))) = Inr (db', r)"
    using unfolded by auto
  have same: "pb_agent_id stored = agent_id" "pb_payload stored = message"
    using step by (auto split: if_splits)
  then have rest: "(if \<not> inserted then Inr (db1, Inr ())
        else and_then (process_publication keys lib inventory (bound_invitation agent message db) agent agent_id
          message now db1) (\<lambda>db. Inr (db, Inr ()))) = Inr (db', r)"
    using step by simp
  show ?thesis
  proof (cases inserted)
    case True
    then show ?thesis using new [OF a] ins rest by (auto simp: and_then_eq_Inr)
  next
    case False
    then have "db1 = db" using ins by (auto elim: insert_publication_cases)
    then show ?thesis using known [OF a] rest False stored same by (auto simp: message_stored_def)
  qed
qed

lemma record_publication_cases:
  assumes "record_publication keys lib ilib audited_at agent_id key message now db = (db', r)"
  obtains (refused) e where "r = Inl e" "db' = db"
  | (audited) e draft where "r = Inl e" "publication_snapshot message \<noteq> None"
      "insert_audit_event audited_at draft db = Inr db'"
  | (accepted) inventory where "parsed_inventory ilib message = Inr inventory" "r = Inr ()"
      "record_publication_body keys lib inventory agent_id key message now db = Inr (db', Inr ())"
proof -
  obtain db1 r1 where t: "record_publication_transaction keys lib ilib agent_id key message now db = (db1, r1)"
    by fastforce
  have t_cases: "(\<exists>e. r1 = Inl e \<and> db1 = db) \<or> (\<exists>inventory. parsed_inventory ilib message = Inr inventory \<and> r1 = Inr () \<and>
      record_publication_body keys lib inventory agent_id key message now db = Inr (db1, Inr ()))"
    using t unfolding record_publication_transaction_def transaction_def
    by (auto split: sum.splits prod.splits elim: record_publication_body_cases)
  show ?thesis
  proof (cases "publication_snapshot message \<noteq> None \<and> rejected_content r1")
    case False
    then have "db' = db1" "r = r1"
      using assms by (auto simp: record_publication_def t Let_def)
    then show ?thesis using t_cases refused accepted by blast
  next
    case True
    then obtain e where e: "r1 = Inl e" by (cases r1) auto
    then have "db1 = db" using t_cases by auto
    then show ?thesis
      using assms True e refused audited
      by (auto simp: record_publication_def t Let_def record_audit_event_def transaction_def and_then_eq_Inr
          split: sum.splits prod.splits if_splits dest!: and_then_eq_Inr [THEN iffD1])
  qed
qed

lemma record_publication_progress:
  assumes "record_publication keys lib ilib audited_at agent_id key message now db = (db', r)"
  shows "work_progress db db'"
  using assms
proof (cases rule: record_publication_cases)
  case refused
  then show ?thesis using works.refl by simp
next
  case (audited e draft)
  then show ?thesis
    using insert_audit_event_progress by (auto simp: insert_audit_event_def insert_audit_row_def intro!: work_progress_other)
next
  case (accepted inventory)
  from accepted(3) show ?thesis
  proof (cases rule: record_publication_body_cases)
    case known
    then show ?thesis using works.refl by simp
  next
    case (new agent db1)
    have "work_progress db db1"
      using insert_publication_progress [OF new(3)] new(3)
      by (intro work_progress_other) (auto elim: insert_publication_cases)
    moreover have "invitations db1 = invitations db"
      using new(3) by (auto elim: insert_publication_cases)
    then have "work_progress db1 db'"
      using bound_invitation_Some(1,3) by (intro process_publication_progress [OF new(4)]) auto
    ultimately show ?thesis by (rule works.trans)
  qed
qed

lemma process_publication_Inr:
  assumes "process_publication keys lib inventory bound current agent_id message now db = Inr db'"
  obtains db1 db2 where "reconcile_state_observation keys lib agent_id message now db = Inr db1"
    and "apply_snapshot message inventory bound current now db1 = Inr db2"
    and "db' = apply_receipt agent_id message now db2"
  using assms by (auto simp: process_publication_def and_then_eq_Inr)

lemma process_publication_frame:
  assumes "process_publication keys lib inventory bound current agent_id message now db = Inr db'"
  shows "publications db' = publications db \<and> agents db' = agents db"
proof -
  obtain db1 db2 where s: "reconcile_state_observation keys lib agent_id message now db = Inr db1"
      "apply_snapshot message inventory bound current now db1 = Inr db2" "db' = apply_receipt agent_id message now db2"
    by (rule process_publication_Inr [OF assms])
  obtain cs where "db' = db2\<lparr>commands := cs\<rparr>" using apply_receipt_frame s(3) by metis
  then show ?thesis
    using apply_snapshot_frame [OF s(2)] reconcile_state_observation_frame [OF s(1)] by simp
qed

lemma accepted_message_stored:
  assumes "record_publication_body keys lib inventory agent_id key message now db = Inr (db', Inr ())"
  shows "message_stored agent_id message db' \<and>
    find_by ag_agent_id agent_id (agents db') = find_by ag_agent_id agent_id (agents db) \<and>
    find_by ag_agent_id agent_id (agents db) \<noteq> None"
  using assms
proof (cases rule: record_publication_body_cases)
  case known
  then show ?thesis by simp
next
  case (new agent db1)
  have "find_by pb_message_id (publication_message_id message) (publications db) = None"
      "db1 = db\<lparr>publications := publications db @ [publication_row_of agent_id key message now]\<rparr>"
    using new(3) by (auto simp: find_by_None elim!: insert_publication_cases)
  then show ?thesis
    using process_publication_frame [OF new(4)] new(1) by (simp add: message_stored_def find_by_append)
qed

lemma filter_update_where:
  assumes "\<And>r. r \<in> set t \<Longrightarrow> P r \<Longrightarrow> \<not> Q r \<and> \<not> Q (f r)"
  shows "filter Q (update_where P f t) = filter Q t"
  using assms by (induction t) (auto simp: update_where_def)

lemma apply_receipt_unmanaged:
  assumes "distinct (map cm_command_id (commands db))"
  shows "filter (\<lambda>c. \<not> is_inline (cm_command c)) (commands (apply_receipt agent_id message now db)) =
    filter (\<lambda>c. \<not> is_inline (cm_command c)) (commands db)"
proof -
  have "filter (\<lambda>c. \<not> is_inline (cm_command c)) (update_where (\<lambda>c. cm_agent_id c = agent_id \<and> cm_command_id c = cid)
      (\<lambda>c. c\<lparr>cm_state := st, cm_updated_at := now\<rparr>) (commands db)) =
      filter (\<lambda>c. \<not> is_inline (cm_command c)) (commands db)"
    if "find_by cm_command_id cid (commands db) = Some d" "is_inline (cm_command d)" for cid d st
  proof (rule filter_update_where)
    fix c
    assume "c \<in> set (commands db)" and "cm_agent_id c = agent_id \<and> cm_command_id c = cid"
    then have "c = d" using find_by_unique [OF assms] that(1) by fastforce
    then show "\<not> \<not> is_inline (cm_command c) \<and>
        \<not> \<not> is_inline (cm_command (c\<lparr>cm_state := st, cm_updated_at := now\<rparr>))"
      using that(2) by simp
  qed
  then show ?thesis by (auto simp: apply_receipt_def split: option.splits)
qed

section \<open>Concrete publications\<close>

definition sample_inventories :: inventory_library where
  "sample_inventories = \<lparr>il_decode = (\<lambda>_. Some [sample_item]), il_encoded_size = (\<lambda>_. Some 2)\<rparr>"

definition sample_status :: agent_publication where
  "sample_status = PubStatusSnapshot ''m1'' sample_snapshot"

definition stored_db :: gateway_db where
  "stored_db = sample_db\<lparr>publications := [publication_row_of ''agt_a'' ''k'' sample_status 30]\<rparr>"

definition published_db :: gateway_db where
  "published_db = (case apply_snapshot sample_status (Some [sample_item]) (Some sample_invitation) sample_agent 30
     stored_db of Inr db \<Rightarrow> db | Inl _ \<Rightarrow> sample_db)"

lemma sample_status_applied:
  "apply_snapshot sample_status (Some [sample_item]) (Some sample_invitation) sample_agent 30 stored_db = Inr published_db"
proof -
  have "is_ok (apply_snapshot sample_status (Some [sample_item]) (Some sample_invitation) sample_agent 30 stored_db)"
    by code_simp
  then show ?thesis by (auto simp: published_db_def is_ok_iff)
qed

lemma sample_status_body:
  "record_publication_body sample_keys sample_envelopes (Some [sample_item]) ''agt_a'' ''k'' sample_status 30 sample_db =
    Inr (published_db, Inr ())"
proof -
  have "find_by ag_agent_id ''agt_a'' (agents sample_db) = Some sample_agent"
    "bound_invitation sample_agent sample_status sample_db = Some sample_invitation"
    "insert_publication (publication_row_of ''agt_a'' ''k'' sample_status 30) sample_db = Inr (stored_db, True)"
    "find_by pb_message_id (publication_message_id sample_status) (publications stored_db) =
      Some (publication_row_of ''agt_a'' ''k'' sample_status 30)"
    by code_simp+
  moreover have "process_publication sample_keys sample_envelopes (Some [sample_item]) (Some sample_invitation)
      sample_agent ''agt_a'' sample_status 30 stored_db = Inr published_db"
    using sample_status_applied
    by (simp add: process_publication_def reconcile_state_observation_def state_event_envelope_def sample_status_def
        apply_receipt_def and_then_def)
  ultimately show ?thesis
    by (simp add: record_publication_body_def require_agent_def ok_or_def and_then_def Let_def)
qed

lemma sample_status_recorded:
  "record_publication sample_keys sample_envelopes sample_inventories 31 ''agt_a'' ''k'' sample_status 30 sample_db =
    (published_db, Inr ())"
proof -
  have "parsed_inventory sample_inventories sample_status = Inr (Some [sample_item])" by code_simp
  then show ?thesis
    using sample_status_body
    by (simp add: record_publication_def record_publication_transaction_def transaction_def)
qed

section \<open>Properties\<close>

text \<open>
  C37. Publications are recorded once: after a message was recorded, delivering it again, at
  any time and under any key expression, succeeds and changes nothing.
\<close>

theorem publication_idempotent:
  assumes "record_publication keys lib ilib audited_at agent_id key message now db = (db1, Inr ())"
  shows "record_publication keys lib ilib audited_at' agent_id key' message now' db1 = (db1, Inr ())"
proof -
  obtain inventory where inventory: "parsed_inventory ilib message = Inr inventory"
      and body: "record_publication_body keys lib inventory agent_id key message now db = Inr (db1, Inr ())"
    using record_publication_cases [OF assms] by auto
  obtain stored agent where stored: "find_by pb_message_id (publication_message_id message) (publications db1) = Some stored"
      "pb_agent_id stored = agent_id" "pb_payload stored = message"
      and agent: "find_by ag_agent_id agent_id (agents db1) = Some agent"
    using accepted_message_stored [OF body] by (auto simp: message_stored_def)
  have "insert_publication (publication_row_of agent_id key' message now') db1 = Inr (db1, False)"
    using find_by_Some [OF stored(1)] by (auto simp: insert_publication_def)
  then have "record_publication_body keys lib inventory agent_id key' message now' db1 = Inr (db1, Inr ())"
    using stored agent by (simp add: record_publication_body_def require_agent_def ok_or_def and_then_def Let_def)
  then show ?thesis
    by (simp add: record_publication_def record_publication_transaction_def inventory transaction_def)
qed

theorem publication_idempotent_witness:
  "record_publication sample_keys sample_envelopes sample_inventories 99 ''agt_a'' ''other'' sample_status 90
     published_db = (published_db, Inr ())"
  by (rule publication_idempotent [OF sample_status_recorded])

text \<open>
  C38. A message identifier stands for one content: a message of another Agent or with other
  content under a stored identifier is refused as a conflict, and nothing but the audit log
  changes.
\<close>

theorem publication_reuse_refused:
  assumes stored: "find_by pb_message_id (publication_message_id message) (publications db) = Some p"
    and differs: "pb_agent_id p \<noteq> agent_id \<or> pb_payload p \<noteq> message"
    and run: "record_publication keys lib ilib audited_at agent_id key message now db = (db', r)"
  shows "\<not> is_ok r \<and> (\<exists>es. db' = db\<lparr>audit_events := es\<rparr>)"
  using run
proof (cases rule: record_publication_cases)
  case refused
  then show ?thesis by (auto simp: is_ok_iff intro: exI [of _ "audit_events db"])
next
  case (audited e draft)
  then show ?thesis by (auto simp: is_ok_iff insert_audit_event_def insert_audit_row_def)
next
  case (accepted inventory)
  from accepted(3) show ?thesis
  proof (cases rule: record_publication_body_cases)
    case known
    then show ?thesis using stored differs by (auto simp: message_stored_def)
  next
    case (new agent db1)
    then show ?thesis using find_by_Some [OF stored] by (auto elim!: insert_publication_cases)
  qed
qed

theorem publication_reuse_refused_witness:
  "\<not> is_ok (snd (record_publication sample_keys sample_envelopes sample_inventories 99 ''agt_a'' ''k''
     (PubError ''m1'' 40 ''code'' ''text'' None False) 90 published_db))"
proof -
  have "(case find_by pb_message_id ''m1'' (publications published_db) of None \<Rightarrow> False
    | Some p \<Rightarrow> pb_payload p = sample_status)"
    by code_simp
  then obtain p where "find_by pb_message_id ''m1'' (publications published_db) = Some p" "pb_payload p = sample_status"
    by (auto split: option.splits)
  then have stored: "find_by pb_message_id (publication_message_id (PubError ''m1'' 40 ''code'' ''text'' None False))
      (publications published_db) = Some p" "pb_payload p \<noteq> PubError ''m1'' 40 ''code'' ''text'' None False"
    by (simp_all add: sample_status_def)
  show ?thesis
    by (rule publication_reuse_refused [OF stored(1) disjI2 [OF stored(2)] prod.collapse [symmetric], THEN conjunct1])
qed



text \<open>
  C39. Only signed Agent State closes a dispatch: whatever an Agent publishes apart from a
  runtime event, every command that carries Managed Work, every Managed Work, its payload and
  the evidence stay as they are.
\<close>

theorem unsigned_keeps_dispatch:
  assumes "state_ok db"
    and "record_publication keys lib ilib audited_at agent_id key message now db = (db', r)"
    and "\<And>m t e c j. message \<noteq> PubRuntimeEvent m t e c j"
  shows "managed_works db' = managed_works db \<and> managed_payloads db' = managed_payloads db \<and>
    state_observations db' = state_observations db \<and>
    filter (\<lambda>c. \<not> is_inline (cm_command c)) (commands db') = filter (\<lambda>c. \<not> is_inline (cm_command c)) (commands db)"
  using assms(2)
proof (cases rule: record_publication_cases)
  case refused
  then show ?thesis by simp
next
  case (audited e draft)
  then show ?thesis by (auto simp: insert_audit_event_def insert_audit_row_def)
next
  case (accepted inventory)
  from accepted(3) show ?thesis
  proof (cases rule: record_publication_body_cases)
    case known
    then show ?thesis by simp
  next
    case (new agent db1)
    obtain db2 db3 where s: "reconcile_state_observation keys lib agent_id message now db1 = Inr db2"
        "apply_snapshot message inventory (bound_invitation agent message db) agent now db2 = Inr db3"
        "db' = apply_receipt agent_id message now db3"
      by (rule process_publication_Inr [OF new(4)])
    have "state_event_envelope message = Inr None"
    proof (cases message)
      case (PubRuntimeEvent m t e c j)
      then show ?thesis using assms(3) by blast
    qed (simp_all add: state_event_envelope_def)
    then have "db2 = db1" using s(1) by (simp add: reconcile_state_observation_def)
    then have db3: "commands db3 = commands db" "managed_works db3 = managed_works db"
        "managed_payloads db3 = managed_payloads db" "state_observations db3 = state_observations db"
      using apply_snapshot_frame [OF s(2)] new(3) by (auto elim!: insert_publication_cases)
    have "distinct (map cm_command_id (commands db3))"
      using assms(1) db3(1) by (simp add: state_ok_def db_ok_def commands_ok_def)
    from apply_receipt_unmanaged [OF this]
    have "filter (\<lambda>c. \<not> is_inline (cm_command c)) (commands db') = filter (\<lambda>c. \<not> is_inline (cm_command c)) (commands db)"
      using s(3) db3(1) by simp
    moreover obtain cs where "db' = db3\<lparr>commands := cs\<rparr>" using apply_receipt_frame s(3) by metis
    ultimately show ?thesis using db3 by simp
  qed
qed

theorem unsigned_keeps_dispatch_witness:
  "managed_works published_db = managed_works sample_db"
proof -
  have "state_ok sample_db" by code_simp
  from unsigned_keeps_dispatch [OF this sample_status_recorded] show ?thesis
    by (simp add: sample_status_def)
qed

end
