(* ===== verification/Managed_Work.thy ===== *)
theory Managed_Work
  imports State_Observations
begin

text \<open>
  Admission and retention of Managed Work (\<^verbatim>\<open>inari-gateway/src/persistence/managed_work.rs\<close>):
  a submission is matched against its preflight, counted against the quotas of its Agent and
  organization and stored with its dispatch command and protected payload in one
  transaction; the payload is deleted when the work expires.
\<close>

section \<open>Definitions\<close>

definition AGENT_PENDING_WORK_LIMIT :: int where
  "AGENT_PENDING_WORK_LIMIT = 32"

definition AGENT_PENDING_BYTE_LIMIT :: int where
  "AGENT_PENDING_BYTE_LIMIT = 64 * 1024 * 1024"

definition ORGANIZATION_PENDING_WORK_LIMIT :: int where
  "ORGANIZATION_PENDING_WORK_LIMIT = 256"

definition ORGANIZATION_PENDING_BYTE_LIMIT :: int where
  "ORGANIZATION_PENDING_BYTE_LIMIT = 512 * 1024 * 1024"

record PendingUsage =
  pu_work_count :: int
  pu_payload_bytes :: int

record managed_work_target_record =
  mt_organization_id :: organization_id
  mt_site_id :: site_id
  mt_agent_id :: agent_id
  mt_device_id :: device_id
  mt_device_state :: device_state
  mt_capabilities :: "device_capability list"
  mt_dispatch_key :: dispatch_encryption_key

record new_managed_work_preflight =
  np_preflight_id :: managed_preflight_id
  np_request :: managed_work_preflight_request
  np_dispatch_key_id :: string
  np_capability_digest :: string
  np_work_expires_at :: instant
  np_idempotency_expires_at :: instant
  np_submit_before :: instant
  np_created_at :: instant

record PersistedManagedWork =
  pm_managed_work_id :: managed_work_id
  pm_print_intent_id :: print_intent_id
  pm_scope :: managed_work_scope
  pm_device_id :: device_id
  pm_operation :: managed_document_operation
  pm_state :: managed_work_state
  pm_print_job_id :: "string option"
  pm_print_job_observation :: "signed_agent_state_observation option"
  pm_error_code :: "string option"
  pm_message_key :: string
  pm_admitted_at :: instant
  pm_updated_at :: instant
  pm_expires_at :: instant

record persisted_managed_work_dispatch =
  pd_managed_work :: PersistedManagedWork
  pd_command :: "PersistedCommand option"

record new_managed_payload =
  nm_ciphertext :: bytes
  nm_nonce :: bytes
  nm_wrapped_data_key :: string
  nm_wrapping_key_version :: "32 word"
  nm_authenticated_data_digest :: bytes
  nm_plaintext_bytes :: int

record managed_payload_context =
  px_organization_id :: string
  px_managed_work_id :: managed_work_id
  px_idempotency_key :: string
  px_payload_fingerprint :: string
  px_request_fingerprint :: string

record persisted_managed_payload =
  py_protection :: new_managed_payload
  py_context :: managed_payload_context

record managed_dispatch_allocation =
  al_managed_work_id :: managed_work_id
  al_sequence :: "64 word"
  al_command_id :: string
  al_message_id :: string
  al_issued_at :: instant
  al_recipient_key :: dispatch_encryption_key
  al_work_expires_at :: instant

record managed_work_admission =
  wa_router_admission :: router_admission
  wa_managed_work_id :: managed_work_id
  wa_idempotency_key :: string
  wa_submission :: managed_work_submission
  wa_request_fingerprint :: bytes
  wa_payload_fingerprint :: bytes
  wa_payload_bytes :: int
  wa_admitted_at :: instant

text \<open>SHA-256 and the hexadecimal encoder.\<close>

record digest_library =
  dg_sha256 :: "bytes \<Rightarrow> bytes"
  dg_hex :: "bytes \<Rightarrow> string"

fun ManagedWorkState_from :: "managed_work_state_value \<Rightarrow> managed_work_state" where
  "ManagedWorkState_from PendingAgentValue = PendingAgent"
| "ManagedWorkState_from DispatchingValue = Dispatching"
| "ManagedWorkState_from AcceptedValue = WorkAccepted"
| "ManagedWorkState_from RejectedValue = WorkRejected"
| "ManagedWorkState_from CanceledValue = WorkCanceled"
| "ManagedWorkState_from ExpiredValue = WorkExpired"
| "ManagedWorkState_from RecoveryUncertainValue = RecoveryUncertain"

definition persisted_managed_work :: "managed_work_row \<Rightarrow> PersistedManagedWork gateway_result" where
  "persisted_managed_work model =
    and_then (ManagedWorkId_from_str (mw_managed_work_id model)) (\<lambda>wid.
    and_then (PrintIntentId_from_str (mw_print_intent_id model)) (\<lambda>intent.
    and_then (OrganizationId_from_str (mw_organization_id model)) (\<lambda>organization.
    and_then (SiteId_from_str (mw_site_id model)) (\<lambda>site.
    and_then (AgentId_from_str (mw_agent_id model)) (\<lambda>agent.
    and_then (DeviceId_from_str (mw_device_id model)) (\<lambda>device.
    Inr \<lparr>pm_managed_work_id = wid, pm_print_intent_id = intent,
         pm_scope = \<lparr>sc_database = mw_database_name model, sc_company_id = mw_company_id model,
           sc_organization_id = organization, sc_site_id = site, sc_agent_id = agent\<rparr>,
         pm_device_id = device, pm_operation = mw_operation model,
         pm_state = ManagedWorkState_from (mw_state model), pm_print_job_id = mw_print_job_id model,
         pm_print_job_observation = mw_print_job_observation model, pm_error_code = mw_error_code model,
         pm_message_key = mw_message_key model, pm_admitted_at = mw_admitted_at model,
         pm_updated_at = mw_updated_at model, pm_expires_at = mw_expires_at model\<rparr>))))))"

definition create_managed_work_preflight ::
    "new_managed_work_preflight \<Rightarrow> gateway_db \<Rightarrow> gateway_db \<times> unit gateway_result" where
  "create_managed_work_preflight preflight =
    transaction (\<lambda>db.
      and_then (insert_preflight
        \<lparr>pf_preflight_id = preflight_str (np_preflight_id preflight), pf_request = np_request preflight,
         pf_dispatch_key_id = np_dispatch_key_id preflight,
         pf_capability_digest = np_capability_digest preflight,
         pf_work_expires_at = np_work_expires_at preflight,
         pf_idempotency_expires_at = np_idempotency_expires_at preflight,
         pf_submit_before = np_submit_before preflight, pf_created_at = np_created_at preflight\<rparr> db)
        (\<lambda>db. Inr (db, Inr ())))"

definition find_device :: "string \<Rightarrow> string \<Rightarrow> gateway_db \<Rightarrow> device_row option" where
  "find_device agent_id device_id db =
    find (\<lambda>d. dv_agent_id d = agent_id \<and> dv_device_id d = device_id) (devices db)"

definition scope_mismatch :: "string \<Rightarrow> string \<Rightarrow> agent_row \<Rightarrow> bool" where
  "scope_mismatch organization_id site_id agent \<longleftrightarrow>
    ag_organization_id agent \<noteq> organization_id \<or> ag_site_id agent \<noteq> site_id"

definition managed_work_target ::
    "string \<Rightarrow> string \<Rightarrow> string \<Rightarrow> string \<Rightarrow> gateway_db \<Rightarrow> managed_work_target_record gateway_result" where
  "managed_work_target organization_id site_id agent_id device_id db =
    and_then (ok_or (NotFound ''managed Agent was not found'')
                (find_by ag_agent_id agent_id (agents db))) (\<lambda>agent.
    if scope_mismatch organization_id site_id agent then
      Inl (Forbidden ''managed Agent scope does not match the request'')
    else
      and_then (ok_or (Conflict ''managed Agent must re-enroll with a dispatch key'')
                  (ag_dispatch_key agent)) (\<lambda>dispatch_key.
      and_then (ok_or (NotFound ''managed Device was not found'')
                  (find_device agent_id device_id db)) (\<lambda>device.
      if dv_agent_id device \<noteq> agent_id \<or> dv_site_id device \<noteq> site_id then
        Inl (Forbidden ''managed Device scope does not match the request'')
      else
        and_then (OrganizationId_from_str (ag_organization_id agent)) (\<lambda>organization.
        and_then (SiteId_from_str (ag_site_id agent)) (\<lambda>site.
        and_then (AgentId_from_str (ag_agent_id agent)) (\<lambda>aid.
        and_then (DeviceId_from_str (dv_device_id device)) (\<lambda>did.
        Inr \<lparr>mt_organization_id = organization, mt_site_id = site, mt_agent_id = aid,
             mt_device_id = did, mt_device_state = dv_state device,
             mt_capabilities = dv_capabilities device, mt_dispatch_key = dispatch_key\<rparr>)))))))"

definition managed_work_target_in ::
    "string \<Rightarrow> string \<Rightarrow> string \<Rightarrow> string \<Rightarrow> gateway_db \<Rightarrow> dispatch_encryption_key gateway_result" where
  "managed_work_target_in organization_id site_id agent_id device_id db =
    and_then (ok_or (NotFound ''managed Agent was not found'')
                (find_by ag_agent_id agent_id (agents db))) (\<lambda>agent.
    if scope_mismatch organization_id site_id agent then
      Inl (Forbidden ''managed Agent scope does not match the request'')
    else
      and_then (ok_or (NotFound ''managed Device was not found'')
                  (find_device agent_id device_id db)) (\<lambda>device.
      if dv_agent_id device \<noteq> agent_id \<or> dv_site_id device \<noteq> site_id then
        Inl (Forbidden ''managed Device scope does not match the request'')
      else ok_or (Conflict ''managed Agent must re-enroll with a dispatch key'') (ag_dispatch_key agent)))"

subsection \<open>Retention\<close>

definition overdue :: "instant \<Rightarrow> managed_work_row \<Rightarrow> bool" where
  "overdue now w \<longleftrightarrow> mw_payload_deleted_at w = None \<and>
    (mw_expires_at w \<le> now \<or> mw_state w = RecoveryUncertainValue)"

definition expired_work :: "instant \<Rightarrow> managed_work_row \<Rightarrow> managed_work_row" where
  "expired_work now model =
    (let next_state = (case mw_state model of
           PendingAgentValue \<Rightarrow> Some (ExpiredValue, ''managed_work.expired'')
         | DispatchingValue \<Rightarrow> Some (RecoveryUncertainValue, ''managed_work.recovery_uncertain'')
         | _ \<Rightarrow> None);
         update = (case next_state of
           Some (state, message_key) \<Rightarrow> model\<lparr>mw_state := state, mw_message_key := message_key\<rparr>
         | None \<Rightarrow> model)
     in update\<lparr>mw_payload_deleted_at := Some now, mw_updated_at := now\<rparr>)"

definition expire_one :: "instant \<Rightarrow> managed_work_row \<Rightarrow> gateway_db \<Rightarrow> gateway_db gateway_result" where
  "expire_one now model db =
    update_managed_work (expired_work now model) (delete_payload (mw_managed_work_id model) db)"

text \<open>
  The query has a limit and no order: the model takes the rows in the order of the table.
\<close>

definition expire_managed_payloads :: "instant \<Rightarrow> gateway_db \<Rightarrow> gateway_db \<times> nat gateway_result" where
  "expire_managed_payloads now =
    transaction (\<lambda>db.
      let work = take 256 (filter (overdue now) (managed_works db));
          count = length work
      in and_then (try_fold (expire_one now) work db) (\<lambda>db. Inr (db, Inr count)))"

definition protection_of :: "managed_payload_row \<Rightarrow> new_managed_payload gateway_result" where
  "protection_of payload =
    (if length (mp_nonce payload) \<noteq> 12 then Inl (CorruptState ''Managed Payload nonce is invalid'')
     else if mp_wrapping_key_version payload < 0 then
       Inl (CorruptState ''Managed Payload key version is invalid'')
     else if length (mp_authenticated_data_digest payload) \<noteq> 32 then
       Inl (CorruptState ''Managed Payload authenticated data digest is invalid'')
     else Inr \<lparr>nm_ciphertext = mp_ciphertext payload, nm_nonce = mp_nonce payload,
       nm_wrapped_data_key = mp_wrapped_data_key payload,
       nm_wrapping_key_version = word_of_int (mp_wrapping_key_version payload),
       nm_authenticated_data_digest = mp_authenticated_data_digest payload,
       nm_plaintext_bytes = mp_plaintext_bytes payload\<rparr>)"

definition managed_payload ::
    "digest_library \<Rightarrow> instant \<Rightarrow> managed_work_id \<Rightarrow> gateway_db \<Rightarrow> persisted_managed_payload gateway_result" where
  "managed_payload digests now managed_work_id db =
    and_then (ok_or (NotFound ''Managed Work was not found'')
                (find_by mw_managed_work_id (work_str managed_work_id) (managed_works db))) (\<lambda>work.
    if mw_state work \<noteq> DispatchingValue \<or> mw_expires_at work \<le> now then
      Inl (Conflict ''Managed Work is not available for dispatch'')
    else
      and_then (ok_or (CorruptState ''Managed Payload is missing'')
                  (find_by mp_managed_work_id (work_str managed_work_id) (managed_payloads db))) (\<lambda>payload.
      and_then (protection_of payload) (\<lambda>protection.
      Inr \<lparr>py_protection = protection,
           py_context = \<lparr>px_organization_id = mw_organization_id work, px_managed_work_id = managed_work_id,
             px_idempotency_key = mw_idempotency_key work,
             px_payload_fingerprint = dg_hex digests (mw_payload_fingerprint work),
             px_request_fingerprint = dg_hex digests (mw_request_fingerprint work)\<rparr>\<rparr>)))"

definition managed_work :: "managed_work_id \<Rightarrow> gateway_db \<Rightarrow> PersistedManagedWork gateway_result" where
  "managed_work managed_work_id db =
    and_then (ok_or (NotFound ''Managed Work was not found'')
                (find_by mw_managed_work_id (work_str managed_work_id) (managed_works db)))
      persisted_managed_work"

subsection \<open>Admission\<close>

definition existing_candidates ::
    "managed_work_id \<Rightarrow> string \<Rightarrow> string \<Rightarrow> string \<Rightarrow> gateway_db \<Rightarrow> managed_work_row option list" where
  "existing_candidates managed_work_id organization_id idempotency_key print_intent_id db =
    [find_by mw_managed_work_id (work_str managed_work_id) (managed_works db),
     find (\<lambda>w. mw_organization_id w = organization_id \<and> mw_idempotency_key w = idempotency_key) (managed_works db),
     find_by mw_print_intent_id print_intent_id (managed_works db)]"

definition other_device_work ::
    "string \<Rightarrow> string \<Rightarrow> string \<Rightarrow> bytes \<Rightarrow> managed_work_row option \<Rightarrow> managed_work_row \<Rightarrow> bool" where
  "other_device_work organization_id idempotency_key print_intent_id request_fingerprint existing candidate \<longleftrightarrow>
    mw_organization_id candidate \<noteq> organization_id \<or> mw_idempotency_key candidate \<noteq> idempotency_key \<or>
    mw_print_intent_id candidate \<noteq> print_intent_id \<or>
    mw_request_fingerprint candidate \<noteq> request_fingerprint \<or>
    (case existing of None \<Rightarrow> False | Some e \<Rightarrow> mw_managed_work_id e \<noteq> mw_managed_work_id candidate)"

fun merge_candidates ::
    "string \<Rightarrow> string \<Rightarrow> string \<Rightarrow> bytes \<Rightarrow> managed_work_row option \<Rightarrow> managed_work_row option list \<Rightarrow>
     managed_work_row option gateway_result" where
  "merge_candidates organization_id idempotency_key print_intent_id request_fingerprint existing [] = Inr existing"
| "merge_candidates organization_id idempotency_key print_intent_id request_fingerprint existing (None # cs) =
    merge_candidates organization_id idempotency_key print_intent_id request_fingerprint existing cs"
| "merge_candidates organization_id idempotency_key print_intent_id request_fingerprint existing (Some c # cs) =
    (if other_device_work organization_id idempotency_key print_intent_id request_fingerprint existing c
     then Inl (Conflict ''a Managed Work identity was already used for different Device Work'')
     else merge_candidates organization_id idempotency_key print_intent_id request_fingerprint (Some c) cs)"

definition find_existing_managed_work ::
    "managed_work_id \<Rightarrow> string \<Rightarrow> string \<Rightarrow> string \<Rightarrow> bytes \<Rightarrow> gateway_db \<Rightarrow>
     managed_work_row option gateway_result" where
  "find_existing_managed_work managed_work_id organization_id idempotency_key print_intent_id
      request_fingerprint db =
    merge_candidates organization_id idempotency_key print_intent_id request_fingerprint None
      (existing_candidates managed_work_id organization_id idempotency_key print_intent_id db)"

definition dispatch_command_id :: "digest_library \<Rightarrow> string \<Rightarrow> string" where
  "dispatch_command_id digests managed_work_id =
    ''job_dispatch_'' @ dg_hex digests (take 16 (dg_sha256 digests managed_work_id))"

definition existing_dispatch ::
    "digest_library \<Rightarrow> managed_work_row \<Rightarrow> gateway_db \<Rightarrow> persisted_managed_work_dispatch gateway_result" where
  "existing_dispatch digests existing db =
    and_then (if mw_state existing = DispatchingValue then
        and_then (ok_or (CorruptState ''dispatching Managed Work has no durable Controller command'')
          (find_by cm_command_id (dispatch_command_id digests (mw_managed_work_id existing)) (commands db))) (\<lambda>model.
        and_then (ok_or (CorruptState ''Managed Work Agent is missing'')
          (find_by ag_agent_id (mw_agent_id existing) (agents db))) (\<lambda>agent.
        and_then (persisted_command model (ag_namespace agent)) (\<lambda>command. Inr (Some command))))
      else Inr None) (\<lambda>command.
    and_then (persisted_managed_work existing) (\<lambda>work.
    Inr \<lparr>pd_managed_work = work, pd_command = command\<rparr>))"

definition replay_managed_work ::
    "digest_library \<Rightarrow> managed_work_id \<Rightarrow> string \<Rightarrow> string \<Rightarrow> string \<Rightarrow> bytes \<Rightarrow> gateway_db \<Rightarrow>
     persisted_managed_work_dispatch option gateway_result" where
  "replay_managed_work digests managed_work_id organization_id idempotency_key print_intent_id
      request_fingerprint db =
    and_then (find_existing_managed_work managed_work_id organization_id idempotency_key print_intent_id
      request_fingerprint db) (\<lambda>existing.
    case existing of
      Some model \<Rightarrow> and_then (existing_dispatch digests model db) (\<lambda>d. Inr (Some d))
    | None \<Rightarrow> Inr None)"

definition pending_work :: "managed_work_row \<Rightarrow> bool" where
  "pending_work w \<longleftrightarrow> mw_state w \<in> {PendingAgentValue, DispatchingValue}"

definition pending_of :: "(managed_work_row \<Rightarrow> string) \<Rightarrow> string \<Rightarrow> gateway_db \<Rightarrow> managed_work_row list" where
  "pending_of scope_column scope_value db =
    filter (\<lambda>w. scope_column w = scope_value \<and> pending_work w) (managed_works db)"

text \<open>\<^verbatim>\<open>SUM(payload_bytes)::BIGINT\<close> fails when the sum is out of range.\<close>

definition pending_usage :: "(managed_work_row \<Rightarrow> string) \<Rightarrow> string \<Rightarrow> gateway_db \<Rightarrow> PendingUsage gateway_result" where
  "pending_usage scope_column scope_value db =
    (let rows = pending_of scope_column scope_value db;
         total = sum_list (map mw_payload_bytes rows)
     in if total \<le> i64_max then Inr \<lparr>pu_work_count = int (length rows), pu_payload_bytes = total\<rparr>
        else Inl Persistence)"

definition enforce_quota :: "PendingUsage \<Rightarrow> int \<Rightarrow> int \<Rightarrow> int \<Rightarrow> string \<Rightarrow> unit gateway_result" where
  "enforce_quota usage payload_bytes work_limit byte_limit scope_name =
    and_then (ok_or (Conflict ''Managed Work byte use is out of range'')
                (checked_add_i64 (pu_payload_bytes usage) payload_bytes)) (\<lambda>next_bytes.
    if pu_work_count usage \<ge> work_limit \<or> next_bytes > byte_limit then
      Inl (Capacity (scope_name @ '' Managed Work queue is full''))
    else Inr ())"

definition enforce_quotas :: "managed_work_scope \<Rightarrow> int \<Rightarrow> gateway_db \<Rightarrow> unit gateway_result" where
  "enforce_quotas scope payload_bytes db =
    and_then (pending_usage mw_agent_id (agent_str (sc_agent_id scope)) db) (\<lambda>agent_usage.
    and_then (enforce_quota agent_usage payload_bytes AGENT_PENDING_WORK_LIMIT AGENT_PENDING_BYTE_LIMIT
                ''Agent'') (\<lambda>_.
    and_then (pending_usage mw_organization_id (organization_str (sc_organization_id scope)) db) (\<lambda>organization_usage.
    enforce_quota organization_usage payload_bytes ORGANIZATION_PENDING_WORK_LIMIT
      ORGANIZATION_PENDING_BYTE_LIMIT ''Organization'')))"

definition expected_request :: "managed_work_submission \<Rightarrow> managed_work_preflight_request" where
  "expected_request submission =
    (let work = sub_work submission in
     \<lparr>pr_contract_major = sub_contract_major submission, pr_scope = dw_scope work,
      pr_device_id = dw_device_id work, pr_operation = document_operation (dw_document work),
      pr_binding = or_binding (dw_origin work)\<rparr>)"

definition insert_dispatch_command ::
    "digest_library \<Rightarrow> (managed_dispatch_allocation \<Rightarrow> new_managed_payload gateway_result) \<Rightarrow>
     managed_work_id \<Rightarrow> string \<Rightarrow> bytes \<Rightarrow> instant \<Rightarrow> dispatch_encryption_key \<Rightarrow> instant \<Rightarrow> gateway_db \<Rightarrow>
     (gateway_db \<times> PersistedCommand \<times> new_managed_payload) gateway_result" where
  "insert_dispatch_command digests build_command managed_work_id agent_id request_fingerprint issued_at
      recipient_key work_expires_at db =
    and_then (ok_or (CorruptState ''Managed Work Agent is missing'')
                (find_by ag_agent_id agent_id (agents db))) (\<lambda>managed_agent.
    and_then (next_command_sequence db agent_id) (\<lambda>next.
    and_then (ok_or (Conflict ''command sequence is out of range'') (u64_of_i64 next)) (\<lambda>seq.
    let command_id = dispatch_command_id digests (work_str managed_work_id);
        message_id = ''msg_'' @ command_id
    in and_then (build_command \<lparr>al_managed_work_id = managed_work_id, al_sequence = seq,
           al_command_id = command_id, al_message_id = message_id, al_issued_at = issued_at,
           al_recipient_key = recipient_key, al_work_expires_at = work_expires_at\<rparr>) (\<lambda>protected_payload.
       let model = \<lparr>cm_command_id = command_id, cm_agent_id = agent_id, cm_message_id = message_id,
             cm_sequence = next, cm_state = CmdQueued, cm_command = ManagedWorkContent managed_work_id,
             cm_request_fingerprint = request_fingerprint, cm_issued_at = issued_at,
             cm_published_at = None, cm_updated_at = issued_at\<rparr>
       in and_then (insert_command model db) (\<lambda>db.
          and_then (persisted_command model (ag_namespace managed_agent)) (\<lambda>command.
          Inr (db, command, protected_payload)))))))"

definition admitted_work :: "managed_work_admission \<Rightarrow> preflight_row \<Rightarrow> managed_work_row" where
  "admitted_work admission preflight =
    (let submission = wa_submission admission; work = sub_work submission; scope = dw_scope work;
         now = wa_admitted_at admission in
     \<lparr>mw_managed_work_id = work_str (wa_managed_work_id admission),
      mw_preflight_id = preflight_str (sub_preflight_id submission),
      mw_organization_id = organization_str (sc_organization_id scope),
      mw_idempotency_key = wa_idempotency_key admission, mw_database_name = sc_database scope,
      mw_company_id = sc_company_id scope, mw_site_id = site_str (sc_site_id scope),
      mw_agent_id = agent_str (sc_agent_id scope), mw_device_id = device_str (dw_device_id work),
      mw_print_intent_id = intent_str (dw_print_intent_id work),
      mw_operation = document_operation (dw_document work),
      mw_media_type = media_type (document_operation (dw_document work)),
      mw_state = DispatchingValue, mw_binding_claim = or_binding (dw_origin work),
      mw_payload_fingerprint = wa_payload_fingerprint admission,
      mw_request_fingerprint = wa_request_fingerprint admission,
      mw_payload_bytes = wa_payload_bytes admission, mw_payload_deleted_at = None,
      mw_print_job_id = None, mw_print_job_observation = None, mw_error_code = None,
      mw_message_key = ''managed_work.dispatching'', mw_expires_at = pf_work_expires_at preflight,
      mw_idempotency_expires_at = pf_idempotency_expires_at preflight, mw_admitted_at = now,
      mw_updated_at = now\<rparr>)"

definition stored_payload ::
    "managed_work_admission \<Rightarrow> preflight_row \<Rightarrow> new_managed_payload \<Rightarrow> managed_payload_row gateway_result" where
  "stored_payload admission preflight protected_payload =
    (if uint (nm_wrapping_key_version protected_payload) > 2147483647 then
       Inl (InvalidInput ''Transit key version is out of range'')
     else Inr \<lparr>mp_managed_work_id = work_str (wa_managed_work_id admission),
       mp_ciphertext = nm_ciphertext protected_payload, mp_nonce = nm_nonce protected_payload,
       mp_wrapped_data_key = nm_wrapped_data_key protected_payload,
       mp_wrapping_key_version = uint (nm_wrapping_key_version protected_payload),
       mp_authenticated_data_digest = nm_authenticated_data_digest protected_payload,
       mp_payload_fingerprint = wa_payload_fingerprint admission,
       mp_plaintext_bytes = nm_plaintext_bytes protected_payload,
       mp_expires_at = pf_work_expires_at preflight, mp_created_at = wa_admitted_at admission\<rparr>)"

text \<open>The writes of an admission that passed every check.\<close>

definition store_admission ::
    "digest_library \<Rightarrow> (managed_dispatch_allocation \<Rightarrow> new_managed_payload gateway_result) \<Rightarrow>
     managed_work_admission \<Rightarrow> preflight_row \<Rightarrow> dispatch_encryption_key \<Rightarrow> gateway_db \<Rightarrow>
     (gateway_db \<times> persisted_managed_work_dispatch gateway_result) gateway_result" where
  "store_admission digests build_command admission preflight target db =
    (let scope = dw_scope (sub_work (wa_submission admission)); model = admitted_work admission preflight in
     and_then (insert_dispatch_command digests build_command (wa_managed_work_id admission)
       (agent_str (sc_agent_id scope)) (wa_request_fingerprint admission) (wa_admitted_at admission) target
       (pf_work_expires_at preflight) db) (\<lambda>(db, command, protected_payload).
     and_then (insert_managed_work model db) (\<lambda>db.
     and_then (stored_payload admission preflight protected_payload) (\<lambda>payload.
     and_then (insert_managed_payload payload db) (\<lambda>db.
     Inr (db, and_then (persisted_managed_work model) (\<lambda>work.
       Inr \<lparr>pd_managed_work = work, pd_command = Some command\<rparr>)))))))"

definition admit_new_work ::
    "digest_library \<Rightarrow> (managed_dispatch_allocation \<Rightarrow> new_managed_payload gateway_result) \<Rightarrow>
     managed_work_admission \<Rightarrow> gateway_db \<Rightarrow>
     (gateway_db \<times> persisted_managed_work_dispatch gateway_result) gateway_result" where
  "admit_new_work digests build_command admission db =
    (let submission = wa_submission admission; work = sub_work submission; scope = dw_scope work in
     and_then (ok_or (NotFound ''Managed Work preflight was not found'')
                 (find_by pf_preflight_id (preflight_str (sub_preflight_id submission)) (preflights db))) (\<lambda>preflight.
     if pf_request preflight \<noteq> expected_request submission then
       Inl (Conflict ''Managed Work submission does not match its preflight'')
     else if pf_submit_before preflight \<le> wa_admitted_at admission then
       Inl (Conflict ''Managed Work preflight has expired'')
     else
       and_then (managed_work_target_in (organization_str (sc_organization_id scope))
         (site_str (sc_site_id scope)) (agent_str (sc_agent_id scope)) (device_str (dw_device_id work)) db) (\<lambda>target.
       if dk_key_id target \<noteq> pf_dispatch_key_id preflight then
         Inl (Conflict ''the Managed Work preflight does not use the current Agent dispatch key'')
       else
         and_then (enforce_quotas scope (wa_payload_bytes admission) db) (\<lambda>_.
         store_admission digests build_command admission preflight target db))))"

definition admit_body ::
    "digest_library \<Rightarrow> instant \<Rightarrow> (managed_dispatch_allocation \<Rightarrow> new_managed_payload gateway_result) \<Rightarrow>
     managed_work_admission \<Rightarrow> gateway_db \<Rightarrow>
     (gateway_db \<times> persisted_managed_work_dispatch gateway_result) gateway_result" where
  "admit_body digests t1 build_command admission db =
    (let work = sub_work (wa_submission admission); scope = dw_scope work in
     and_then (require_admission_in t1 (wa_router_admission admission) (agent_str (sc_agent_id scope)) db) (\<lambda>_.
     and_then (find_existing_managed_work (wa_managed_work_id admission)
       (organization_str (sc_organization_id scope)) (wa_idempotency_key admission)
       (intent_str (dw_print_intent_id work)) (wa_request_fingerprint admission) db) (\<lambda>existing.
     case existing of
       Some model \<Rightarrow> Inr (db, existing_dispatch digests model db)
     | None \<Rightarrow> admit_new_work digests build_command admission db)))"

definition admit_managed_work ::
    "digest_library \<Rightarrow> instant \<Rightarrow> (managed_dispatch_allocation \<Rightarrow> new_managed_payload gateway_result) \<Rightarrow>
     managed_work_admission \<Rightarrow> gateway_db \<Rightarrow> gateway_db \<times> persisted_managed_work_dispatch gateway_result" where
  "admit_managed_work digests t1 build_command admission db =
    (if adm_organization_id (wa_router_admission admission) \<noteq>
        organization_str (sc_organization_id (dw_scope (sub_work (wa_submission admission)))) then
       (db, Inl (Forbidden ''Router admission belongs to another Organization''))
     else transaction (admit_body digests t1 build_command admission) db)"

section \<open>Quotas\<close>

text \<open>
  The quotas as an invariant: no Agent and no organization ever has more pending work, or
  more pending bytes, than its limit.
\<close>

definition within_quota :: "(managed_work_row \<Rightarrow> string) \<Rightarrow> int \<Rightarrow> int \<Rightarrow> gateway_db \<Rightarrow> bool" where
  "within_quota scope_column work_limit byte_limit db \<longleftrightarrow>
    list_all (\<lambda>w. int (length (pending_of scope_column (scope_column w) db)) \<le> work_limit \<and>
      sum_list (map mw_payload_bytes (pending_of scope_column (scope_column w) db)) \<le> byte_limit) (managed_works db)"

definition quotas_ok :: "gateway_db \<Rightarrow> bool" where
  "quotas_ok db \<longleftrightarrow>
    within_quota mw_agent_id AGENT_PENDING_WORK_LIMIT AGENT_PENDING_BYTE_LIMIT db \<and>
    within_quota mw_organization_id ORGANIZATION_PENDING_WORK_LIMIT ORGANIZATION_PENDING_BYTE_LIMIT db"

lemma pending_of_absent:
  "v \<notin> col ` set (managed_works db) \<Longrightarrow> pending_of col v db = []"
  by (auto simp: pending_of_def filter_empty_conv)

lemma within_quota_all:
  assumes "within_quota col n b db" and "0 \<le> n" and "0 \<le> b"
  shows "int (length (pending_of col v db)) \<le> n \<and> sum_list (map mw_payload_bytes (pending_of col v db)) \<le> b"
proof (cases "v \<in> col ` set (managed_works db)")
  case True
  then show ?thesis using assms(1) by (auto simp: within_quota_def list_all_iff)
next
  case False
  then show ?thesis using assms(2,3) pending_of_absent [OF False] by simp
qed

lemma within_quotaI:
  "(\<And>v. int (length (pending_of col v db)) \<le> n \<and> sum_list (map mw_payload_bytes (pending_of col v db)) \<le> b) \<Longrightarrow>
    within_quota col n b db"
  by (simp add: within_quota_def list_all_iff)

lemma quota_limits_nonneg [simp]:
  "0 \<le> AGENT_PENDING_WORK_LIMIT" "0 \<le> AGENT_PENDING_BYTE_LIMIT"
  "0 \<le> ORGANIZATION_PENDING_WORK_LIMIT" "0 \<le> ORGANIZATION_PENDING_BYTE_LIMIT"
  by (simp_all add: AGENT_PENDING_WORK_LIMIT_def AGENT_PENDING_BYTE_LIMIT_def
      ORGANIZATION_PENDING_WORK_LIMIT_def ORGANIZATION_PENDING_BYTE_LIMIT_def)

text \<open>Updates that only settle work never use more.\<close>

definition settles :: "managed_work_row \<Rightarrow> managed_work_row \<Rightarrow> bool" where
  "settles w v \<longleftrightarrow> mw_agent_id v = mw_agent_id w \<and> mw_organization_id v = mw_organization_id w \<and>
    mw_payload_bytes v = mw_payload_bytes w \<and> 0 \<le> mw_payload_bytes w \<and> (pending_work v \<longrightarrow> pending_work w)"

lemma settled_usage:
  assumes "list_all2 settles ws vs" and "\<And>w v. settles w v \<Longrightarrow> col v = col w"
  shows "length (filter (\<lambda>w. col w = c \<and> pending_work w) vs) \<le> length (filter (\<lambda>w. col w = c \<and> pending_work w) ws)"
    and "sum_list (map mw_payload_bytes (filter (\<lambda>w. col w = c \<and> pending_work w) vs)) \<le>
      sum_list (map mw_payload_bytes (filter (\<lambda>w. col w = c \<and> pending_work w) ws))"
  using assms(1)
proof (induction rule: list_all2_induct)
  case (Cons x xs y ys)
  note col = assms(2) [OF Cons(1)]
  {
    case 1
    then show ?case using Cons col by (auto simp: settles_def)
  next
    case 2
    then show ?case using Cons col by (auto simp: settles_def)
  }
qed simp_all

lemma within_quota_settled:
  assumes "within_quota col n b db" and "0 \<le> n" and "0 \<le> b"
    and "list_all2 settles (managed_works db) (managed_works db')"
    and "\<And>w v. settles w v \<Longrightarrow> col v = col w"
  shows "within_quota col n b db'"
proof (rule within_quotaI)
  fix v
  show "int (length (pending_of col v db')) \<le> n \<and> sum_list (map mw_payload_bytes (pending_of col v db')) \<le> b"
    using within_quota_all [OF assms(1-3), of v] settled_usage [where col = col and c = v, OF assms(4,5)]
    unfolding pending_of_def by linarith
qed

lemma quotas_ok_settled:
  assumes "quotas_ok db" and "list_all2 settles (managed_works db) (managed_works db')"
  shows "quotas_ok db'"
  using assms by (auto simp: quotas_ok_def settles_def intro!: within_quota_settled [OF _ _ _ assms(2)])

lemma quotas_ok_same: "managed_works db' = managed_works db \<Longrightarrow> quotas_ok db \<Longrightarrow> quotas_ok db'"
  by (simp add: quotas_ok_def within_quota_def pending_of_def)

lemma settles_update:
  assumes "managed_works db' = update_where P f (managed_works db)"
    and "\<And>w. w \<in> set (managed_works db) \<Longrightarrow> 0 \<le> mw_payload_bytes w"
    and "\<And>w. w \<in> set (managed_works db) \<Longrightarrow> P w \<Longrightarrow> settles w (f w)"
  shows "list_all2 settles (managed_works db) (managed_works db')"
proof -
  have "settles w w" if "w \<in> set (managed_works db)" for w
    using assms(2) [OF that] by (simp add: settles_def)
  then show ?thesis
    using assms(3) by (simp add: assms(1) update_where_def list_all2_map2 list_all2_same)
qed

text \<open>An admitted work fits.\<close>

lemma enforce_quota_Inr:
  assumes "pending_usage col v db = Inr usage" and "enforce_quota usage bytes n b name = Inr ()"
  shows "int (length (pending_of col v db)) + 1 \<le> n"
    and "sum_list (map mw_payload_bytes (pending_of col v db)) + bytes \<le> b"
  using assms
  by (auto simp: pending_usage_def enforce_quota_def Let_def and_then_eq_Inr ok_or_eq_Inr checked_add_i64_def
      split: if_splits)

lemma within_quota_append:
  assumes "within_quota col n b db" and "0 \<le> n" and "0 \<le> b"
    and "managed_works db' = managed_works db @ [w]"
    and "int (length (pending_of col (col w) db)) + 1 \<le> n"
    and "sum_list (map mw_payload_bytes (pending_of col (col w) db)) + mw_payload_bytes w \<le> b"
  shows "within_quota col n b db'"
proof (rule within_quotaI)
  fix v
  have "pending_of col v db' = pending_of col v db @ (if col w = v \<and> pending_work w then [w] else [])"
    by (simp add: pending_of_def assms(4))
  then show "int (length (pending_of col v db')) \<le> n \<and> sum_list (map mw_payload_bytes (pending_of col v db')) \<le> b"
    using within_quota_all [OF assms(1-3), of v] assms(5,6) by auto
qed

lemma quotas_ok_admitted:
  assumes "quotas_ok db" and "enforce_quotas scope bytes db = Inr ()"
    and "managed_works db' = managed_works db @ [w]" and "mw_agent_id w = agent_str (sc_agent_id scope)"
    and "mw_organization_id w = organization_str (sc_organization_id scope)" and "mw_payload_bytes w = bytes"
  shows "quotas_ok db'"
proof -
  obtain ua uo where u: "pending_usage mw_agent_id (mw_agent_id w) db = Inr ua"
      "enforce_quota ua bytes AGENT_PENDING_WORK_LIMIT AGENT_PENDING_BYTE_LIMIT ''Agent'' = Inr ()"
      "pending_usage mw_organization_id (mw_organization_id w) db = Inr uo"
      "enforce_quota uo bytes ORGANIZATION_PENDING_WORK_LIMIT ORGANIZATION_PENDING_BYTE_LIMIT ''Organization'' = Inr ()"
    using assms(2) unfolding enforce_quotas_def and_then_eq_Inr assms(4,5) by auto
  note q = assms(1) [unfolded quotas_ok_def]
  show ?thesis
    unfolding quotas_ok_def
    by (intro conjI within_quota_append [OF conjunct1 [OF q] _ _ assms(3)]
        within_quota_append [OF conjunct2 [OF q] _ _ assms(3)])
      (use enforce_quota_Inr [OF u(1,2)] enforce_quota_Inr [OF u(3,4)] assms(6) in simp_all)
qed

section \<open>Admission\<close>

text \<open>The protected payload came out of the caller's builder, for this Managed Work.\<close>

definition built :: "(managed_dispatch_allocation \<Rightarrow> new_managed_payload gateway_result) \<Rightarrow>
    managed_work_id \<Rightarrow> new_managed_payload \<Rightarrow> bool" where
  "built build wid payload \<longleftrightarrow>
    (\<exists>allocation. al_managed_work_id allocation = wid \<and> build allocation = Inr payload)"

lemma builtI: "build allocation = Inr payload \<Longrightarrow> built build (al_managed_work_id allocation) payload"
  unfolding built_def by blast

lemma insert_dispatch_command_Inr:
  assumes "insert_dispatch_command digests build wid agent_id fp issued key deadline db = Inr (db', command, payload)"
  obtains c agent where "insert_command c db = Inr db'" and "cm_agent_id c = agent_id"
    and "next_command_sequence db agent_id = Inr (cm_sequence c)" and "cm_command c = ManagedWorkContent wid"
    and "cm_command_id c = dispatch_command_id digests (work_str wid)" and "cm_state c = CmdQueued"
    and "find_by ag_agent_id agent_id (agents db) = Some agent"
    and "persisted_command c (ag_namespace agent) = Inr command"
    and "built build wid payload"
  using assms
  by (auto simp: insert_dispatch_command_def and_then_eq_Inr ok_or_eq_Inr Let_def dest: builtI)

lemma admitted_work_simps [simp]:
  "mw_managed_work_id (admitted_work adm pf) = work_str (wa_managed_work_id adm)"
  "mw_organization_id (admitted_work adm pf) =
    organization_str (sc_organization_id (dw_scope (sub_work (wa_submission adm))))"
  "mw_agent_id (admitted_work adm pf) = agent_str (sc_agent_id (dw_scope (sub_work (wa_submission adm))))"
  "mw_idempotency_key (admitted_work adm pf) = wa_idempotency_key adm"
  "mw_print_intent_id (admitted_work adm pf) = intent_str (dw_print_intent_id (sub_work (wa_submission adm)))"
  "mw_request_fingerprint (admitted_work adm pf) = wa_request_fingerprint adm"
  "mw_payload_bytes (admitted_work adm pf) = wa_payload_bytes adm"
  "mw_state (admitted_work adm pf) = DispatchingValue"
  "mw_payload_deleted_at (admitted_work adm pf) = None"
  "mw_print_job_observation (admitted_work adm pf) = None"
  by (simp_all add: admitted_work_def Let_def)

lemma store_admission_Inr:
  assumes "store_admission digests build adm pf target db = Inr (db', r)"
  obtains c p agent command payload db1 db2 where "insert_command c db = Inr db1"
    and "insert_managed_work (admitted_work adm pf) db1 = Inr db2" and "insert_managed_payload p db2 = Inr db'"
    and "mp_managed_work_id p = work_str (wa_managed_work_id adm)"
    and "cm_agent_id c = mw_agent_id (admitted_work adm pf)"
    and "next_command_sequence db (cm_agent_id c) = Inr (cm_sequence c)"
    and "cm_command_id c = dispatch_command_id digests (work_str (wa_managed_work_id adm))"
    and "cm_command c = ManagedWorkContent (wa_managed_work_id adm)"
    and "find_by ag_agent_id (cm_agent_id c) (agents db) = Some agent"
    and "persisted_command c (ag_namespace agent) = Inr command"
    and "r = and_then (persisted_managed_work (admitted_work adm pf)) (\<lambda>work.
       Inr \<lparr>pd_managed_work = work, pd_command = Some command\<rparr>)"
    and "stored_payload adm pf payload = Inr p"
    and "built build (wa_managed_work_id adm) payload"
proof -
  let ?agent = "agent_str (sc_agent_id (dw_scope (sub_work (wa_submission adm))))"
  note unfolded = assms [unfolded store_admission_def Let_def,
      unfolded and_then_eq_Inr [of "insert_dispatch_command _ _ _ _ _ _ _ _ _"] split_paired_Ex prod.case]
  obtain db1 command payload where ins: "insert_dispatch_command digests build (wa_managed_work_id adm) ?agent
      (wa_request_fingerprint adm) (wa_admitted_at adm) target (pf_work_expires_at pf) db = Inr (db1, command, payload)"
    and rest: "and_then (insert_managed_work (admitted_work adm pf) db1) (\<lambda>db.
       and_then (stored_payload adm pf payload) (\<lambda>payload.
       and_then (insert_managed_payload payload db) (\<lambda>db.
       Inr (db, and_then (persisted_managed_work (admitted_work adm pf)) (\<lambda>work.
         Inr \<lparr>pd_managed_work = work, pd_command = Some command\<rparr>))))) = Inr (db', r)"
    using unfolded by blast
  obtain db2 p where db2: "insert_managed_work (admitted_work adm pf) db1 = Inr db2"
      "stored_payload adm pf payload = Inr p" "insert_managed_payload p db2 = Inr db'"
      "r = and_then (persisted_managed_work (admitted_work adm pf)) (\<lambda>work.
         Inr \<lparr>pd_managed_work = work, pd_command = Some command\<rparr>)"
    using rest unfolding and_then_eq_Inr [of "insert_managed_work _ _"] and_then_eq_Inr [of "stored_payload _ _ _"]
      and_then_eq_Inr [of "insert_managed_payload _ _"] by auto
  have p: "mp_managed_work_id p = work_str (wa_managed_work_id adm)"
    using db2(2) by (auto simp: stored_payload_def split: if_splits)
  obtain c agent where c: "insert_command c db = Inr db1" "cm_agent_id c = ?agent"
      "next_command_sequence db ?agent = Inr (cm_sequence c)"
      "cm_command c = ManagedWorkContent (wa_managed_work_id adm)"
      "cm_command_id c = dispatch_command_id digests (work_str (wa_managed_work_id adm))"
      "find_by ag_agent_id ?agent (agents db) = Some agent"
      "persisted_command c (ag_namespace agent) = Inr command"
      "built build (wa_managed_work_id adm) payload"
    by (rule insert_dispatch_command_Inr [OF ins])
  show ?thesis
    by (rule that [OF c(1) db2(1,3) p]) (use c db2(2,4) in simp_all)
qed

lemma store_admission_eq:
  assumes "insert_command c db = Inr db1" and "insert_managed_work w db1 = Inr db2"
    and "insert_managed_payload p db2 = Inr db'"
  shows "db' = db\<lparr>commands := commands db @ [c], managed_works := managed_works db @ [w],
    managed_payloads := managed_payloads db @ [p]\<rparr>"
    and "mw_managed_work_id w \<notin> mw_managed_work_id ` set (managed_works db)"
  using assms work_store.insert_fresh [OF assms(2)]
  by (auto simp: insert_command_def insert_managed_work_def insert_managed_payload_def)

text \<open>An admission with its writes makes progress and keeps payloads and evidence in step.\<close>

lemma store_admission_progress:
  assumes "insert_command c db = Inr db1" and "insert_managed_work w db1 = Inr db2"
    and "insert_managed_payload p db2 = Inr db'"
    and "mp_managed_work_id p = mw_managed_work_id w" and "mw_state w = DispatchingValue"
    and "mw_payload_deleted_at w = None" and "mw_print_job_observation w = None"
  shows "work_progress db db'"
proof -
  note db' = store_admission_eq(1) [OF assms(1-3)]
  note fresh = store_admission_eq(2) [OF assms(1-3)]
  have "db_progress db db'"
    using insert_command_progress [OF assms(1)] insert_managed_work_progress [OF assms(2)]
      insert_managed_payload_progress [OF assms(3)] progress.trans by blast
  moreover have "evidence_ok db'" if "evidence_ok db"
  proof -
    have "work_observed_ok db' u \<and> payload_ok db' u" if u: "u \<in> set (managed_works db)" for u
    proof -
      have "mw_managed_work_id u \<noteq> mw_managed_work_id w" using fresh u by (metis image_eqI)
      moreover have "work_observed_ok db u" and "payload_ok db u"
        using \<open>evidence_ok db\<close> u by (simp_all add: evidence_ok_def)
      ultimately show ?thesis
        using work_observed_ok_mono [of db db' u] assms(4) by (simp add: payload_ok_def db')
    qed
    moreover have "work_observed_ok db' w \<and> payload_ok db' w"
      using assms(4-7) by (simp add: work_observed_ok_def payload_ok_def db')
    ultimately show ?thesis by (simp add: evidence_ok_def db')
  qed
  moreover have "works_evolve db db'" by (rule works_evolve_append) (simp add: db')
  ultimately show ?thesis by (simp add: work_progress_def)
qed

abbreviation admission_agent :: "managed_work_admission \<Rightarrow> string" where
  "admission_agent adm \<equiv> agent_str (sc_agent_id (dw_scope (sub_work (wa_submission adm))))"

definition existing_for :: "managed_work_admission \<Rightarrow> gateway_db \<Rightarrow> managed_work_row option gateway_result" where
  "existing_for adm db = find_existing_managed_work (wa_managed_work_id adm)
     (organization_str (sc_organization_id (dw_scope (sub_work (wa_submission adm))))) (wa_idempotency_key adm)
     (intent_str (dw_print_intent_id (sub_work (wa_submission adm)))) (wa_request_fingerprint adm) db"

lemma admit_new_work_Inr:
  assumes "admit_new_work digests build adm db = Inr (db', r)"
  shows "\<exists>pf target.
    find_by pf_preflight_id (preflight_str (sub_preflight_id (wa_submission adm))) (preflights db) = Some pf \<and>
    pf_request pf = expected_request (wa_submission adm) \<and> wa_admitted_at adm < pf_submit_before pf \<and>
    dk_key_id target = pf_dispatch_key_id pf \<and>
    enforce_quotas (dw_scope (sub_work (wa_submission adm))) (wa_payload_bytes adm) db = Inr () \<and>
    store_admission digests build adm pf target db = Inr (db', r)"
proof -
  note unfolded = assms [unfolded admit_new_work_def Let_def, unfolded and_then_eq_Inr ok_or_eq_Inr]
  then obtain pf where pf: "find_by pf_preflight_id (preflight_str (sub_preflight_id (wa_submission adm))) (preflights db) = Some pf"
      and step: "(if pf_request pf \<noteq> expected_request (wa_submission adm) then
         Inl (Conflict ''Managed Work submission does not match its preflight'')
       else if pf_submit_before pf \<le> wa_admitted_at adm then
         Inl (Conflict ''Managed Work preflight has expired'')
       else and_then (managed_work_target_in (organization_str (sc_organization_id (dw_scope (sub_work (wa_submission adm)))))
         (site_str (sc_site_id (dw_scope (sub_work (wa_submission adm))))) (admission_agent adm)
         (device_str (dw_device_id (sub_work (wa_submission adm)))) db) (\<lambda>target.
         if dk_key_id target \<noteq> pf_dispatch_key_id pf then
           Inl (Conflict ''the Managed Work preflight does not use the current Agent dispatch key'')
         else and_then (enforce_quotas (dw_scope (sub_work (wa_submission adm))) (wa_payload_bytes adm) db) (\<lambda>_.
           store_admission digests build adm pf target db))) = Inr (db', r)"
    by blast
  from step have request: "pf_request pf = expected_request (wa_submission adm)"
      and open_pf: "wa_admitted_at adm < pf_submit_before pf"
    by (auto split: if_splits)
  with step obtain target where "(if dk_key_id target \<noteq> pf_dispatch_key_id pf then
           Inl (Conflict ''the Managed Work preflight does not use the current Agent dispatch key'')
         else and_then (enforce_quotas (dw_scope (sub_work (wa_submission adm))) (wa_payload_bytes adm) db) (\<lambda>_.
           store_admission digests build adm pf target db)) = Inr (db', r)"
    by (simp add: and_then_eq_Inr [of "managed_work_target_in _ _ _ _ _"]) blast
  then have "dk_key_id target = pf_dispatch_key_id pf"
      "enforce_quotas (dw_scope (sub_work (wa_submission adm))) (wa_payload_bytes adm) db = Inr ()"
      "store_admission digests build adm pf target db = Inr (db', r)"
    by (auto simp: and_then_eq_Inr split: if_splits)
  then show ?thesis using pf request open_pf by blast
qed

lemma admit_body_Inr:
  assumes "admit_body digests t1 build adm db = Inr (db', r)"
  shows "require_admission_in t1 (wa_router_admission adm) (admission_agent adm) db = Inr () \<and>
    ((\<exists>model. existing_for adm db = Inr (Some model) \<and> db' = db \<and> r = existing_dispatch digests model db) \<or>
     (existing_for adm db = Inr None \<and> admit_new_work digests build adm db = Inr (db', r)))"
proof -
  obtain u existing where "require_admission_in t1 (wa_router_admission adm) (admission_agent adm) db = Inr u"
      and found: "existing_for adm db = Inr existing"
      and rest: "(case existing of Some model \<Rightarrow> Inr (db, existing_dispatch digests model db)
        | None \<Rightarrow> admit_new_work digests build adm db) = Inr (db', r)"
    using assms unfolding admit_body_def Let_def and_then_eq_Inr existing_for_def by blast
  moreover have "(\<exists>model. existing = Some model \<and> db' = db \<and> r = existing_dispatch digests model db) \<or>
      (existing = None \<and> admit_new_work digests build adm db = Inr (db', r))"
    using rest by (cases existing) auto
  ultimately show ?thesis by auto
qed

lemma admit_managed_work_cases:
  assumes "admit_managed_work digests t1 build adm db = (db', r)"
  obtains (refused) e where "r = Inl e" "db' = db"
  | (known) model where "existing_for adm db = Inr (Some model)" "db' = db" "r = existing_dispatch digests model db"
  | (new) pf target where "existing_for adm db = Inr None"
      "find_by pf_preflight_id (preflight_str (sub_preflight_id (wa_submission adm))) (preflights db) = Some pf"
      "wa_admitted_at adm < pf_submit_before pf"
      "require_admission_in t1 (wa_router_admission adm) (admission_agent adm) db = Inr ()"
      "enforce_quotas (dw_scope (sub_work (wa_submission adm))) (wa_payload_bytes adm) db = Inr ()"
      "store_admission digests build adm pf target db = Inr (db', r)"
proof -
  consider (no) e where "r = Inl e" "db' = db" | (body) "admit_body digests t1 build adm db = Inr (db', r)"
    using assms by (auto simp: admit_managed_work_def transaction_eq split: if_splits)
  then show ?thesis
  proof cases
    case no
    then show ?thesis by (rule refused)
  next
    case body
    then show ?thesis
      using admit_body_Inr [OF body] admit_new_work_Inr [of digests build adm db db' r] known new by blast
  qed
qed

lemma admit_managed_work_progress:
  assumes "admit_managed_work digests t1 build adm db = (db', r)"
  shows "work_progress db db'"
  using assms
proof (cases rule: admit_managed_work_cases)
  case (new pf target)
  obtain c p db1 db2 where s: "insert_command c db = Inr db1"
      "insert_managed_work (admitted_work adm pf) db1 = Inr db2" "insert_managed_payload p db2 = Inr db'"
      "mp_managed_work_id p = work_str (wa_managed_work_id adm)"
    by (rule store_admission_Inr [OF new(6)])
  show ?thesis by (rule store_admission_progress [OF s(1-3)]) (simp_all add: s(4))
qed (simp_all add: works.refl)

lemma admit_managed_work_sequences:
  assumes "admit_managed_work digests t1 build adm db = (db', r)" and "sequences_ok db"
  shows "sequences_ok db'"
  using assms(1)
proof (cases rule: admit_managed_work_cases)
  case (new pf target)
  obtain c p db1 db2 where s: "insert_command c db = Inr db1"
      "insert_managed_work (admitted_work adm pf) db1 = Inr db2" "insert_managed_payload p db2 = Inr db'"
      "next_command_sequence db (cm_agent_id c) = Inr (cm_sequence c)"
    by (rule store_admission_Inr [OF new(6)])
  show ?thesis
    using next_command_sequence_Inr(1) [OF assms(2) s(4)] store_admission_eq(1) [OF s(1-3)]
    by (intro sequences_ok_append [OF assms(2), of c]) simp_all
qed (simp_all add: assms(2))

lemma admit_managed_work_quotas:
  assumes "admit_managed_work digests t1 build adm db = (db', r)" and "quotas_ok db"
  shows "quotas_ok db'"
  using assms(1)
proof (cases rule: admit_managed_work_cases)
  case (new pf target)
  obtain c p db1 db2 where s: "insert_command c db = Inr db1"
      "insert_managed_work (admitted_work adm pf) db1 = Inr db2" "insert_managed_payload p db2 = Inr db'"
    by (rule store_admission_Inr [OF new(6)])
  show ?thesis
    by (rule quotas_ok_admitted [OF assms(2) new(5), where w = "admitted_work adm pf"])
      (use store_admission_eq(1) [OF s] in simp_all)
qed (simp_all add: assms(2))

section \<open>Retention\<close>

lemma expired_work_simps [simp]:
  "work_identity (expired_work now w) = work_identity w"
  "mw_managed_work_id (expired_work now w) = mw_managed_work_id w"
  "mw_print_job_id (expired_work now w) = mw_print_job_id w"
  "mw_print_job_observation (expired_work now w) = mw_print_job_observation w"
  "mw_payload_deleted_at (expired_work now w) = Some now"
  by (cases "mw_state w"; simp add: expired_work_def work_identity_def)+

lemma expired_work_state:
  "mw_state (expired_work now w) = (case mw_state w of PendingAgentValue \<Rightarrow> ExpiredValue
    | DispatchingValue \<Rightarrow> RecoveryUncertainValue | s \<Rightarrow> s)"
  by (cases "mw_state w") (simp_all add: expired_work_def)

lemma expired_work_evolves:
  assumes "mw_payload_deleted_at w = None"
  shows "work_evolves w (expired_work now w)"
proof -
  have "work_path (mw_state w) (mw_state (expired_work now w))"
    by (cases "mw_state w") (auto simp: expired_work_state intro: lapsed uncertain)
  then show ?thesis using assms by (simp add: work_evolves_def split: option.splits)
qed

lemma expired_work_settles:
  assumes "0 \<le> mw_payload_bytes w"
  shows "settles w (expired_work now w)"
  using assms work_identity_fields [of "expired_work now w" w]
  by (auto simp: settles_def pending_work_def expired_work_state split: managed_work_state_value.splits)

text \<open>The state after one batch.\<close>

definition expire_row :: "instant \<Rightarrow> managed_work_row list \<Rightarrow> managed_work_row \<Rightarrow> managed_work_row" where
  "expire_row now batch w =
    (if mw_managed_work_id w \<in> mw_managed_work_id ` set batch then expired_work now w else w)"

definition expired_db :: "instant \<Rightarrow> managed_work_row list \<Rightarrow> gateway_db \<Rightarrow> gateway_db" where
  "expired_db now batch db =
    db\<lparr>managed_works := map (expire_row now batch) (managed_works db),
       managed_payloads := delete_where (\<lambda>p. mp_managed_work_id p \<in> mw_managed_work_id ` set batch)
         (managed_payloads db)\<rparr>"

lemma update_where_row:
  assumes "distinct (map key t)" and "r \<in> set t"
  shows "update_where (\<lambda>u. key u = key r) (\<lambda>_. f r) t = update_where (\<lambda>u. key u = key r) f t"
  using distinct_key_eq [OF assms(1)] assms(2) unfolding update_where_def by (intro map_cong) auto

lemma expire_one_Inr:
  assumes "managed_works_ok db" and "w \<in> set (managed_works db)"
  shows "expire_one now w db = Inr (expired_db now [w] db)"
proof -
  let ?db = "delete_payload (mw_managed_work_id w) db"
  have ok: "managed_works_ok ?db" and w: "w \<in> set (managed_works ?db)"
    using assms by (simp_all add: managed_works_ok_def delete_payload_def)
  have dist: "distinct (map mw_managed_work_id (managed_works db))"
    using assms(1) by (simp add: managed_works_ok_def)
  have pairs: "distinct (map (\<lambda>w. (mw_agent_id w, mw_print_job_id w))
      (filter (\<lambda>w. mw_print_job_id w \<noteq> None) (managed_works db)))"
    using assms(1) by (simp add: managed_works_ok_def)
  have "mw_print_job_id u \<noteq> mw_print_job_id w" if "mw_print_job_id w \<noteq> None" "u \<in> set (managed_works db)"
      "mw_managed_work_id u \<noteq> mw_managed_work_id w" "mw_agent_id u = mw_agent_id w" for u
  proof
    assume "mw_print_job_id u = mw_print_job_id w"
    then have "u = w"
      by (intro distinct_key_eq [OF pairs]) (use that assms(2) in auto)
    then show False using that(3) by simp
  qed
  then have "update_managed_work (expired_work now w) ?db = Inr (?db\<lparr>managed_works :=
      update_where (\<lambda>u. mw_managed_work_id u = mw_managed_work_id w) (\<lambda>_. expired_work now w) (managed_works ?db)\<rparr>)"
    by (intro update_managed_work_total [OF ok w]) (auto simp: delete_payload_def)
  then show ?thesis
    using update_where_row [OF dist assms(2), of "expired_work now"]
    by (simp add: expire_one_def delete_payload_def expired_db_def expire_row_def [abs_def] update_where_def)
qed

lemma expired_db_work_progress:
  assumes "expire_one now w db = Inr (expired_db now [w] db)" and "w \<in> set (managed_works db)" and "overdue now w"
  shows "work_progress db (expired_db now [w] db)"
proof -
  let ?db' = "expired_db now [w] db"
  have "update_managed_work (expired_work now w) (delete_payload (mw_managed_work_id w) db) = Inr ?db'"
    using assms(1) by (simp add: expire_one_def)
  then have "db_progress db ?db'"
    using update_managed_work_progress delete_payloads_progress progress.trans unfolding delete_payload_def by blast
  moreover have "evidence_ok ?db' \<and> works_evolve db ?db'" if ok: "state_ok db" "evidence_ok db"
  proof
    have dist: "distinct (map mw_managed_work_id (managed_works db))"
      using ok(1) by (simp add: state_ok_def db_ok_def managed_works_ok_def)
    have same: "u = w" if "u \<in> set (managed_works db)" "mw_managed_work_id u = mw_managed_work_id w" for u
      by (rule distinct_key_eq [OF dist that(1) assms(2) that(2)])
    have ws: "managed_works ?db' = update_where (\<lambda>u. mw_managed_work_id u = mw_managed_work_id w)
        (\<lambda>_. expired_work now w) (managed_works db)"
      using update_where_row [OF dist assms(2), of "expired_work now"]
      by (simp add: expired_db_def expire_row_def [abs_def] update_where_def)
    show "works_evolve db ?db'"
      by (rule works_evolve_update [OF find_by_unique [OF dist assms(2)] ws expired_work_evolves])
        (use assms(3) in \<open>simp add: overdue_def\<close>)
    have old: "work_observed_ok db u \<and> payload_ok db u" if "u \<in> set (managed_works db)" for u
      using ok(2) that by (simp add: evidence_ok_def)
    have "work_observed_ok ?db' u \<and> payload_ok ?db' u" if "u \<in> set (managed_works ?db')" for u
      using that unfolding ws
    proof (cases rule: update_where_member)
      case (changed v)
      then show ?thesis
        using old [OF assms(2)] expired_work_state [of now w]
        by (auto simp: work_observed_ok_def payload_ok_def expired_db_def set_delete_where
            split: option.splits managed_work_state_value.splits)
    next
      case kept
      then show ?thesis
        using old [of u] by (auto simp: work_observed_ok_def payload_ok_def expired_db_def set_delete_where
            split: option.splits)
    qed
    then show "evidence_ok ?db'" by (simp add: evidence_ok_def)
  qed
  ultimately show ?thesis by (simp add: work_progress_def)
qed

lemma expired_db_Cons:
  assumes "mw_managed_work_id w \<notin> mw_managed_work_id ` set batch"
  shows "expired_db now batch (expired_db now [w] db) = expired_db now (w # batch) db"
proof -
  have "expire_row now batch \<circ> expire_row now [w] = expire_row now (w # batch)"
    using assms by (auto simp: expire_row_def fun_eq_iff)
  moreover have "delete_where (\<lambda>p. mp_managed_work_id p \<in> mw_managed_work_id ` set batch)
      (delete_where (\<lambda>p. mp_managed_work_id p \<in> mw_managed_work_id ` set [w]) (managed_payloads db)) =
      delete_where (\<lambda>p. mp_managed_work_id p \<in> mw_managed_work_id ` set (w # batch)) (managed_payloads db)"
    by (auto simp: delete_where_def intro: filter_cong)
  ultimately show ?thesis by (simp add: expired_db_def)
qed

lemma expire_batch:
  assumes "managed_works_ok db" and "set batch \<subseteq> set (managed_works db)"
    and "distinct (map mw_managed_work_id batch)" and "\<forall>w \<in> set batch. overdue now w"
  shows "try_fold (expire_one now) batch db = Inr (expired_db now batch db) \<and>
    work_progress db (expired_db now batch db)"
  using assms
proof (induction batch arbitrary: db)
  case Nil
  have "expire_row now [] = id" by (auto simp: expire_row_def)
  then have "expired_db now [] db = db" by (simp add: expired_db_def delete_where_def)
  then show ?case using works.refl by simp
next
  case (Cons w batch)
  let ?db1 = "expired_db now [w] db"
  have w: "w \<in> set (managed_works db)" "overdue now w" using Cons.prems by simp_all
  have fresh: "mw_managed_work_id w \<notin> mw_managed_work_id ` set batch" using Cons.prems(3) by simp
  have step: "expire_one now w db = Inr ?db1" by (rule expire_one_Inr [OF Cons.prems(1) w(1)])
  then have ok: "managed_works_ok ?db1" by (auto simp: expire_one_def update_managed_work_def)
  have "expire_row now [w] u = u" if "u \<in> set batch" for u
    using that fresh by (auto simp: expire_row_def image_iff)
  then have sub: "set batch \<subseteq> set (managed_works ?db1)"
    using Cons.prems(2) by (force simp: expired_db_def)
  have IH: "try_fold (expire_one now) batch ?db1 = Inr (expired_db now batch ?db1) \<and>
      work_progress ?db1 (expired_db now batch ?db1)"
    using Cons.prems(3,4) by (intro Cons.IH [OF ok sub]) simp_all
  have p: "work_progress db ?db1" by (rule expired_db_work_progress [OF step w])
  show ?case
    using IH step works.trans [OF p] unfolding expired_db_Cons [OF fresh] by (simp add: and_then_def)
qed

lemma expire_managed_payloads_eq:
  assumes "managed_works_ok db" and batch_def: "batch = take 256 (filter (overdue now) (managed_works db))"
  shows "expire_managed_payloads now db = (expired_db now batch db, Inr (length batch))"
    and "work_progress db (expired_db now batch db)"
proof -
  have "distinct (map mw_managed_work_id (filter (overdue now) (managed_works db)))"
    using assms(1) by (simp add: managed_works_ok_def distinct_map_filter)
  then have "distinct (map mw_managed_work_id batch)"
    unfolding batch_def take_map [symmetric] by (rule distinct_take)
  moreover have "set batch \<subseteq> set (filter (overdue now) (managed_works db))"
    unfolding batch_def by (rule set_take_subset)
  ultimately have run: "try_fold (expire_one now) batch db = Inr (expired_db now batch db) \<and>
      work_progress db (expired_db now batch db)"
    by (intro expire_batch [OF assms(1)]) auto
  then show "work_progress db (expired_db now batch db)" by simp
  show "expire_managed_payloads now db = (expired_db now batch db, Inr (length batch))"
    using run by (simp add: expire_managed_payloads_def transaction_def Let_def and_then_def batch_def)
qed

lemma expired_not_overdue: "\<not> overdue now (expired_work now w)"
  by (simp add: overdue_def)

lemma filter_not_taken:
  assumes "distinct xs"
  shows "filter (\<lambda>x. x \<notin> set (take n xs)) xs = drop n xs"
proof -
  have "filter (\<lambda>x. x \<notin> set (take n xs)) (take n xs @ drop n xs) =
      filter (\<lambda>x. x \<notin> set (take n xs)) (drop n xs)"
    unfolding filter_append by (simp add: filter_empty_conv)
  also have "\<dots> = drop n xs"
    using set_take_disj_set_drop_if_distinct [OF assms, of n n] by (intro filter_True) auto
  finally show ?thesis by simp
qed

lemma overdue_after_batch:
  assumes "distinct (map mw_managed_work_id ws)"
  shows "length (filter (overdue now) (map (expire_row now (take n (filter (overdue now) ws))) ws)) =
    length (filter (overdue now) ws) - n"
proof -
  let ?batch = "take n (filter (overdue now) ws)"
  have dist: "distinct (filter (overdue now) ws)"
    using assms by (simp add: distinct_map)
  have row: "overdue now (expire_row now ?batch w) \<longleftrightarrow> overdue now w \<and> w \<notin> set ?batch" if "w \<in> set ws" for w
  proof -
    have "mw_managed_work_id w \<in> mw_managed_work_id ` set ?batch \<longleftrightarrow> w \<in> set ?batch"
      using distinct_key_eq [OF assms that] set_take_subset [of n "filter (overdue now) ws"] by auto
    moreover have "w \<in> set ?batch \<Longrightarrow> overdue now w" using set_take_subset by fastforce
    ultimately show ?thesis by (auto simp: expire_row_def expired_not_overdue)
  qed
  have "length (filter (overdue now) (map (expire_row now ?batch) ws)) =
      length (filter (\<lambda>w. overdue now w \<and> w \<notin> set ?batch) ws)"
    using row by (simp add: filter_map o_def cong: filter_cong)
  also have "filter (\<lambda>w. overdue now w \<and> w \<notin> set ?batch) ws = filter (\<lambda>w. w \<notin> set ?batch) (filter (overdue now) ws)"
    by (simp add: conj_commute)
  also have "\<dots> = drop n (filter (overdue now) ws)"
    by (rule filter_not_taken [OF dist])
  finally show ?thesis by simp
qed

section \<open>Replay\<close>

lemma merge_candidates_None:
  "merge_candidates org idem intent fp (Some e) cs \<noteq> Inr None"
  "merge_candidates org idem intent fp None cs = Inr None \<longleftrightarrow> (\<forall>c \<in> set cs. c = None)"
proof -
  have some: "merge_candidates org idem intent fp (Some e) cs \<noteq> Inr None" for e cs
  proof (induction cs arbitrary: e)
    case (Cons c cs)
    then show ?case by (cases c) simp_all
  qed simp
  then show "merge_candidates org idem intent fp (Some e) cs \<noteq> Inr None" .
  show "merge_candidates org idem intent fp None cs = Inr None \<longleftrightarrow> (\<forall>c \<in> set cs. c = None)"
  proof (induction cs)
    case (Cons c cs)
    then show ?case using some by (cases c) simp_all
  qed simp
qed

lemma existing_for_None:
  assumes "existing_for adm db = Inr None"
  shows "find_by mw_managed_work_id (work_str (wa_managed_work_id adm)) (managed_works db) = None"
    and "find (\<lambda>w. mw_organization_id w = organization_str (sc_organization_id (dw_scope (sub_work (wa_submission adm)))) \<and>
      mw_idempotency_key w = wa_idempotency_key adm) (managed_works db) = None"
    and "find_by mw_print_intent_id (intent_str (dw_print_intent_id (sub_work (wa_submission adm)))) (managed_works db) = None"
  using assms by (simp_all add: existing_for_def find_existing_managed_work_def merge_candidates_None
      existing_candidates_def)

lemma find_append_None: "find P xs = None \<Longrightarrow> P y \<Longrightarrow> find P (xs @ [y]) = Some y"
  by (induction xs) (auto split: if_splits)

lemma existing_for_admitted:
  assumes "existing_for adm db = Inr None" and "managed_works db' = managed_works db @ [admitted_work adm pf]"
    and "wa_managed_work_id adm' = wa_managed_work_id adm" and "wa_submission adm' = wa_submission adm"
    and "wa_idempotency_key adm' = wa_idempotency_key adm"
  shows "existing_for adm' db' = (if wa_request_fingerprint adm' = wa_request_fingerprint adm
    then Inr (Some (admitted_work adm pf))
    else Inl (Conflict ''a Managed Work identity was already used for different Device Work''))"
proof -
  let ?w = "admitted_work adm pf"
  note none = existing_for_None [OF assms(1)]
  have "existing_candidates (wa_managed_work_id adm)
      (organization_str (sc_organization_id (dw_scope (sub_work (wa_submission adm))))) (wa_idempotency_key adm)
      (intent_str (dw_print_intent_id (sub_work (wa_submission adm)))) db' = [Some ?w, Some ?w, Some ?w]"
    using none assms(2) by (simp add: existing_candidates_def find_by_append find_append_None)
  then show ?thesis
    by (simp add: existing_for_def find_existing_managed_work_def assms(3-5) other_device_work_def)
qed

lemma admit_known:
  assumes "existing_for adm db = Inr (Some model)"
    and "require_admission_in t1 (wa_router_admission adm) (admission_agent adm) db = Inr ()"
    and "adm_organization_id (wa_router_admission adm) =
      organization_str (sc_organization_id (dw_scope (sub_work (wa_submission adm))))"
  shows "admit_managed_work digests t1 build adm db = (db, existing_dispatch digests model db)"
  using assms by (simp add: admit_managed_work_def admit_body_def existing_for_def transaction_def and_then_def Let_def)

lemma admit_conflict:
  assumes "existing_for adm db = Inl e"
    and "require_admission_in t1 (wa_router_admission adm) (admission_agent adm) db = Inr ()"
    and "adm_organization_id (wa_router_admission adm) =
      organization_str (sc_organization_id (dw_scope (sub_work (wa_submission adm))))"
  shows "admit_managed_work digests t1 build adm db = (db, Inl e)"
  using assms by (simp add: admit_managed_work_def admit_body_def existing_for_def transaction_def and_then_def Let_def)

lemma existing_dispatch_admitted:
  assumes "store_admission digests build adm pf target db = Inr (db', r)"
  shows "existing_dispatch digests (admitted_work adm pf) db' = r"
proof -
  obtain c p agent command db1 db2 where s: "insert_command c db = Inr db1"
      "insert_managed_work (admitted_work adm pf) db1 = Inr db2" "insert_managed_payload p db2 = Inr db'"
    and c: "cm_agent_id c = mw_agent_id (admitted_work adm pf)"
      "cm_command_id c = dispatch_command_id digests (work_str (wa_managed_work_id adm))"
      "find_by ag_agent_id (cm_agent_id c) (agents db) = Some agent"
      "persisted_command c (ag_namespace agent) = Inr command"
      "r = and_then (persisted_managed_work (admitted_work adm pf)) (\<lambda>work.
         Inr \<lparr>pd_managed_work = work, pd_command = Some command\<rparr>)"
    by (rule store_admission_Inr [OF assms])
  have db': "commands db' = commands db1" "agents db' = agents db"
    using store_admission_eq(1) [OF s] s(1) by (simp_all add: insert_command_def)
  have "find_by cm_command_id (dispatch_command_id digests (work_str (wa_managed_work_id adm))) (commands db') = Some c"
    using command_store.find_inserted [OF s(1)] c(2) db'(1) by simp
  then show ?thesis
    using c db'(2) by (simp add: existing_dispatch_def ok_or_def and_then_def)
qed

lemma stored_payload_protected:
  assumes "stored_payload adm pf payload = Inr p"
    and "length (mp_nonce p) = 12 \<and> length (mp_authenticated_data_digest p) = 32"
  shows "protection_of p = Inr payload"
  using assms by (auto simp: stored_payload_def protection_of_def split: if_splits)

section \<open>Repeated retention runs\<close>

text \<open>The retention task of \<^verbatim>\<open>runtime.rs\<close> calls the operation again and again; \<open>n\<close> calls at one time.\<close>

definition retention_runs :: "instant \<Rightarrow> nat \<Rightarrow> gateway_db \<Rightarrow> gateway_db" where
  "retention_runs now n db = ((\<lambda>db. fst (expire_managed_payloads now db)) ^^ n) db"

lemma retention_runs_simps [simp]:
  "retention_runs now 0 db = db"
  "retention_runs now (Suc n) db = fst (expire_managed_payloads now (retention_runs now n db))"
  by (simp_all add: retention_runs_def)

lemma state_ok_works: "state_ok db \<Longrightarrow> managed_works_ok db"
  by (simp add: state_ok_def db_ok_def)

lemma expire_managed_payloads_works:
  assumes "managed_works_ok db"
  shows "work_progress db (fst (expire_managed_payloads now db))"
    and "length (filter (overdue now) (managed_works (fst (expire_managed_payloads now db)))) =
      length (filter (overdue now) (managed_works db)) - 256"
proof -
  have dist: "distinct (map mw_managed_work_id (managed_works db))"
    using assms by (simp add: managed_works_ok_def)
  show "work_progress db (fst (expire_managed_payloads now db))"
    using expire_managed_payloads_eq [OF assms refl, of now] by simp
  show "length (filter (overdue now) (managed_works (fst (expire_managed_payloads now db)))) =
      length (filter (overdue now) (managed_works db)) - 256"
    using expire_managed_payloads_eq(1) [OF assms refl, of now] overdue_after_batch [OF dist, of now 256]
    by (simp add: expired_db_def)
qed

lemma retention_runs_progress:
  assumes "state_ok db"
  shows "work_progress db (retention_runs now n db)"
proof (induction n)
  case (Suc n)
  then have "state_ok (retention_runs now n db)"
    using assms by (auto simp: work_progress_def db_progress_def)
  then show ?case
    using Suc expire_managed_payloads_works(1) [OF state_ok_works] works.trans by simp
qed (simp add: works.refl)

lemma retention_runs_state: "state_ok db \<Longrightarrow> state_ok (retention_runs now n db)"
  using retention_runs_progress [of db now n] by (auto simp: work_progress_def db_progress_def)

lemma retention_runs_overdue:
  assumes "state_ok db"
  shows "length (filter (overdue now) (managed_works (retention_runs now n db))) =
    length (filter (overdue now) (managed_works db)) - 256 * n"
  using expire_managed_payloads_works(2) [OF state_ok_works [OF retention_runs_state [OF assms]]]
  by (induction n) simp_all

section \<open>A concrete admission\<close>

definition sample_device :: device_row where
  "sample_device = \<lparr>dv_agent_id = ''agt_a'', dv_device_id = ''dev_a'', dv_site_id = ''site_a'',
     dv_kind = Printer, dv_device_class = Physical, dv_display_name = ''P'', dv_state = DeviceOnline,
     dv_transport = Usb, dv_identity_digest = replicate 64 CHR ''a'', dv_capabilities = [Print], dv_first_seen_at = 20,
     dv_last_seen_at = 20\<rparr>"

definition sample_submission :: managed_work_submission where
  "sample_submission = \<lparr>sub_contract_major = 1, sub_preflight_id = ManagedPreflightId ''mpf_a'',
     sub_payload_fingerprint = ''p'', sub_work = \<lparr>dw_contract_major = 1, dw_scope = pr_scope (pf_request sample_preflight),
       dw_print_intent_id = PrintIntentId ''pi_v1_b'', dw_device_id = DeviceId ''dev_a'',
       dw_origin = \<lparr>or_binding = sample_binding, or_route = Manual, or_source = Wizard ''m'' ''d'',
         or_rendered_document_index = 0, or_copy_ordinal = 0\<rparr>,
       dw_document = ReportPdfDocument ''x'', dw_normalized_device_options = []\<rparr>\<rparr>"

definition sample_admit :: managed_work_admission where
  "sample_admit = \<lparr>wa_router_admission = sample_admission, wa_managed_work_id = ManagedWorkId ''mw_b'',
     wa_idempotency_key = ''idem_b'', wa_submission = sample_submission,
     wa_request_fingerprint = sample_digest, wa_payload_fingerprint = sample_digest, wa_payload_bytes = 100,
     wa_admitted_at = 700\<rparr>"

definition sample_protected :: new_managed_payload where
  "sample_protected = \<lparr>nm_ciphertext = ''x'', nm_nonce = replicate 12 CHR ''n'', nm_wrapped_data_key = ''k'',
     nm_wrapping_key_version = 1, nm_authenticated_data_digest = sample_digest, nm_plaintext_bytes = 100\<rparr>"

definition sample_digests :: digest_library where
  "sample_digests = \<lparr>dg_sha256 = \<lambda>b. b @ replicate 32 CHR ''a'', dg_hex = \<lambda>b. b\<rparr>"

definition admitting_db :: gateway_db where
  "admitting_db = dispatched_db\<lparr>devices := [sample_device]\<rparr>"

definition sample_admitted :: "gateway_db \<times> persisted_managed_work_dispatch gateway_result" where
  "sample_admitted = admit_managed_work sample_digests 2000000 (\<lambda>_. Inr sample_protected) sample_admit admitting_db"

lemma admitting_db_ok: "state_ok admitting_db" "evidence_ok admitting_db"
  by code_simp+

lemma sample_admitted_ok: "is_ok (snd sample_admitted)" "length (managed_works (fst sample_admitted)) = 2"
  by code_simp+

lemma sample_admit_scope:
  "adm_organization_id (wa_router_admission sample_admit) =
    organization_str (sc_organization_id (dw_scope (sub_work (wa_submission sample_admit))))"
  by code_simp

lemma sample_readmission:
  "require_admission_in 3000000 (wa_router_admission sample_admit) (admission_agent sample_admit)
    (fst sample_admitted) = Inr ()"
  by code_simp

lemma sample_admitted_run:
  "admit_managed_work sample_digests 2000000 (\<lambda>_. Inr sample_protected) sample_admit admitting_db =
    (fst sample_admitted, snd sample_admitted)"
  by (simp add: sample_admitted_def)

lemma sample_admitted_new: "fst sample_admitted \<noteq> admitting_db"
proof -
  have "length (managed_works admitting_db) = 1" by (simp add: admitting_db_def dispatched_db_def)
  then show ?thesis using sample_admitted_ok(2) by auto
qed

section \<open>Properties\<close>



text \<open>
  C19. A protected payload is stored and read back unchanged: after a new admission, and until
  the work expires, the payload endpoint returns exactly what the builder produced, bound to
  the submission's organization, idempotency key and fingerprints.
\<close>

theorem admitted_payload_readable:
  assumes "admit_managed_work digests t1 build adm db = (db', r)" and "db' \<noteq> db"
    and "now < mw_expires_at (last (managed_works db'))"
  shows "\<exists>payload. built build (wa_managed_work_id adm) payload \<and>
    managed_payload digests now (wa_managed_work_id adm) db' = Inr \<lparr>py_protection = payload,
      py_context = \<lparr>px_organization_id =
          organization_str (sc_organization_id (dw_scope (sub_work (wa_submission adm)))),
        px_managed_work_id = wa_managed_work_id adm, px_idempotency_key = wa_idempotency_key adm,
        px_payload_fingerprint = dg_hex digests (wa_payload_fingerprint adm),
        px_request_fingerprint = dg_hex digests (wa_request_fingerprint adm)\<rparr>\<rparr>"
  using assms(1)
proof (cases rule: admit_managed_work_cases)
  case (new pf target)
  obtain c p payload db1 db2 where s: "insert_command c db = Inr db1"
      "insert_managed_work (admitted_work adm pf) db1 = Inr db2" "insert_managed_payload p db2 = Inr db'"
    and p: "mp_managed_work_id p = work_str (wa_managed_work_id adm)" "stored_payload adm pf payload = Inr p"
    and built: "built build (wa_managed_work_id adm) payload"
    by (rule store_admission_Inr [OF new(6)])
  have works: "managed_works db' = managed_works db @ [admitted_work adm pf]"
    using store_admission_eq(1) [OF s] by simp
  then have work: "find_by mw_managed_work_id (work_str (wa_managed_work_id adm)) (managed_works db') =
      Some (admitted_work adm pf)"
    using existing_for_None(1) [OF new(1)] by (simp add: find_by_append)
  have ok: "managed_payloads_ok db'" and mem: "p \<in> set (managed_payloads db')"
    using s(3) by (auto simp: insert_managed_payload_def)
  have stored: "find_by mp_managed_work_id (work_str (wa_managed_work_id adm)) (managed_payloads db') = Some p"
    using find_by_unique [of mp_managed_work_id, OF _ mem] ok p(1) by (simp add: managed_payloads_ok_def)
  have "protection_of p = Inr payload"
    using stored_payload_protected [OF p(2)] ok mem by (auto simp: managed_payloads_ok_def list_all_iff)
  then show ?thesis
    using built work stored assms(3) works by (auto simp: managed_payload_def admitted_work_def Let_def)
qed (use assms(2) in simp_all)

theorem admitted_payload_readable_witness:
  "\<exists>context. managed_payload sample_digests 800 (ManagedWorkId ''mw_b'') (fst sample_admitted) =
     Inr \<lparr>py_protection = sample_protected, py_context = context\<rparr>"
proof -
  have "800 < mw_expires_at (last (managed_works (fst sample_admitted)))" by code_simp
  then show ?thesis
    using admitted_payload_readable [OF sample_admitted_run sample_admitted_new, of 800]
    by (auto simp: sample_admit_def built_def)
qed

text \<open>
  C14. Retention always finishes: every run succeeds and clears up to 256 payloads, so
  \<open>n\<close> runs clear \<open>256 n\<close> of them.  Once the overdue works are covered no work is overdue, and
  no work past its expiry still has a stored payload.
\<close>

theorem retention_drains:
  assumes "state_ok db" and "evidence_ok db"
    and "length (filter (overdue now) (managed_works db)) \<le> 256 * n"
  shows "\<forall>w \<in> set (managed_works (retention_runs now n db)). \<not> overdue now w \<and>
      (mw_expires_at w \<le> now \<longrightarrow>
        mw_managed_work_id w \<notin> mp_managed_work_id ` set (managed_payloads (retention_runs now n db)))"
    (is "\<forall>w \<in> set (managed_works ?db'). _")
proof
  fix w assume w: "w \<in> set (managed_works ?db')"
  have "filter (overdue now) (managed_works ?db') = []"
    using retention_runs_overdue [OF assms(1), of now n] assms(3) by simp
  then have no: "\<not> overdue now w" using w by (simp add: filter_empty_conv)
  have "evidence_ok ?db'"
    using retention_runs_progress [OF assms(1), of now n] assms(1,2) by (simp add: work_progress_def)
  then have "payload_ok ?db' w" using w by (simp add: evidence_ok_def)
  then show "\<not> overdue now w \<and> (mw_expires_at w \<le> now \<longrightarrow>
      mw_managed_work_id w \<notin> mp_managed_work_id ` set (managed_payloads ?db'))"
    using no by (auto simp: overdue_def payload_ok_def)
qed

theorem retention_drains_witness:
  "managed_works (retention_runs 1000 1 dispatched_db) = [expired_work 1000 sample_work] \<and>
   \<not> overdue 1000 (expired_work 1000 sample_work) \<and>
   ''mw_a'' \<notin> mp_managed_work_id ` set (managed_payloads (retention_runs 1000 1 dispatched_db))"
proof -
  have "managed_works (retention_runs 1000 1 dispatched_db) = [expired_work 1000 sample_work]"
    by code_simp
  moreover have "mw_expires_at (expired_work 1000 sample_work) = 900"
    "mw_managed_work_id (expired_work 1000 sample_work) = ''mw_a''" by code_simp+
  moreover have "length (filter (overdue 1000) (managed_works dispatched_db)) \<le> 256 * 1" by code_simp
  ultimately show ?thesis using retention_drains [OF dispatched_db_ok, of 1000 1] by simp
qed

end
