(* ===== verification/Gateway_System.thy ===== *)
theory Gateway_System
  imports Retirement Publications Managed_Work
begin

text \<open>
  The Managed Gateway as one state machine.  A step is one call of an operation of
  \<^verbatim>\<open>GatewayRepository\<close> (\<^verbatim>\<open>inari-gateway/src/persistence\<close>) that writes, with any arguments,
  any clock and any outcome; calls interleave in any order.  What holds in every reachable
  state, and what no later call can undo, is proved here over the lemmas of the components.
\<close>

section \<open>Operations that leave commands and work alone\<close>

definition dispatch_frame :: "gateway_db \<Rightarrow> gateway_db \<Rightarrow> bool" where
  "dispatch_frame db db' \<longleftrightarrow> managed_works db' = managed_works db \<and>
    managed_payloads db' = managed_payloads db \<and> commands db' = commands db"

definition quiet :: "gateway_db \<Rightarrow> gateway_db \<Rightarrow> bool" where
  "quiet db db' \<longleftrightarrow> db_progress db db' \<and> dispatch_frame db db'"

interpretation quiet_steps: state_preorder quiet
proof
  show "quiet s s" for s by (simp add: quiet_def dispatch_frame_def progress.refl)
  show "quiet s t \<Longrightarrow> quiet t u \<Longrightarrow> quiet s u" for s t u
    by (auto simp: quiet_def dispatch_frame_def intro: progress.trans)
qed

named_theorems quiet_intros

lemma insert_audit_event_quiet [quiet_intros]: "insert_audit_event now draft db = Inr db' \<Longrightarrow> quiet db db'"
  using insert_audit_event_progress [of now draft db db']
  by (auto simp: quiet_def dispatch_frame_def insert_audit_event_def insert_audit_row_def)

lemma record_audit_event_quiet:
  assumes "record_audit_event now draft db = (db', r)"
  shows "quiet db db'"
  using assms unfolding record_audit_event_def
  by (rule quiet_steps.transaction_step) (auto simp: and_then_eq_Inr intro: quiet_intros)

lemma upsert_organization_quiet [quiet_intros]:
  assumes "upsert_organization row db = Inr db'"
  shows "quiet db db'"
proof (cases "exists_where (\<lambda>o'. org_organization_id o' = org_organization_id row) (organizations db)")
  case True
  let ?gs = "update_where (\<lambda>o'. org_organization_id o' = org_organization_id row)
    (\<lambda>o'. o'\<lparr>org_name := org_name row, org_updated_at := org_updated_at row\<rparr>) (organizations db)"
  have ids: "map org_organization_id ?gs = map org_organization_id (organizations db)"
    by (simp add: update_where_def)
  then have keys: "org_organization_id ` set ?gs = org_organization_id ` set (organizations db)"
    by (metis list.set_map)
  have "db_ok (db\<lparr>organizations := ?gs\<rparr>)" if ok: "db_ok db"
    using ok ids keys by (intro db_ok_parent_tables(1) [OF ok]) (simp_all add: db_ok_def organizations_ok_def)
  then have "db_progress db (db\<lparr>organizations := ?gs\<rparr>)"
    using keys by (intro progress_parents(2)) auto
  moreover have "db' = db\<lparr>organizations := ?gs\<rparr>" using assms True by (simp add: upsert_organization_def)
  ultimately show ?thesis by (simp add: quiet_def dispatch_frame_def)
next
  case False
  then have ins: "insert_organization row db = Inr db'" using assms by (simp add: upsert_organization_def)
  then show ?thesis
    using insert_organization_progress [OF ins]
    by (auto simp: quiet_def dispatch_frame_def insert_organization_def and_then_eq_Inr)
qed

lemma upsert_site_quiet [quiet_intros]:
  assumes "upsert_site row db = Inr db'"
  shows "quiet db db'"
proof (cases "exists_where (\<lambda>s. st_site_id s = st_site_id row) (sites db)")
  case True
  let ?ss = "update_where (\<lambda>s. st_site_id s = st_site_id row)
    (\<lambda>s. s\<lparr>st_name := st_name row, st_updated_at := st_updated_at row\<rparr>) (sites db)"
  have "map st_site_id ?ss = map st_site_id (sites db)" by (simp add: update_where_def)
  then have keys: "st_site_id ` set ?ss = st_site_id ` set (sites db)" by (metis list.set_map)
  have s: "db' = db\<lparr>sites := ?ss\<rparr>" "sites_ok (db\<lparr>sites := ?ss\<rparr>)"
    using assms True by (auto simp: upsert_site_def statement_def split: if_splits)
  have "db_ok (db\<lparr>sites := ?ss\<rparr>)" if "db_ok db"
    using s(2) keys by (intro db_ok_parent_tables(2) [OF that]) simp_all
  then have "db_progress db (db\<lparr>sites := ?ss\<rparr>)"
    using keys by (intro progress_parents(1)) auto
  then show ?thesis using s(1) by (simp add: quiet_def dispatch_frame_def)
next
  case False
  then have ins: "insert_site row db = Inr db'" using assms by (simp add: upsert_site_def)
  then show ?thesis
    using insert_site_progress [OF ins] by (auto simp: quiet_def dispatch_frame_def insert_site_def)
qed

lemma ensure_organization_quiet:
  assumes "ensure_organization now oid oname sid sname db = (db', r)"
  shows "quiet db db'"
  using assms unfolding ensure_organization_def
  by (rule quiet_steps.transaction_step) (auto simp: and_then_eq_Inr intro: quiet_steps.trans quiet_intros)

lemma insert_invitation_quiet [quiet_intros]: "insert_invitation row db = Inr db' \<Longrightarrow> quiet db db'"
  using insert_invitation_progress [of row db db']
  by (auto simp: quiet_def dispatch_frame_def insert_invitation_def)

lemma create_invitation_quiet:
  assumes "create_invitation sha256 now code oid sid label s e audit db = (db', r)"
  shows "quiet db db'"
  using assms unfolding create_invitation_def
  by (rule quiet_steps.transaction_step) (auto simp: and_then_eq_Inr intro: quiet_steps.trans quiet_intros)

lemma expire_invitations_quiet: "quiet db (expire_invitations_where P now db)"
proof -
  have "db_progress db (expire_invitations_where P now db)"
    unfolding expire_invitations_where_def
    by (rule update_invitations_progress) (auto simp: invitation_evolves_def expirable_states_def)
  then show ?thesis by (simp add: quiet_def dispatch_frame_def expire_invitations_where_def)
qed

lemma invitation_quiet: "invitation iid now db = (db', r) \<Longrightarrow> quiet db db'"
  using expire_invitations_quiet by (auto simp: invitation_def Let_def expire_invitation_def)

lemma invitations_list_quiet: "invitations_list now db = (db', r) \<Longrightarrow> quiet db db'"
  using expire_invitations_quiet by (auto simp: invitations_list_def Let_def)

lemma revoke_and_audit_quiet:
  assumes "revoke_and_audit iid now oid audit db = (db', r)"
  shows "quiet db db'"
proof -
  let ?db = "db\<lparr>invitations := update_where (revocable iid)
    (\<lambda>i. i\<lparr>iv_state := InvRevoked, iv_revoked_at := Some now\<rparr>) (invitations db)\<rparr>"
  have "state_may_become t InvRevoked" for t by (cases t) simp_all
  then have "db_progress db ?db"
    by (intro update_invitations_progress) (simp add: invitation_evolves_def)
  then have "quiet db ?db" by (simp add: quiet_def dispatch_frame_def)
  then show ?thesis
    using assms quiet_steps.refl unfolding revoke_and_audit_def transaction_eq
    by (auto simp: and_then_eq_Inr intro: quiet_steps.trans quiet_intros)
qed

lemma revoke_invitation_quiet:
  assumes "revoke_invitation iid now oid audit db = (db', r)"
  shows "quiet db db'"
  using assms
  by (auto simp: revoke_invitation_def simp del: exists_where_iff split: if_splits prod.splits sum.splits
      dest!: invitation_quiet revoke_and_audit_quiet intro: quiet_steps.trans)

lemma dispatch_frame_trans: "dispatch_frame a b \<Longrightarrow> dispatch_frame b c \<Longrightarrow> dispatch_frame a c"
  by (simp add: dispatch_frame_def)

lemma persist_enrollment_frame:
  assumes "persist_enrollment ext t3 i e snapshot fp now db = Inr db'"
  shows "dispatch_frame db db'"
proof -
  obtain items db1 db2 db3 where agent: "persist_agent items e snapshot now db = Inr db1"
    and keys: "try_fold (register_verification_key (ex_thumbprint ext) (agent_str (en_agent_id e)) now)
      [(TransportIdentity, en_public_jwk e), (AgentState, en_state_signing_jwk e)] db1 = Inr db2"
    and inv: "update_invitation (enrolled_invitation i e snapshot fp now) (db2\<lparr>invitation_attempts := delete_where
        (\<lambda>a. at_invitation_id a = iv_invitation_id i) (invitation_attempts db2)\<rparr>) = Inr db3"
    and audit: "db' = db3\<lparr>audit_events := audit_events db'\<rparr>"
    using persist_enrollment_phases [OF assms] by blast
  have "dispatch_frame db db1" using persist_agent_frame [OF agent] by (auto simp: dispatch_frame_def)
  moreover have "dispatch_frame db1 db2"
    using keys by (rule try_fold_invariant)
      (auto simp: dispatch_frame_def dest!: register_verification_key_frame)
  moreover have "dispatch_frame db2 db3" using inv by (auto simp: update_invitation_def dispatch_frame_def)
  moreover have "\<exists>es. db' = db3\<lparr>audit_events := es\<rparr>" using audit by (rule exI)
  then have "dispatch_frame db3 db'" by (auto simp: dispatch_frame_def)
  ultimately show ?thesis by (blast intro: dispatch_frame_trans)
qed

lemma enroll_agent_quiet:
  assumes "enroll_agent ext t1 t2 t3 code e snapshot limit prepare db = (db', r)"
  shows "quiet db db'"
proof -
  from assms have "dispatch_frame db db'"
  proof (cases rule: enroll_agent_cases)
    case refused
    then show ?thesis by (simp add: dispatch_frame_def)
  next
    case (wrong i db1 n)
    then show ?thesis
      using recent_failures_Inr(1) [OF wrong(2)]
      by (auto simp: attempt_recorded_def insert_invitation_attempt_def dispatch_frame_def)
  next
    case (accepted i db1 n fp)
    have "dispatch_frame db1 db'"
      using accepted(5) persist_enrollment_frame by (auto simp: accept_invitation_Inr dispatch_frame_def)
    then show ?thesis using recent_failures_Inr(1) [OF accepted(2)] by (simp add: dispatch_frame_def)
  qed
  then show ?thesis using enroll_agent_progress [OF assms] by (simp add: quiet_def)
qed

lemma retire_agent_credentials_quiet:
  assumes "retire_agent_credentials now t org agent audit db = (db', r)"
  shows "quiet db db'"
  using assms
proof (cases rule: retire_agent_credentials_cases)
  case (retired a db1)
  have "dispatch_frame db db1" using retire_agent_keys_frame [OF retired(3)] by (auto simp: dispatch_frame_def)
  then show ?thesis using retired(5,6) by (auto simp: quiet_def dispatch_frame_def close_agent_def)
qed (simp add: quiet_steps.refl)

text \<open>A policy row is replaced; the authority never goes back.\<close>

lemma policies_quiet:
  assumes "db' = db\<lparr>router_policies := ps\<rparr>" and "router_policies_ok db'"
    and "authority_advances db db'" and "revisions_ok db \<Longrightarrow> revisions_ok db'"
  shows "quiet db db'"
proof -
  have "db_ok db'" if "db_ok db" using assms(1,2) db_ok_tables(1) [OF that] by simp
  then have "state_ok db \<longrightarrow> state_ok db'" using assms(4) by (auto simp: state_ok_def)
  then show ?thesis
    using assms(1,3) by (simp add: quiet_def dispatch_frame_def db_progress_def keys_evolve_same
        invitations_evolve_same commands_evolve_same logs_grow_def keys_grow_def)
qed

lemma prepare_router_policy_quiet:
  assumes "prepare_router_policy now org cfg refresh build db = (db', r)"
  shows "quiet db db'"
proof (cases r)
  case (Inl e)
  then show ?thesis using assms quiet_steps.refl by (auto dest: prepare_router_policy_Inl)
next
  case (Inr policy)
  from assms [unfolded this] obtain row new
    where cases: "db' = db \<and> new = row \<and> policy_reusable cfg refresh row \<or>
        \<not> policy_reusable cfg refresh row \<and>
        renew_policy now cfg (\<lambda>g. build g (active_agents db org)) row db = Inr (db', new)"
    by (rule prepare_router_policy_Inr)
  show ?thesis
  proof (cases "db' = db")
    case False
    then have "renew_policy now cfg (\<lambda>g. build g (active_agents db org)) row db = Inr (db', new)"
      using cases by blast
    from renew_policy_Inr [OF this]
    have "update_router_policy new db = Inr db'" by simp
    then show ?thesis
      using prepare_router_policy_advances [OF assms]
      by (auto simp: update_router_policy_Inr intro: policies_quiet)
  qed (simp add: quiet_steps.refl)
qed

lemma acknowledge_router_policy_quiet:
  assumes "acknowledge_router_policy now1 now2 org policy db = (db', r)"
  shows "quiet db db'"
proof (cases r)
  case (Inl e)
  then show ?thesis using assms quiet_steps.refl by (auto dest: acknowledge_router_policy_Inl)
next
  case (Inr adm)
  from assms [unfolded this] obtain row
    where "update_router_policy (row\<lparr>rp_acknowledged_at := Some now2\<rparr>) db = Inr db'"
    by (rule acknowledge_router_policy_Inr)
  then show ?thesis
    using acknowledge_router_policy_advances [OF assms]
    by (auto simp: update_router_policy_Inr intro: policies_quiet)
qed

lemma create_managed_work_preflight_quiet:
  assumes "create_managed_work_preflight pf db = (db', r)"
  shows "quiet db db'"
  using assms unfolding create_managed_work_preflight_def
  by (rule quiet_steps.transaction_step)
    (auto simp: and_then_eq_Inr insert_preflight_progress quiet_def dispatch_frame_def,
      auto simp: insert_preflight_def)

section \<open>Sequences and quotas under evolution\<close>

text \<open>
  Rows that evolve under fixed identifiers keep the numbering of commands and never use more
  of a quota.
\<close>

definition rows_kept :: "gateway_db \<Rightarrow> gateway_db \<Rightarrow> bool" where
  "rows_kept db db' \<longleftrightarrow> map cm_command_id (commands db') = map cm_command_id (commands db) \<and>
    map mw_managed_work_id (managed_works db') = map mw_managed_work_id (managed_works db)"

interpretation kept: state_preorder rows_kept
  by unfold_locales (simp_all add: rows_kept_def)

lemma evolve_list_all2:
  assumes "map key ys = map key xs" and "distinct (map key xs)"
    and "\<And>k x. find_by key k xs = Some x \<Longrightarrow> \<exists>y. find_by key k ys = Some y \<and> E x y"
  shows "list_all2 E xs ys"
proof (rule list_all2_all_nthI)
  show len: "length xs = length ys" using assms(1) map_eq_imp_length_eq by metis
  fix i assume i: "i < length xs"
  then have key: "key (ys ! i) = key (xs ! i)" using assms(1) len by (metis nth_map)
  have "find_by key (key (xs ! i)) xs = Some (xs ! i)"
    using find_by_unique [OF assms(2)] i by simp
  moreover have "find_by key (key (xs ! i)) ys = Some (ys ! i)"
    using find_by_unique [of key ys "ys ! i"] assms(1,2) i len key by simp
  ultimately show "E (xs ! i) (ys ! i)" using assms(3) by fastforce
qed

lemma sequences_ok_evolve:
  assumes "sequences_ok db" and "commands_ok db" and "commands_evolve db db'" and "rows_kept db db'"
  shows "sequences_ok db'"
proof -
  have "list_all2 command_evolves (commands db) (commands db')"
    using assms(2-4) by (intro evolve_list_all2 [where key = cm_command_id])
      (auto simp: rows_kept_def commands_ok_def commands_evolve_def)
  then have "list_all2 (\<lambda>c d. (cm_agent_id c, cm_sequence c) = (cm_agent_id d, cm_sequence d))
      (commands db) (commands db')"
    by (rule list_all2_mono) (simp add: command_evolves_def)
  then have eq: "map (\<lambda>c. (cm_agent_id c, cm_sequence c)) (commands db') =
      map (\<lambda>c. (cm_agent_id c, cm_sequence c)) (commands db)"
    by (induction rule: list_all2_induct) auto
  then have seqs: "agent_sequences db' a = agent_sequences db a" for a
    unfolding agent_sequences_pairs by simp
  have "cm_agent_id ` set (commands db') = cm_agent_id ` set (commands db)"
    using arg_cong [OF eq, of "\<lambda>ps. fst ` set ps"] by (simp add: image_image)
  moreover have "sequences_ok x \<longleftrightarrow> (\<forall>a \<in> cm_agent_id ` set (commands x).
      agent_sequences x a = map int [1..<Suc (length (agent_sequences x a))])" for x
    by (simp add: sequences_ok_def list_all_iff)
  ultimately show ?thesis using assms(1) by (simp only: seqs)
qed

lemma work_path_pending:
  assumes "work_path s t" and "t \<in> {PendingAgentValue, DispatchingValue}"
  shows "s \<in> {PendingAgentValue, DispatchingValue}"
  using assms by (induction rule: rtranclp_induct) (auto elim: work_step.cases)

lemma quotas_ok_evolve:
  assumes "quotas_ok db" and "managed_works_ok db" and "works_evolve db db'" and "rows_kept db db'"
  shows "quotas_ok db'"
proof -
  have "list_all2 work_evolves (managed_works db) (managed_works db')"
    using assms(2-4) by (intro evolve_list_all2 [where key = mw_managed_work_id])
      (auto simp: rows_kept_def managed_works_ok_def works_evolve_def)
  then have "list_all2 settles (managed_works db) (managed_works db')"
  proof (rule list.rel_mono_strong)
    fix w v assume w: "w \<in> set (managed_works db)" and e: "work_evolves w v"
    have "0 \<le> mw_payload_bytes w"
      using assms(2) w by (auto simp: managed_works_ok_def list_all_iff)
    moreover have "work_identity v = work_identity w" "work_path (mw_state w) (mw_state v)"
      using e by (simp_all add: work_evolves_def)
    ultimately show "settles w v"
      using work_identity_fields [of v w] work_path_pending [of "mw_state w" "mw_state v"]
      by (simp add: settles_def pending_work_def)
  qed
  then show ?thesis by (rule quotas_ok_settled [OF assms(1)])
qed

section \<open>Operations on commands and work\<close>

lemma enqueue_command_work:
  assumes "enqueue_command t1 t2 t3 adm a req fp build db = (db', r)"
  shows "work_progress db db'" and "managed_works db' = managed_works db"
proof -
  consider "db' = db" | c where "insert_command c db = Inr db'"
    using assms by (cases rule: enqueue_command_cases)
      (auto simp: queue_new_command_def and_then_eq_Inr Let_def split: if_splits)
  then have "db_progress db db' \<and> managed_works db' = managed_works db \<and> managed_payloads db' = managed_payloads db"
    using insert_command_progress progress.refl by cases (auto simp: insert_command_def)
  then show "work_progress db db'" and "managed_works db' = managed_works db"
    by (auto intro: work_progress_other)
qed

lemma map_key_update_where: "(\<And>r. P r \<Longrightarrow> key (f r) = key r) \<Longrightarrow> map key (update_where P f t) = map key t"
  by (simp add: update_where_def)

lemma mark_command_published_work:
  "work_progress db (mark_command_published a c now db)" "rows_kept db (mark_command_published a c now db)"
proof -
  have "db_progress db (mark_command_published a c now db)"
    unfolding mark_command_published_def by (rule update_commands_progress) (simp add: command_evolves_def)
  then show "work_progress db (mark_command_published a c now db)"
    by (rule work_progress_other) (simp_all add: mark_command_published_def)
  show "rows_kept db (mark_command_published a c now db)"
    by (simp add: rows_kept_def mark_command_published_def map_key_update_where)
qed

lemma reconcile_state_observation_kept:
  assumes "reconcile_state_observation keys lib agent_id publication now db = Inr db'"
  shows "rows_kept db db'"
  using assms
proof (cases rule: reconcile_state_observation_cases)
  case unchanged
  then show ?thesis by (simp add: kept.refl)
next
  case (recorded compact observation)
  obtain dispatch work replace db1 where s:
      "store_evidence agent_id work \<lparr>so_observation = observation, so_state_envelope = compact\<rparr> now db = Inr db1"
      "accept_observation dispatch work replace
        \<lparr>so_observation = observation, so_state_envelope = compact\<rparr> now db1 = Inr db'"
    by (rule record_observation_Inr [OF recorded(4)])
  have "rows_kept db db1" using store_evidence_rows [OF s(1)] by (auto simp: rows_kept_def)
  moreover have "rows_kept db1 db'"
    using s(2) by (auto simp: rows_kept_def accept_observation_def and_then_eq_Inr update_command_def
        update_managed_work_def delete_payload_def map_key_update_where split: if_splits)
  ultimately show ?thesis by (rule kept.trans)
qed

lemma record_publication_kept:
  assumes "record_publication keys lib ilib audited_at agent_id key message now db = (db', r)"
  shows "rows_kept db db'"
  using assms
proof (cases rule: record_publication_cases)
  case refused
  then show ?thesis by (simp add: kept.refl)
next
  case (audited e draft)
  then show ?thesis by (auto simp: insert_audit_event_def insert_audit_row_def rows_kept_def)
next
  case (accepted inventory)
  from accepted(3) show ?thesis
  proof (cases rule: record_publication_body_cases)
    case known
    then show ?thesis by (simp add: kept.refl)
  next
    case (new agent db1)
    obtain db2 db3 where s: "reconcile_state_observation keys lib agent_id message now db1 = Inr db2"
      "apply_snapshot message inventory (bound_invitation agent message db) agent now db2 = Inr db3"
      "db' = apply_receipt agent_id message now db3"
      by (rule process_publication_Inr [OF new(4)])
    have "rows_kept db db1" using new(3) by (auto elim: insert_publication_cases simp: rows_kept_def)
    moreover have "rows_kept db1 db2" by (rule reconcile_state_observation_kept [OF s(1)])
    moreover have "rows_kept db2 db3" using apply_snapshot_frame [OF s(2)] by (simp add: rows_kept_def)
    moreover have "rows_kept db3 db'"
      by (auto simp: s(3) apply_receipt_def rows_kept_def map_key_update_where split: option.splits)
    ultimately show ?thesis by (blast intro: kept.trans)
  qed
qed

lemma expire_managed_payloads_kept:
  assumes "managed_works_ok db" and "expire_managed_payloads now db = (db', r)"
  shows "rows_kept db db'"
  using expire_managed_payloads_eq(1) [OF assms(1) refl, of now] assms(2)
  by (auto simp: expired_db_def expire_row_def rows_kept_def)

section \<open>The state machine\<close>

inductive gateway_step :: "gateway_db \<Rightarrow> gateway_db \<Rightarrow> bool" where
  audit_recorded: "record_audit_event now draft db = (db', r) \<Longrightarrow> gateway_step db db'"
| organization_ensured: "ensure_organization now oid oname sid sname db = (db', r) \<Longrightarrow> gateway_step db db'"
| invitation_created: "create_invitation sha256 now code oid sid label start_at end_at audit db = (db', r) \<Longrightarrow> gateway_step db db'"
| invitation_read: "invitation iid now db = (db', status) \<Longrightarrow> gateway_step db db'"
| invitations_listed: "invitations_list now db = (db', statuses) \<Longrightarrow> gateway_step db db'"
| invitation_revoked: "revoke_invitation iid now oid audit db = (db', status) \<Longrightarrow> gateway_step db db'"
| agent_enrolled: "enroll_agent ext t1 t2 t3 code e snapshot limit prepare db = (db', (enrolled :: unit prepared_enrollment gateway_result)) \<Longrightarrow>
    gateway_step db db'"
| agent_retired: "retire_agent_credentials now t oid agent audit db = (db', r) \<Longrightarrow> gateway_step db db'"
| policy_prepared: "prepare_router_policy now org cfg refresh build_policy db = (db', policy) \<Longrightarrow> gateway_step db db'"
| policy_acknowledged: "acknowledge_router_policy t1 t2 org prepared db = (db', admission) \<Longrightarrow> gateway_step db db'"
| command_enqueued: "enqueue_command t1 t2 t3 adm a req fp build db = (db', command) \<Longrightarrow> gateway_step db db'"
| command_published: "db' = mark_command_published a command_id now db \<Longrightarrow> gateway_step db db'"
| publication_recorded: "record_publication keys (lib :: structured_value envelope_library) ilib audited_at a key message now db = (db', r) \<Longrightarrow>
    gateway_step db db'"
| preflight_created: "create_managed_work_preflight preflight db = (db', r) \<Longrightarrow> gateway_step db db'"
| work_admitted: "admit_managed_work digests t1 build_payload work_admission db = (db', dispatch) \<Longrightarrow> gateway_step db db'"
| payloads_expired: "expire_managed_payloads now db = (db', count) \<Longrightarrow> gateway_step db db'"

abbreviation gateway_runs :: "gateway_db \<Rightarrow> gateway_db \<Rightarrow> bool" where
  "gateway_runs \<equiv> gateway_step\<^sup>*\<^sup>*"

definition system_ok :: "gateway_db \<Rightarrow> bool" where
  "system_ok db \<longleftrightarrow> state_ok db \<and> evidence_ok db \<and> sequences_ok db \<and> quotas_ok db"

definition system_progress :: "gateway_db \<Rightarrow> gateway_db \<Rightarrow> bool" where
  "system_progress db db' \<longleftrightarrow> db_progress db db' \<and> works_evolve db db' \<and> system_ok db'"

lemma system_kept:
  assumes "work_progress db db'" and "rows_kept db db'" and "system_ok db"
  shows "system_progress db db'"
proof -
  have "commands_ok db" "managed_works_ok db" using assms(3) by (auto simp: system_ok_def state_ok_def db_ok_def)
  then show ?thesis
    using assms sequences_ok_evolve [of db db'] quotas_ok_evolve [of db db']
    by (auto simp: system_progress_def system_ok_def work_progress_def db_progress_def)
qed

lemma system_quiet: "quiet db db' \<Longrightarrow> system_ok db \<Longrightarrow> system_progress db db'"
  by (rule system_kept) (auto simp: quiet_def dispatch_frame_def rows_kept_def intro: work_progress_other)

lemma system_enqueue:
  assumes "enqueue_command t1 t2 t3 adm a req fp build db = (db', r)" and "system_ok db"
  shows "system_progress db db'"
  using assms(2) enqueue_command_work [OF assms(1)] enqueue_command_sequences [OF _ assms(1)] quotas_ok_same
  by (auto simp: system_progress_def system_ok_def work_progress_def db_progress_def)

lemma system_admit:
  assumes "admit_managed_work digests t1 build adm db = (db', r)" and "system_ok db"
  shows "system_progress db db'"
  using assms(2) admit_managed_work_progress [OF assms(1)] admit_managed_work_sequences [OF assms(1)]
    admit_managed_work_quotas [OF assms(1)]
  by (auto simp: system_progress_def system_ok_def work_progress_def db_progress_def)

lemma system_expire:
  assumes "expire_managed_payloads now db = (db', r)" and "system_ok db"
  shows "system_progress db db'"
proof (rule system_kept [OF _ _ assms(2)])
  have ok: "managed_works_ok db" using assms(2) by (simp add: system_ok_def state_ok_works)
  show "work_progress db db'" using expire_managed_payloads_works(1) [OF ok, of now] assms(1) by simp
  show "rows_kept db db'" by (rule expire_managed_payloads_kept [OF ok assms(1)])
qed

lemma gateway_step_system:
  assumes "gateway_step db db'" and "system_ok db"
  shows "system_progress db db'"
  using assms
proof (induction rule: gateway_step.induct)
qed (auto intro: system_quiet system_enqueue system_admit system_expire system_kept
    record_audit_event_quiet ensure_organization_quiet create_invitation_quiet invitation_quiet
    invitations_list_quiet revoke_invitation_quiet enroll_agent_quiet retire_agent_credentials_quiet
    prepare_router_policy_quiet acknowledge_router_policy_quiet create_managed_work_preflight_quiet
    mark_command_published_work record_publication_progress record_publication_kept)

lemma gateway_runs_system:
  assumes "gateway_runs db db'" and "system_ok db"
  shows "system_progress db db'"
  using assms
proof (induction rule: rtranclp_induct)
  case base
  then show ?case by (simp add: system_progress_def progress.refl works_evolve_same)
next
  case (step db1 db2)
  then have one: "system_progress db db1" by simp
  then have "system_progress db1 db2" using gateway_step_system [OF step(2)] by (simp add: system_progress_def)
  then show ?case
    using one progress.trans works_evolve_trans unfolding system_progress_def by blast
qed

lemma empty_db_ok: "system_ok empty_db"
  by code_simp

section \<open>A concrete run\<close>

text \<open>
  From the empty database: an organization is created, an Agent is invited and enrols, its
  router policy is prepared and acknowledged, a Managed Work is prepared and admitted.
\<close>

definition sample_context :: audit_context where
  "sample_context = \<lparr>ctx_actor_id = ActorId ''oidc:x'', ctx_request_id = None\<rparr>"

definition run_invited :: gateway_db where
  "run_invited = fst (create_invitation (ex_sha256 sample_ext) 2 (sample_code CHR ''Q'') (OrganizationId ''org_a'')
     (SiteId ''site_a'') None 2 1000 sample_context
     (fst (ensure_organization 1 (OrganizationId ''org_a'') ''A'' (SiteId ''site_a'') ''S'' empty_db)))"

definition run_enrolled :: gateway_db where
  "run_enrolled = fst (enroll_agent sample_ext 20 21 22 (sample_code CHR ''Q'') sample_enrollment sample_snapshot
     sample_limit (Inr ()) run_invited)"

definition run_policy :: persisted_router_policy where
  "run_policy = \<lparr>prp_generation = 1, prp_signed_policy = SNull, prp_digest = sample_digest,
      prp_expires_at = 90000000, prp_agents = [\<lparr>ra_agent_id = ''agt_b'', ra_namespace = ''inari/agt_b''\<rparr>]\<rparr>"

definition run_admission :: router_admission where
  "run_admission = \<lparr>adm_organization_id = ''org_a'', adm_generation = 1, adm_digest = sample_digest,
     adm_valid_until = 10000032\<rparr>"

definition run_acknowledged :: gateway_db where
  "run_acknowledged = fst (acknowledge_router_policy 31 32 ''org_a'' run_policy
     (fst (prepare_router_policy 30 ''org_a'' sample_digest 60000000
        (\<lambda>g active. Inr \<lparr>nrp_signed_policy = SNull, nrp_digest = sample_digest,
           nrp_expires_at = 90000000\<rparr>) run_enrolled)))"

definition run_scope :: managed_work_scope where
  "run_scope = \<lparr>sc_database = ''db'', sc_company_id = ''1'', sc_organization_id = OrganizationId ''org_a'',
     sc_site_id = SiteId ''site_a'', sc_agent_id = AgentId ''agt_b''\<rparr>"

definition run_admit :: managed_work_admission where
  "run_admit = sample_admit\<lparr>wa_router_admission := run_admission, wa_submission := sample_submission
     \<lparr>sub_work := (sub_work sample_submission)\<lparr>dw_scope := run_scope\<rparr>\<rparr>\<rparr>"

definition run_preflight :: new_managed_work_preflight where
  "run_preflight = \<lparr>np_preflight_id = ManagedPreflightId ''mpf_a'', np_request = (pf_request sample_preflight)
       \<lparr>pr_scope := run_scope\<rparr>, np_dispatch_key_id = ''dk_a'', np_capability_digest = ''cap'', np_work_expires_at = 900,
     np_idempotency_expires_at = 900, np_submit_before = 800, np_created_at = 40\<rparr>"

definition run_admitted :: gateway_db where
  "run_admitted = fst (admit_managed_work sample_digests 50 (\<lambda>_. Inr sample_protected) run_admit
     (fst (create_managed_work_preflight run_preflight run_acknowledged)))"

lemma step_fst: "gateway_step db (fst x) \<Longrightarrow> gateway_runs b db \<Longrightarrow> gateway_runs b (fst x)"
  by (rule rtranclp.rtrancl_into_rtrancl)

lemma run_invited_reached: "gateway_runs empty_db run_invited"
  unfolding run_invited_def
  by (rule step_fst [OF gateway_step.invitation_created [OF surjective_pairing]],
      rule step_fst [OF gateway_step.organization_ensured [OF surjective_pairing]]) (rule rtranclp.rtrancl_refl)

lemma run_acknowledged_reached: "gateway_runs empty_db run_acknowledged"
  unfolding run_acknowledged_def run_enrolled_def
  by (rule step_fst [OF gateway_step.policy_acknowledged [OF surjective_pairing]],
      rule step_fst [OF gateway_step.policy_prepared [OF surjective_pairing]],
      rule step_fst [OF gateway_step.agent_enrolled [OF surjective_pairing]]) (rule run_invited_reached)

lemma run_admitted_reached: "gateway_runs empty_db run_admitted"
  unfolding run_admitted_def
  by (rule step_fst [OF gateway_step.work_admitted [OF surjective_pairing]],
      rule step_fst [OF gateway_step.preflight_created [OF surjective_pairing]]) (rule run_acknowledged_reached)

lemma run_admitted_pending: "length (pending_of mw_agent_id ''agt_b'' run_admitted) = 1"
  by code_simp

lemma run_admission_valid: "require_admission_in 50 run_admission ''agt_b'' run_acknowledged = Inr ()"
  by code_simp

definition run_retired :: "gateway_db \<times> unit gateway_result" where
  "run_retired = retire_agent_credentials 60 61 (OrganizationId ''org_a'') (AgentId ''agt_b'') sample_context
     run_acknowledged"

lemma run_retired_ok: "snd run_retired = Inr ()"
  by code_simp

lemma run_active_key: "list_ex (active_key_of (agent_str (AgentId ''agt_b''))) (agent_keys run_acknowledged)"
  by code_simp

section \<open>Properties\<close>

text \<open>
  C1. Whatever operations ran, in whatever order and with whatever arguments, every
  constraint of the schema holds, every Agent's command numbers are 1, 2, ..., n, every
  Managed Work agrees with its recorded evidence and has a stored payload exactly until it
  is deleted, and no quota is exceeded.
\<close>

theorem gateway_invariant:
  assumes "gateway_runs empty_db db"
  shows "system_ok db"
  using gateway_runs_system [OF assms empty_db_ok] by (simp add: system_progress_def)

theorem gateway_invariant_witness:
  "system_ok run_admitted \<and> length (managed_works run_admitted) = 1"
proof -
  have "length (managed_works run_admitted) = 1" by code_simp
  then show ?thesis using gateway_invariant [OF run_admitted_reached] by simp
qed

text \<open>
  C6. The pending work is bounded in every reachable state: at most 32 works and 64 MiB for
  an Agent, at most 256 works and 512 MiB for an organization.
\<close>

theorem pending_work_bounded:
  assumes "gateway_runs empty_db db"
  shows "length (pending_of mw_agent_id agent db) \<le> 32 \<and>
    sum_list (map mw_payload_bytes (pending_of mw_agent_id agent db)) \<le> 67108864 \<and>
    length (pending_of mw_organization_id organization db) \<le> 256 \<and>
    sum_list (map mw_payload_bytes (pending_of mw_organization_id organization db)) \<le> 536870912"
proof -
  have q: "quotas_ok db"
    using gateway_runs_system [OF assms empty_db_ok] by (simp add: system_progress_def system_ok_def)
  note a = within_quota_all [OF conjunct1 [OF q [unfolded quotas_ok_def]], of agent]
    and o = within_quota_all [OF conjunct2 [OF q [unfolded quotas_ok_def]], of organization]
  show ?thesis
    using a o by (simp add: AGENT_PENDING_WORK_LIMIT_def AGENT_PENDING_BYTE_LIMIT_def
        ORGANIZATION_PENDING_WORK_LIMIT_def ORGANIZATION_PENDING_BYTE_LIMIT_def)
qed

theorem pending_work_bounded_witness:
  "length (pending_of mw_agent_id ''agt_b'' run_admitted) = 1 \<and>
   sum_list (map mw_payload_bytes (pending_of mw_agent_id ''agt_b'' run_admitted)) \<le> 67108864"
  using pending_work_bounded [OF run_admitted_reached, of "''agt_b''"] run_admitted_pending by simp



text \<open>
  C2. Retiring an Agent cuts off what its organization was admitted to before: once the
  retirement of an Agent with an active key has committed, no admission that was accepted
  before it lets any call queue a command or admit a work, in any later state.
\<close>

theorem retirement_cuts_off:
  assumes "gateway_runs empty_db db"
    and "require_admission_in t adm agent_id db = Inr ()"
    and "adm_organization_id adm = organization_str org"
    and "k \<in> set (agent_keys db)" and "active_key_of (agent_str agent) k"
    and "retire_agent_credentials now audited org agent audit db = (db1, Inr ())"
    and "gateway_runs db1 db2"
  shows "fst (enqueue_command t1 t2 t3 adm a req fp build db2) = db2 \<and>
    \<not> is_ok (snd (enqueue_command t1 t2 t3 adm a req fp build db2)) \<and>
    (wa_router_admission work = adm \<longrightarrow>
      fst (admit_managed_work digests t1 protect work db2) = db2 \<and>
      \<not> is_ok (snd (admit_managed_work digests t1 protect work db2)))"
proof -
  have ok: "system_ok db"
    using gateway_runs_system [OF assms(1) empty_db_ok] by (simp add: system_progress_def)
  then have stale: "admission_stale adm db1"
    using retired_admissions_stale [OF _ assms(6,3) require_admission_known [OF assms(2)] assms(4,5)]
    by (simp add: system_ok_def)
  have "system_ok db1"
    using gateway_step_system [OF gateway_step.agent_retired [OF assms(6)] ok] by (simp add: system_progress_def)
  from gateway_runs_system [OF assms(7) this]
  have "admission_stale adm db2"
    using stale admission_stale_advances
    by (auto simp: system_progress_def system_ok_def state_ok_def db_progress_def)
  then have no: "require_admission_in t1 adm x db2 = Inl (Unavailable ''The Agent has no current Router admission'')" for x
    by (rule admission_stale_refused)
  then show ?thesis
    by (simp add: enqueue_command_def admit_managed_work_def admit_body_def transaction_def and_then_def
        Let_def is_ok_def)
qed

theorem retirement_cuts_off_witness:
  "\<not> is_ok (snd (enqueue_command 70 71 72 run_admission ''agt_b'' None sample_digest sample_build (fst run_retired)))"
proof -
  have retired: "retire_agent_credentials 60 61 (OrganizationId ''org_a'') (AgentId ''agt_b'') sample_context
      run_acknowledged = (fst run_retired, Inr ())"
    using run_retired_ok by (simp add: run_retired_def prod_eq_iff)
  obtain k where k: "k \<in> set (agent_keys run_acknowledged)" "active_key_of (agent_str (AgentId ''agt_b'')) k"
    using run_active_key by (auto simp: list_ex_iff)
  have "adm_organization_id run_admission = organization_str (OrganizationId ''org_a'')"
    by (simp add: run_admission_def)
  then show ?thesis
    using retirement_cuts_off [OF run_acknowledged_reached run_admission_valid _ k retired rtranclp.rtrancl_refl]
    by blast
qed

end
