(* ===== verification/Fleet.thy ===== *)
theory Fleet
  imports Sample_State "HOL-Library.List_Lexorder" "HOL-Library.Char_ord"
begin

text \<open>
  The fleet views (\<^verbatim>\<open>inari-gateway/src/persistence/fleet.rs\<close>): sites, Agents with their health, Devices,
  and the whole inventory of an organization for a workload.  All of them only read.
\<close>

section \<open>Definitions\<close>

datatype agent_health_state = HealthOnline | HealthOffline | HealthAwaitingFirstContact

record agent_health =
  ah_state :: agent_health_state
  ah_last_seen_at :: "instant option"

record agent_summary =
  as_agent_id :: agent_id
  as_site_id :: site_id
  as_health :: agent_health
  as_enrolled_at :: instant

record site_summary =
  ss_site_id :: site_id
  ss_name :: string
  ss_agent_count :: "64 word"
  ss_device_count :: "64 word"

record device_summary =
  ds_device_id :: device_id
  ds_agent_id :: agent_id
  ds_site_id :: site_id
  ds_kind :: device_kind
  ds_device_class :: device_class
  ds_display_name :: string
  ds_state :: device_state
  ds_transport :: device_transport
  ds_capabilities :: "device_capability list"
  ds_last_seen_at :: instant

record organization_workload_scope =
  ows_database :: string
  ows_company_id :: string
  ows_organization_id :: organization_id

record workload_inventory =
  wi_scope :: organization_workload_scope
  wi_organization_name :: string
  wi_observed_at :: instant
  wi_sites :: "site_summary list"
  wi_agents :: "agent_summary list"
  wi_devices :: "device_summary list"

definition INVENTORY_LIMIT :: int where
  "INVENTORY_LIMIT = 2000"

text \<open>\<^verbatim>\<open>MAX(received_at)\<close> over the joined publications of an Agent, NULL when there are none.\<close>

definition last_seen :: "gateway_db \<Rightarrow> string \<Rightarrow> instant option" where
  "last_seen db agent_id =
    (case map pb_received_at (filter (\<lambda>p. pb_agent_id p = agent_id) (publications db)) of
       [] \<Rightarrow> None | t # ts \<Rightarrow> Some (fold max ts t))"

definition health_state :: "instant \<Rightarrow> instant option \<Rightarrow> agent_health_state" where
  "health_state observed_at seen =
    (case seen of None \<Rightarrow> HealthAwaitingFirstContact
     | Some t \<Rightarrow> if t \<ge> observed_at - 2 * 60 * 1000000 then HealthOnline else HealthOffline)"

definition agent_summary_of :: "gateway_db \<Rightarrow> instant \<Rightarrow> agent_row \<Rightarrow> agent_summary gateway_result" where
  "agent_summary_of db observed_at row =
    and_then (AgentId_from_str (ag_agent_id row)) (\<lambda>agent_id.
    and_then (SiteId_from_str (ag_site_id row)) (\<lambda>site_id.
    Inr \<lparr>as_agent_id = agent_id, as_site_id = site_id,
      as_health = \<lparr>ah_state = health_state observed_at (last_seen db (ag_agent_id row)),
        ah_last_seen_at = last_seen db (ag_agent_id row)\<rparr>, as_enrolled_at = ag_enrolled_at row\<rparr>))"

definition device_summary_of :: "device_row \<Rightarrow> device_summary gateway_result" where
  "device_summary_of d =
    and_then (DeviceId_from_str (dv_device_id d)) (\<lambda>device_id.
    and_then (AgentId_from_str (dv_agent_id d)) (\<lambda>agent_id.
    and_then (SiteId_from_str (dv_site_id d)) (\<lambda>site_id.
    Inr \<lparr>ds_device_id = device_id, ds_agent_id = agent_id, ds_site_id = site_id, ds_kind = dv_kind d,
      ds_device_class = dv_device_class d, ds_display_name = dv_display_name d, ds_state = dv_state d,
      ds_transport = dv_transport d, ds_capabilities = dv_capabilities d, ds_last_seen_at = dv_last_seen_at d\<rparr>)))"

definition site_summary_of :: "agent_summary list \<Rightarrow> device_summary list \<Rightarrow> site_row \<Rightarrow> site_summary gateway_result" where
  "site_summary_of as ds row =
    and_then (SiteId_from_str (st_site_id row)) (\<lambda>site_id.
    Inr \<lparr>ss_site_id = site_id, ss_name = st_name row,
      ss_agent_count = word_of_nat (length (filter (\<lambda>a. site_str (as_site_id a) = st_site_id row) as)),
      ss_device_count = word_of_nat (length (filter (\<lambda>d. site_str (ds_site_id d) = st_site_id row) ds))\<rparr>)"

definition organization_agents :: "gateway_db \<Rightarrow> string \<Rightarrow> agent_row list" where
  "organization_agents db org = sort_key ag_agent_id (filter (\<lambda>a. ag_organization_id a = org) (agents db))"

definition organization_sites :: "gateway_db \<Rightarrow> string \<Rightarrow> site_row list" where
  "organization_sites db org = sort_key st_site_id (filter (\<lambda>s. st_organization_id s = org) (sites db))"

definition organization_devices :: "gateway_db \<Rightarrow> string \<Rightarrow> device_row list" where
  "organization_devices db org = sort_key (\<lambda>d. dv_agent_id d) (sort_key dv_device_id
    (filter (\<lambda>d. exists_where (\<lambda>a. ag_agent_id a = dv_agent_id d \<and> ag_organization_id a = org) (agents db)) (devices db)))"

text \<open>
  \<open>observed_at\<close> is the \<^verbatim>\<open>transaction_timestamp()\<close> of the read-only transaction; each query
  reads at most one row above the limit.  The order of the database is the order of the texts.
\<close>

definition limited :: "'a list \<Rightarrow> 'a list" where
  "limited rows = take (nat (INVENTORY_LIMIT + 1)) rows"

definition exceeds_limit :: "'a list \<Rightarrow> bool" where
  "exceeds_limit rows \<longleftrightarrow> int (length rows) > INVENTORY_LIMIT"

definition read_inventory :: "instant \<Rightarrow> organization_workload_scope \<Rightarrow> gateway_db \<Rightarrow> workload_inventory gateway_result" where
  "read_inventory observed_at scope db =
    (let org = organization_str (ows_organization_id scope) in
     and_then (ok_or (NotFound ''Organization was not found.'')
       (find_by org_organization_id org (organizations db))) (\<lambda>organization.
     let site_rows = limited (organization_sites db org);
         agent_rows = limited (organization_agents db org);
         device_rows = limited (organization_devices db org)
     in if exceeds_limit site_rows \<or> exceeds_limit agent_rows \<or> exceeds_limit device_rows then
          Inl (Capacity ''The Organization inventory exceeds the full synchronization limit.'')
        else
          and_then (try_map (agent_summary_of db observed_at) agent_rows) (\<lambda>as.
          and_then (try_map device_summary_of device_rows) (\<lambda>ds.
          and_then (try_map (site_summary_of as ds) site_rows) (\<lambda>ss.
          Inr \<lparr>wi_scope = scope, wi_organization_name = org_name organization, wi_observed_at = observed_at,
            wi_sites = ss, wi_agents = as, wi_devices = ds\<rparr>)))))"

text \<open>
  \<^verbatim>\<open>sites\<close> counts distinct keys over the rows that the two left joins on the site give.
\<close>

definition count_u64 :: "int \<Rightarrow> string \<Rightarrow> 64 word gateway_result" where
  "count_u64 v name = (if v < 0 then Inl (CorruptState (name @ '' is negative'')) else Inr (word_of_int v))"

definition site_counts :: "gateway_db \<Rightarrow> site_row \<Rightarrow> site_summary gateway_result" where
  "site_counts db row =
    and_then (SiteId_from_str (st_site_id row)) (\<lambda>site_id.
    and_then (count_u64 (int (length (remdups (map ag_agent_id
        (filter (\<lambda>a. ag_site_id a = st_site_id row) (agents db)))))) ''agent_count'') (\<lambda>agent_count.
    and_then (count_u64 (int (length (remdups (map (\<lambda>d. (dv_agent_id d, dv_device_id d))
        (filter (\<lambda>d. dv_site_id d = st_site_id row) (devices db)))))) ''device_count'') (\<lambda>device_count.
    Inr \<lparr>ss_site_id = site_id, ss_name = st_name row, ss_agent_count = agent_count,
      ss_device_count = device_count\<rparr>)))"

definition list_sites :: "organization_id \<Rightarrow> gateway_db \<Rightarrow> site_summary list gateway_result" where
  "list_sites organization_id db =
    try_map (site_counts db)
      (sort_key st_name (filter (\<lambda>s. st_organization_id s = organization_str organization_id) (sites db)))"

text \<open>The clock is read once for each row: \<open>clock i\<close> for the \<open>i\<close>-th.\<close>

definition list_agents :: "(nat \<Rightarrow> instant) \<Rightarrow> organization_id \<Rightarrow> site_id option \<Rightarrow> gateway_db \<Rightarrow>
    agent_summary list gateway_result" where
  "list_agents clock organization_id site_id db =
    try_map (\<lambda>(i, row). agent_summary_of db (clock i) row)
      (enumerate 0 (filter (\<lambda>a. case site_id of None \<Rightarrow> True | Some s \<Rightarrow> ag_site_id a = site_str s)
        (organization_agents db (organization_str organization_id))))"

definition list_devices :: "agent_id \<Rightarrow> gateway_db \<Rightarrow> device_summary list gateway_result" where
  "list_devices agent_id db =
    try_map device_summary_of
      (sort_key dv_display_name (filter (\<lambda>d. dv_agent_id d = agent_str agent_id) (devices db)))"

text \<open>The identifiers in the tables are ones that the parsers accept.\<close>

definition fleet_ids_ok :: "gateway_db \<Rightarrow> bool" where
  "fleet_ids_ok db \<longleftrightarrow>
    list_all (\<lambda>s. is_ok (SiteId_from_str (st_site_id s))) (sites db) \<and>
    list_all (\<lambda>a. is_ok (AgentId_from_str (ag_agent_id a)) \<and> is_ok (SiteId_from_str (ag_site_id a))) (agents db) \<and>
    list_all (\<lambda>d. is_ok (DeviceId_from_str (dv_device_id d)) \<and> is_ok (AgentId_from_str (dv_agent_id d)) \<and>
      is_ok (SiteId_from_str (dv_site_id d))) (devices db)"

text \<open>What an inventory shows of a site.\<close>

definition site_tally :: "gateway_db \<Rightarrow> string \<Rightarrow> site_row \<Rightarrow> string \<times> 64 word \<times> 64 word" where
  "site_tally db org s = (st_site_id s,
     word_of_nat (length (filter (\<lambda>a. ag_site_id a = st_site_id s) (organization_agents db org))),
     word_of_nat (length (filter (\<lambda>d. dv_site_id d = st_site_id s) (organization_devices db org))))"

section \<open>Lemmas\<close>

text \<open>\<^verbatim>\<open>last_seen_at\<close> is the latest publication of the Agent.\<close>

lemma fold_max_ge: "t \<le> fold max ts (t :: instant)"
proof (induction ts arbitrary: t)
  case (Cons u ts)
  have "max u t \<le> fold max ts (max u t)" by (rule Cons.IH)
  then show ?case by simp
qed simp

lemma fold_max_member: "u \<in> set ts \<Longrightarrow> u \<le> fold max ts (t :: instant)"
proof (induction ts arbitrary: t)
  case (Cons v ts)
  show ?case
  proof (cases "u = v")
    case True
    then show ?thesis using fold_max_ge [of "max v t" ts] by simp
  next
    case False
    then show ?thesis using Cons by simp
  qed
qed simp

lemma last_seen_latest:
  assumes "p \<in> set (publications db)" and "pb_agent_id p = agent_id"
  shows "\<exists>t. last_seen db agent_id = Some t \<and> pb_received_at p \<le> t"
proof -
  let ?ts = "map pb_received_at (filter (\<lambda>p. pb_agent_id p = agent_id) (publications db))"
  have "pb_received_at p \<in> set ?ts" using assms by auto
  then obtain t ts where ts: "?ts = t # ts" and "pb_received_at p = t \<or> pb_received_at p \<in> set ts"
    by (cases ?ts) auto
  then have "pb_received_at p \<le> fold max ts t" using fold_max_ge [of t ts] fold_max_member by auto
  then show ?thesis unfolding last_seen_def ts by simp
qed

text \<open>An Agent that published within the last two minutes is online.\<close>

lemma recent_publication_online:
  assumes "p \<in> set (publications db)" and "pb_agent_id p = ag_agent_id row"
    and "observed_at - 2 * 60 * 1000000 \<le> pb_received_at p" and "agent_summary_of db observed_at row = Inr a"
  shows "ah_state (as_health a) = HealthOnline"
proof -
  obtain t where "last_seen db (ag_agent_id row) = Some t" "pb_received_at p \<le> t" using last_seen_latest [OF assms(1,2)] by blast
  then show ?thesis using assms(3,4) by (auto simp: agent_summary_of_def and_then_eq_Inr health_state_def)
qed

lemma limited_all: "\<not> exceeds_limit xs \<Longrightarrow> limited xs = xs"
  by (simp add: exceeds_limit_def limited_def INVENTORY_LIMIT_def)

lemma exceeds_limited [simp]: "exceeds_limit (limited xs) = exceeds_limit xs"
  by (auto simp: exceeds_limit_def limited_def INVENTORY_LIMIT_def)

lemma exceeds_limit_sort [simp]: "exceeds_limit (sort_key f xs) = exceeds_limit xs"
  by (simp add: exceeds_limit_def)

text \<open>Every row of a well-formed table has a summary, with the identifiers of the row.\<close>

lemma agent_summary_of_total:
  assumes "fleet_ids_ok db" and "row \<in> set (agents db)"
  shows "\<exists>a. agent_summary_of db t row = Inr a \<and> agent_str (as_agent_id a) = ag_agent_id row \<and>
    site_str (as_site_id a) = ag_site_id row"
  using assms by (auto simp: fleet_ids_ok_def list_all_iff is_ok_iff agent_summary_of_def
      dest!: bspec dest: AgentId.exact SiteId.exact)

lemma device_summary_of_total:
  assumes "fleet_ids_ok db" and "row \<in> set (devices db)"
  shows "\<exists>d. device_summary_of row = Inr d \<and> agent_str (ds_agent_id d) = dv_agent_id row \<and>
    device_str (ds_device_id d) = dv_device_id row \<and> site_str (ds_site_id d) = dv_site_id row"
  using assms by (auto simp: fleet_ids_ok_def list_all_iff is_ok_iff device_summary_of_def
      dest!: bspec dest: AgentId.exact SiteId.exact DeviceId.exact)

text \<open>A total conversion keeps every observation on the rows.\<close>

lemma try_map_keeps:
  assumes "\<And>x. x \<in> set xs \<Longrightarrow> \<exists>y. f x = Inr y \<and> g y = h x"
  shows "\<exists>ys. try_map f xs = Inr ys \<and> map g ys = map h xs"
  using assms by (induction xs) (simp, fastforce)

lemma length_filter_map: "length (filter (\<lambda>x. P (g x)) xs) = length (filter P (map g xs))"
  by (simp add: filter_map comp_def)

text \<open>The lists of the inventory have the identifiers of the rows, and the sites their tallies.\<close>

lemma inventory_agents:
  assumes "fleet_ids_ok db"
  shows "\<exists>as. try_map (agent_summary_of db t) (organization_agents db org) = Inr as \<and>
    map (\<lambda>a. (agent_str (as_agent_id a), site_str (as_site_id a))) as =
    map (\<lambda>a. (ag_agent_id a, ag_site_id a)) (organization_agents db org)"
  using agent_summary_of_total [OF assms] by (intro try_map_keeps) (fastforce simp: organization_agents_def)

lemma inventory_devices:
  assumes "fleet_ids_ok db"
  shows "\<exists>ds. try_map device_summary_of (organization_devices db org) = Inr ds \<and>
    map (\<lambda>d. (agent_str (ds_agent_id d), device_str (ds_device_id d), site_str (ds_site_id d))) ds =
    map (\<lambda>d. (dv_agent_id d, dv_device_id d, dv_site_id d)) (organization_devices db org)"
  using device_summary_of_total [OF assms] by (intro try_map_keeps) (fastforce simp: organization_devices_def)

lemma inventory_sites:
  assumes ids: "fleet_ids_ok db"
    and as: "map (\<lambda>a. (agent_str (as_agent_id a), site_str (as_site_id a))) as =
      map (\<lambda>a. (ag_agent_id a, ag_site_id a)) (organization_agents db org)"
    and ds: "map (\<lambda>d. (agent_str (ds_agent_id d), device_str (ds_device_id d), site_str (ds_site_id d))) ds =
      map (\<lambda>d. (dv_agent_id d, dv_device_id d, dv_site_id d)) (organization_devices db org)"
  shows "\<exists>ss. try_map (site_summary_of as ds) (organization_sites db org) = Inr ss \<and>
    map (\<lambda>s. (site_str (ss_site_id s), ss_agent_count s, ss_device_count s)) ss =
    map (site_tally db org) (organization_sites db org)"
proof -
  have sites: "map (\<lambda>a. site_str (as_site_id a)) as = map ag_site_id (organization_agents db org)"
      "map (\<lambda>d. site_str (ds_site_id d)) ds = map dv_site_id (organization_devices db org)"
    using arg_cong [OF as, of "map snd"] arg_cong [OF ds, of "map (\<lambda>x. snd (snd x))"] by (simp_all add: comp_def)
  have counts: "length (filter (\<lambda>a. site_str (as_site_id a) = s) as) =
        length (filter (\<lambda>a. ag_site_id a = s) (organization_agents db org))"
      "length (filter (\<lambda>d. site_str (ds_site_id d) = s) ds) =
        length (filter (\<lambda>d. dv_site_id d = s) (organization_devices db org))" for s
    using length_filter_map [of "\<lambda>x. x = s" "\<lambda>a. site_str (as_site_id a)" as]
      length_filter_map [of "\<lambda>x. x = s" ag_site_id "organization_agents db org"]
      length_filter_map [of "\<lambda>x. x = s" "\<lambda>d. site_str (ds_site_id d)" ds]
      length_filter_map [of "\<lambda>x. x = s" dv_site_id "organization_devices db org"] by (simp_all only: sites)
  show ?thesis
    using ids by (intro try_map_keeps) (auto simp: organization_sites_def fleet_ids_ok_def list_all_iff is_ok_iff
        site_summary_of_def site_tally_def counts dest!: bspec dest: SiteId.exact)
qed

section \<open>Properties\<close>



end
