(* ===== verification/Router_Policy.thy ===== *)
theory Router_Policy
  imports Protocol
begin

text \<open>
  The Router's signed policy and the access control generated from it
  (\<^verbatim>\<open>inari-router/src/policy.rs\<close>, \<^verbatim>\<open>acl.rs\<close>, \<^verbatim>\<open>error.rs\<close>).  A policy lists the trusted
  peers and the admitted Agents of one fleet with a lifetime of at most five minutes; the
  Router configuration rendered from it gives each Agent six rules inside its own namespace.
  Ed25519, SHA-256, hexadecimal and canonical JSON are arguments, as is the configuration
  parser of Zenoh.
\<close>

section \<open>Definitions\<close>

datatype router_error =
    InvalidPolicy string
  | InvalidSignature
  | NotCurrent
  | GenerationConflict
  | NotReady string
  | RouterUnavailable
  | RouterIo string
  | RouterJson string

type_synonym 'a router_result = "router_error + 'a"

subsection \<open>Policies\<close>

definition SIGNATURE_DOMAIN :: bytes where
  "SIGNATURE_DOMAIN = ''inari.router-policy.v1'' @ [CHR 0x0A]"

definition MAX_AGENTS :: nat where
  "MAX_AGENTS = 10000"

record agent_admission =
  aa_common_name :: string
  aa_namespace :: string

record policy =
  po_version :: "8 word"
  po_fleet_id :: string
  po_generation :: "64 word"
  po_issued_at :: instant
  po_not_before :: instant
  po_expires_at :: instant
  po_namespace_prefix :: string
  po_trusted_peer_common_names :: "string list"
  po_agents :: "agent_admission list"

record signed_policy =
  sp_policy :: policy
  sp_signature :: string

record verified_policy =
  vp_signed :: signed_policy
  vp_digest :: string

abbreviation vp_policy :: "verified_policy \<Rightarrow> policy" where
  "vp_policy v \<equiv> sp_policy (vp_signed v)"

record router_crypto =
  rc_is_weak :: "bytes \<Rightarrow> bool"
  rc_hex_encode :: "bytes \<Rightarrow> string"
  rc_hex_decode :: "string \<Rightarrow> bytes option"
  rc_signature_from_slice :: "bytes \<Rightarrow> bytes option"
  rc_sign :: "bytes \<Rightarrow> bytes \<Rightarrow> bytes"
  rc_verify_strict :: "bytes \<Rightarrow> bytes \<Rightarrow> bytes \<Rightarrow> bool"
  rc_sha256 :: "bytes \<Rightarrow> bytes"
  rc_canonical :: "policy \<Rightarrow> string + bytes"

definition invalid :: "string \<Rightarrow> 'a router_result" where
  "invalid message = Inl (InvalidPolicy message)"

definition starts_with :: "string \<Rightarrow> string \<Rightarrow> bool" where
  "starts_with value p \<longleftrightarrow> strip_prefix p value \<noteq> None"

definition agent_name :: "string \<Rightarrow> bool" where
  "agent_name value = (case strip_prefix ''agt_'' value of None \<Rightarrow> False
    | Some rest \<Rightarrow> length rest = 24 \<and>
        list_all (\<lambda>byte. is_ascii_digit byte \<or> byte \<in> set ''abcdef'') rest)"

definition literal_name :: "string \<Rightarrow> bool" where
  "literal_name value \<longleftrightarrow> value \<noteq> [] \<and> length value \<le> 128 \<and>
    list_all (\<lambda>byte. is_ascii_alphanumeric byte \<or> byte \<in> set ''-_.'') value"

definition literal_namespace :: "string \<Rightarrow> bool" where
  "literal_namespace value \<longleftrightarrow> length value \<le> 256 \<and>
    list_all (\<lambda>segment. segment \<noteq> [] \<and> segment \<noteq> ''.'' \<and> segment \<noteq> ''..'' \<and> literal_name segment)
      (split_on CHR ''/'' value)"

text \<open>One iteration of each loop of \<^verbatim>\<open>Policy::validate\<close>; \<open>subjects\<close> is the set of names seen.\<close>

definition admit_peer :: "string \<Rightarrow> string list \<Rightarrow> string list router_result" where
  "admit_peer peer subjects =
    (if \<not> literal_name peer \<or> starts_with peer ''agt_'' \<or> peer \<in> set subjects
     then invalid ''trusted peer common names must be distinct literal names''
     else Inr (peer # subjects))"

definition admit_agent :: "string \<Rightarrow> agent_admission \<Rightarrow> string list \<Rightarrow> string list router_result" where
  "admit_agent namespace_prefix agent subjects =
    (if \<not> agent_name (aa_common_name agent) \<or> aa_common_name agent \<in> set subjects \<or>
        aa_namespace agent \<noteq> namespace_prefix @ ''/'' @ aa_common_name agent
     then invalid ''each Agent requires its own common name and exact namespace''
     else Inr (aa_common_name agent # subjects))"

definition Policy_validate :: "policy \<Rightarrow> unit router_result" where
  "Policy_validate p =
    (if po_version p \<noteq> 1 \<or> \<not> (1 \<le> po_generation p \<and> po_generation p \<le> 9007199254740991) \<or>
        \<not> literal_name (po_fleet_id p) then
       invalid ''version, fleet_id, or generation is invalid''
     else
       let lifetime = po_expires_at p - po_issued_at p in
       if po_issued_at p > po_not_before p \<or> po_not_before p \<ge> po_expires_at p \<or>
          lifetime \<le> 0 \<or> lifetime > 5 * 60 * 1000000 then
         invalid ''policy times must fit within five minutes''
       else if \<not> literal_namespace (po_namespace_prefix p) then
         invalid ''namespace_prefix must contain only literal path segments''
       else if po_trusted_peer_common_names p = [] \<or> length (po_trusted_peer_common_names p) > 64 \<or>
          length (po_agents p) > MAX_AGENTS then
         invalid ''the Agent or trusted peer count is invalid''
       else
         and_then (try_fold admit_peer (po_trusted_peer_common_names p) []) (\<lambda>subjects.
         and_then (try_fold (admit_agent (po_namespace_prefix p)) (po_agents p) subjects) (\<lambda>_.
         Inr ())))"

definition canonical :: "router_crypto \<Rightarrow> policy \<Rightarrow> bytes router_result" where
  "canonical crypto p = map_err RouterJson (rc_canonical crypto p)"

definition signature_input :: "router_crypto \<Rightarrow> policy \<Rightarrow> bytes router_result" where
  "signature_input crypto p = and_then (canonical crypto p) (\<lambda>bytes. Inr (SIGNATURE_DOMAIN @ bytes))"

definition SignedPolicy_sign :: "router_crypto \<Rightarrow> policy \<Rightarrow> bytes \<Rightarrow> signed_policy router_result" where
  "SignedPolicy_sign crypto p key =
    and_then (Policy_validate p) (\<lambda>_.
    and_then (signature_input crypto p) (\<lambda>input.
    Inr \<lparr>sp_policy = p, sp_signature = rc_hex_encode crypto (rc_sign crypto key input)\<rparr>))"

definition SignedPolicy_verify ::
    "router_crypto \<Rightarrow> bytes \<Rightarrow> string \<Rightarrow> signed_policy \<Rightarrow> verified_policy router_result" where
  "SignedPolicy_verify crypto key fleet_id signed_policy =
    and_then (Policy_validate (sp_policy signed_policy)) (\<lambda>_.
    if rc_is_weak crypto key \<or> po_fleet_id (sp_policy signed_policy) \<noteq> fleet_id then Inl InvalidSignature
    else
      and_then (ok_or InvalidSignature (rc_hex_decode crypto (sp_signature signed_policy))) (\<lambda>raw.
      and_then (ok_or InvalidSignature (rc_signature_from_slice crypto raw)) (\<lambda>signature.
      and_then (signature_input crypto (sp_policy signed_policy)) (\<lambda>input.
      if \<not> rc_verify_strict crypto key input signature then Inl InvalidSignature
      else
        and_then (canonical crypto (sp_policy signed_policy)) (\<lambda>bytes.
        Inr \<lparr>vp_signed = signed_policy, vp_digest = rc_hex_encode crypto (rc_sha256 crypto bytes)\<rparr>)))))"

definition has_same_authority :: "verified_policy \<Rightarrow> verified_policy \<Rightarrow> bool" where
  "has_same_authority v w \<longleftrightarrow> (let p = vp_policy v; q = vp_policy w in
    po_version p = po_version q \<and> po_fleet_id p = po_fleet_id q \<and>
    po_namespace_prefix p = po_namespace_prefix q \<and>
    po_trusted_peer_common_names p = po_trusted_peer_common_names q \<and> po_agents p = po_agents q)"

definition require_current :: "verified_policy \<Rightarrow> instant \<Rightarrow> unit router_result" where
  "require_current v now =
    (if po_not_before (vp_policy v) > now \<or> po_expires_at (vp_policy v) \<le> now then Inl NotCurrent
     else Inr ())"

definition advances :: "verified_policy \<Rightarrow> verified_policy \<Rightarrow> bool router_result" where
  "advances v previous =
    (if po_generation (vp_policy v) > po_generation (vp_policy previous) then Inr True
     else if po_generation (vp_policy v) = po_generation (vp_policy previous) \<and>
        vp_digest v = vp_digest previous then Inr False
     else Inl GenerationConflict)"

subsection \<open>The rendered configuration\<close>

record router_config =
  cf_id :: string
  cf_listen_endpoint :: string
  cf_probe_endpoint :: string
  cf_peer_endpoints :: "string list"
  cf_root_ca_file :: string
  cf_certificate_file :: string
  cf_private_key_file :: string
  cf_probe_certificate_file :: string
  cf_probe_private_key_file :: string

definition is_ascii_hexdigit :: "char \<Rightarrow> bool" where
  "is_ascii_hexdigit c \<longleftrightarrow> is_ascii_digit c \<or> c \<in> set ''abcdefABCDEF''"

definition endpoint_ok :: "string \<Rightarrow> bool" where
  "endpoint_ok endpoint \<longleftrightarrow> starts_with endpoint ''tls/'' \<and> length endpoint \<le> 512 \<and>
    list_all (\<lambda>c. c \<notin> {CHR ''#'', CHR ''?'', CHR 0x0A, CHR 0x0D}) endpoint"

definition RouterConfig_validate :: "router_config \<Rightarrow> unit router_result" where
  "RouterConfig_validate c =
    (if length (cf_id c) \<noteq> 32 \<or> list_all (\<lambda>byte. byte = CHR ''0'') (cf_id c) \<or>
        \<not> list_all is_ascii_hexdigit (cf_id c) then
       Inl (InvalidPolicy ''Router id must contain 32 hexadecimal digits'')
     else if \<not> list_all endpoint_ok (cf_listen_endpoint c # cf_probe_endpoint c # cf_peer_endpoints c) then
       Inl (InvalidPolicy ''Router endpoints must use TLS without endpoint overrides'')
     else Inr ())"

record acl_rule =
  ar_id :: string
  ar_messages :: "string list"
  ar_flows :: "string list"
  ar_permission :: string
  ar_key_exprs :: "string list"

definition acl_rule_of :: "string \<Rightarrow> string list \<Rightarrow> string list \<Rightarrow> string list \<Rightarrow> acl_rule" where
  "acl_rule_of identity messages flows key_exprs =
    \<lparr>ar_id = identity, ar_messages = messages, ar_flows = flows, ar_permission = ''allow'', ar_key_exprs = key_exprs\<rparr>"

record acl_subject =
  as_id :: string
  as_cert_common_names :: "string list"

record acl_policy =
  ap_id :: string
  ap_rules :: "string list"
  ap_subjects :: "string list"

text \<open>The table of an Agent's rules: name, messages, flows and the paths below its namespace.\<close>

definition agent_definitions :: "(string \<times> string list \<times> string list \<times> string list) list" where
  "agent_definitions =
    [(''publications'', [''put''], [''ingress''],
       [''presence/agent'', ''status/latest'', ''results/*'', ''events/*'', ''errors/*'']),
     (''presence'', [''liveliness_token''], [''ingress''], [''presence/agent'']),
     (''subscription'', [''declare_subscriber''], [''ingress''], [''commands/live/**'']),
     (''delivery'', [''put''], [''egress''], [''commands/live/**'']),
     (''query'', [''query''], [''ingress''], [''commands/history'', ''state/commit'']),
     (''reply'', [''reply'', ''declare_queryable''], [''egress''], [''commands/history'', ''state/commit''])]"

definition rule_id :: "string \<Rightarrow> string \<Rightarrow> string" where
  "rule_id name part = name @ ''-'' @ part"

definition agent_rules :: "agent_admission \<Rightarrow> acl_rule list" where
  "agent_rules agent =
    map (\<lambda>(part, messages, flows, paths). acl_rule_of (rule_id (aa_common_name agent) part) messages flows
      (map (\<lambda>path. aa_namespace agent @ ''/'' @ path) paths)) agent_definitions"

definition trusted_rule :: "policy \<Rightarrow> acl_rule" where
  "trusted_rule p = acl_rule_of ''trusted-authority''
    [''put'', ''delete'', ''declare_subscriber'', ''query'', ''reply'', ''declare_queryable'',
     ''liveliness_token'', ''liveliness_query'', ''declare_liveliness_subscriber'']
    [''ingress'', ''egress''] [po_namespace_prefix p @ ''/**'']"

definition acl_rules :: "policy \<Rightarrow> acl_rule list" where
  "acl_rules p = trusted_rule p # concat (map agent_rules (po_agents p))"

definition acl_subjects :: "policy \<Rightarrow> acl_subject list" where
  "acl_subjects p =
    \<lparr>as_id = ''trusted-peers'', as_cert_common_names = po_trusted_peer_common_names p\<rparr> #
    map (\<lambda>agent. \<lparr>as_id = aa_common_name agent, as_cert_common_names = [aa_common_name agent]\<rparr>) (po_agents p)"

definition acl_policies :: "policy \<Rightarrow> acl_policy list" where
  "acl_policies p =
    \<lparr>ap_id = ''trusted-authority'', ap_rules = [''trusted-authority''], ap_subjects = [''trusted-peers'']\<rparr> #
    map (\<lambda>agent. \<lparr>ap_id = aa_common_name agent, ap_rules = map ar_id (agent_rules agent),
      ap_subjects = [aa_common_name agent]\<rparr>) (po_agents p)"

definition texts :: "string list \<Rightarrow> structured_value" where
  "texts values = SList (map SText values)"

definition rule_json :: "acl_rule \<Rightarrow> structured_value" where
  "rule_json r = SObject [(''id'', SText (ar_id r)), (''messages'', texts (ar_messages r)),
    (''flows'', texts (ar_flows r)), (''permission'', SText (ar_permission r)), (''key_exprs'', texts (ar_key_exprs r))]"

definition subject_json :: "acl_subject \<Rightarrow> structured_value" where
  "subject_json s = SObject [(''id'', SText (as_id s)), (''link_protocols'', texts [''tls'']),
    (''cert_common_names'', texts (as_cert_common_names s))]"

definition policy_json :: "acl_policy \<Rightarrow> structured_value" where
  "policy_json q = SObject [(''id'', SText (ap_id q)), (''rules'', texts (ap_rules q)), (''subjects'', texts (ap_subjects q))]"

definition access_control :: "verified_policy \<Rightarrow> structured_value" where
  "access_control verified = (let p = vp_policy verified in
    SObject [(''enabled'', SBoolean True), (''default_permission'', SText ''deny''),
      (''rules'', SList (map rule_json (acl_rules p))), (''subjects'', SList (map subject_json (acl_subjects p))),
      (''policies'', SList (map policy_json (acl_policies p)))])"

definition RouterConfig_render ::
    "(structured_value \<Rightarrow> string option) \<Rightarrow> router_config \<Rightarrow> verified_policy \<Rightarrow> structured_value router_result" where
  "RouterConfig_render zenoh_config_error c verified =
    and_then (RouterConfig_validate c) (\<lambda>_.
    let off = SObject [(''enabled'', SBoolean False)];
        value = SObject
         [(''id'', SText (cf_id c)), (''mode'', SText ''router''),
          (''listen'', SObject [(''endpoints'', texts [cf_listen_endpoint c])]),
          (''connect'', SObject [(''endpoints'', texts (cf_peer_endpoints c)), (''exit_on_failure'', SBoolean False)]),
          (''scouting'', SObject [(''multicast'', off), (''gossip'', off)]),
          (''adminspace'', off), (''plugins_loading'', off),
          (''transport'', SObject [(''link'', SObject [(''tls'', SObject
            [(''root_ca_certificate'', SText (cf_root_ca_file c)),
             (''listen_certificate'', SText (cf_certificate_file c)),
             (''listen_private_key'', SText (cf_private_key_file c)),
             (''connect_certificate'', SText (cf_certificate_file c)),
             (''connect_private_key'', SText (cf_private_key_file c)),
             (''enable_mtls'', SBoolean True), (''verify_name_on_connect'', SBoolean True),
             (''close_link_on_expiration'', SBoolean True)])])]),
          (''access_control'', access_control verified)]
    in case zenoh_config_error value of
         Some message \<Rightarrow> Inl (InvalidPolicy message)
       | None \<Rightarrow> Inr value)"

text \<open>
  What a configuration grants to the holder of a certificate: some policy names a subject
  with that common name and an allowing rule for the message, the flow and the key.  Whether a
  key expression matches a key is Zenoh's decision.
\<close>

definition granted ::
    "(string \<Rightarrow> string \<Rightarrow> bool) \<Rightarrow> policy \<Rightarrow> string \<Rightarrow> string \<Rightarrow> string \<Rightarrow> string \<Rightarrow> bool" where
  "granted matches p common_name message flow key \<longleftrightarrow>
    (\<exists>q \<in> set (acl_policies p).
      (\<exists>s \<in> set (acl_subjects p). as_id s \<in> set (ap_subjects q) \<and> common_name \<in> set (as_cert_common_names s)) \<and>
      (\<exists>r \<in> set (acl_rules p). ar_id r \<in> set (ap_rules q) \<and> message \<in> set (ar_messages r) \<and>
        flow \<in> set (ar_flows r) \<and> (\<exists>e \<in> set (ar_key_exprs r). matches e key)))"

definition in_namespace :: "string \<Rightarrow> string \<Rightarrow> bool" where
  "in_namespace namespace key \<longleftrightarrow> key = namespace \<or> starts_with key (namespace @ ''/'')"

section \<open>Lemmas\<close>

lemma starts_with_iff: "starts_with value p \<longleftrightarrow> (\<exists>r. value = p @ r)"
  by (auto simp: starts_with_def strip_prefix_None_iff)

lemma agent_name_iff:
  "agent_name value \<longleftrightarrow> (\<exists>rest. value = ''agt_'' @ rest \<and> length rest = 24 \<and>
    list_all (\<lambda>byte. is_ascii_digit byte \<or> byte \<in> set ''abcdef'') rest)"
proof (cases "strip_prefix ''agt_'' value")
  case None
  then show ?thesis using strip_prefix_None_iff [of "''agt_''" "value"] by (auto simp: agent_name_def)
next
  case (Some rest)
  then have "agent_name value \<longleftrightarrow> length rest = 24 \<and>
      list_all (\<lambda>byte. is_ascii_digit byte \<or> byte \<in> set ''abcdef'') rest"
    unfolding agent_name_def by (simp only: option.case)
  moreover have "value = ''agt_'' @ rest" using Some by (simp only: strip_prefix_Some_iff)
  ultimately show ?thesis by simp
qed

lemma agent_name_length: "agent_name value \<Longrightarrow> length value = 28"
  by (auto simp: agent_name_iff)

lemma agent_name_prefix: "agent_name value \<Longrightarrow> starts_with value ''agt_''"
  by (auto simp: agent_name_iff starts_with_iff)

lemma wildcard_bytes [simp]:
  "\<not> is_ascii_digit CHR ''*''" "\<not> is_ascii_digit CHR ''$''" "\<not> is_ascii_digit CHR ''/''"
  "\<not> is_ascii_alphanumeric CHR ''*''" "\<not> is_ascii_alphanumeric CHR ''$''"
  by code_simp+

lemma agent_name_literal:
  assumes "agent_name value"
  shows "set value \<inter> {CHR ''*'', CHR ''$'', CHR ''/''} = {}"
proof -
  obtain rest where rest: "value = ''agt_'' @ rest" and
      "list_all (\<lambda>byte. is_ascii_digit byte \<or> byte \<in> set ''abcdef'') rest"
    using assms unfolding agent_name_iff by blast
  then have "c \<notin> set rest" if "c \<in> {CHR ''*'', CHR ''$'', CHR ''/''}" for c
    using that wildcard_bytes(1-3) by (force simp: list_all_iff)
  then show ?thesis using rest by simp
qed

lemma admit_peers_Inr:
  assumes "try_fold admit_peer peers seen = Inr subjects"
  shows "set subjects = set seen \<union> set peers \<and> list_all (\<lambda>peer. \<not> starts_with peer ''agt_'') peers"
  using assms by (induction peers arbitrary: seen) (auto simp: admit_peer_def invalid_def and_then_eq_Inr split: if_splits)

lemma admit_agent_Inr:
  "admit_agent ns a seen = Inr subjects \<longleftrightarrow> agent_name (aa_common_name a) \<and> aa_common_name a \<notin> set seen \<and>
    aa_namespace a = ns @ ''/'' @ aa_common_name a \<and> subjects = aa_common_name a # seen"
  by (auto simp: admit_agent_def invalid_def)

lemma admit_agents_Inr:
  assumes "try_fold (admit_agent ns) as seen = Inr subjects"
  shows "distinct (map aa_common_name as) \<and> set (map aa_common_name as) \<inter> set seen = {} \<and>
    list_all (\<lambda>a. agent_name (aa_common_name a) \<and> aa_namespace a = ns @ ''/'' @ aa_common_name a) as"
  using assms
proof (induction as arbitrary: seen)
  case (Cons a as)
  have "agent_name (aa_common_name a)" "aa_common_name a \<notin> set seen" "aa_namespace a = ns @ ''/'' @ aa_common_name a"
    "try_fold (admit_agent ns) as (aa_common_name a # seen) = Inr subjects"
    using Cons.prems by (auto simp: admit_agent_Inr and_then_eq_Inr)
  with Cons.IH [OF this(4)] show ?case by auto
qed simp

text \<open>What every valid policy has.\<close>

lemma Policy_validate_Inr:
  assumes "Policy_validate p = Inr ()"
  shows "literal_namespace (po_namespace_prefix p)" "distinct (map aa_common_name (po_agents p))"
    "\<And>a. a \<in> set (po_agents p) \<Longrightarrow> agent_name (aa_common_name a) \<and>
      aa_namespace a = po_namespace_prefix p @ ''/'' @ aa_common_name a"
    "\<And>peer. peer \<in> set (po_trusted_peer_common_names p) \<Longrightarrow> \<not> starts_with peer ''agt_''"
proof -
  have *: "literal_namespace (po_namespace_prefix p) \<and>
      (\<exists>subjects. try_fold admit_peer (po_trusted_peer_common_names p) [] = Inr subjects \<and>
        (\<exists>s. try_fold (admit_agent (po_namespace_prefix p)) (po_agents p) subjects = Inr s))"
    using assms by (simp add: Policy_validate_def invalid_def Let_def and_then_eq_Inr split: if_splits)
  then show "literal_namespace (po_namespace_prefix p)" by blast
  from * obtain subjects s where peers: "try_fold admit_peer (po_trusted_peer_common_names p) [] = Inr subjects"
      and agents: "try_fold (admit_agent (po_namespace_prefix p)) (po_agents p) subjects = Inr s"
    by blast
  show "distinct (map aa_common_name (po_agents p))"
    and "\<And>a. a \<in> set (po_agents p) \<Longrightarrow> agent_name (aa_common_name a) \<and>
      aa_namespace a = po_namespace_prefix p @ ''/'' @ aa_common_name a"
    using admit_agents_Inr [OF agents] by (auto simp: list_all_iff)
  show "\<And>peer. peer \<in> set (po_trusted_peer_common_names p) \<Longrightarrow> \<not> starts_with peer ''agt_''"
    using admit_peers_Inr [OF peers] by (auto simp: list_all_iff)
qed

lemma split_on_chars: "set s \<subseteq> insert d (\<Union> (set ` set (split_on d s)))"
proof (induction s)
  case (Cons c s)
  obtain q qs where q: "split_on d s = q # qs" by (cases "split_on d s") auto
  then show ?case using Cons.IH by (cases "c = d") auto
qed simp

lemma literal_namespace_literal:
  assumes "literal_namespace ns"
  shows "set ns \<inter> {CHR ''*'', CHR ''$''} = {}"
proof -
  have "c \<notin> {CHR ''*'', CHR ''$''}" if "c \<in> set ns" for c
  proof -
    consider "c = CHR ''/''" | segment where "segment \<in> set (split_on CHR ''/'' ns)" "c \<in> set segment"
      using split_on_chars [of ns "CHR ''/''"] \<open>c \<in> set ns\<close> by auto
    then show ?thesis
    proof cases
      case 2
      then have "is_ascii_alphanumeric c \<or> c \<in> set ''-_.''"
        using assms by (auto simp: literal_namespace_def literal_name_def list_all_iff)
      then show ?thesis
        by (auto simp: is_ascii_alphanumeric_def is_ascii_lowercase_def is_ascii_uppercase_def is_ascii_digit_def
           )
    qed simp
  qed
  then show ?thesis by blast
qed

lemma rule_id_eq:
  assumes "rule_id name part = rule_id name' part'" and "agent_name name" and "agent_name name'"
  shows "name = name' \<and> part = part'"
  using assms agent_name_length by (simp add: rule_id_def append_eq_append_conv)

lemma not_agent_names: "\<not> agent_name ''trusted-peers''" "\<not> agent_name ''trusted-authority''"
  "agent_name name \<Longrightarrow> rule_id name part \<noteq> ''trusted-authority''"
  by (auto simp: agent_name_iff rule_id_def)

lemma agent_rules_member:
  assumes "r \<in> set (agent_rules a)"
  obtains part where "ar_id r = rule_id (aa_common_name a) part"
    and "\<forall>e \<in> set (ar_key_exprs r). \<exists>path. e = aa_namespace a @ ''/'' @ path"
proof -
  obtain part ms fs paths where "r = acl_rule_of (rule_id (aa_common_name a) part) ms fs
      (map (\<lambda>path. aa_namespace a @ ''/'' @ path) paths)"
    using assms by (auto simp: agent_rules_def)
  then show ?thesis by (intro that [of part]) (auto simp: acl_rule_of_def)
qed

lemma granted_own_rules:
  assumes "Policy_validate p = Inr ()" and "a \<in> set (po_agents p)"
    and "granted matches p (aa_common_name a) message flow key"
  shows "\<exists>path. matches (aa_namespace a @ ''/'' @ path) key"
proof -
  note valid = Policy_validate_Inr [OF assms(1)]
  have name: "agent_name (aa_common_name b)" if "b \<in> set (po_agents p)" for b using valid(3) that by blast
  obtain q s r e where q: "q \<in> set (acl_policies p)" and s: "s \<in> set (acl_subjects p)" "as_id s \<in> set (ap_subjects q)"
      "aa_common_name a \<in> set (as_cert_common_names s)"
      and r: "r \<in> set (acl_rules p)" "ar_id r \<in> set (ap_rules q)" "e \<in> set (ar_key_exprs r)" "matches e key"
    using assms(3) unfolding granted_def by blast
  have "aa_common_name a \<notin> set (po_trusted_peer_common_names p)"
    using valid(4) agent_name_prefix [OF name [OF assms(2)]] by blast
  then have sid: "as_id s = aa_common_name a" using s(1,3) by (auto simp: acl_subjects_def)
  then obtain c where c: "c \<in> set (po_agents p)" "ap_rules q = map ar_id (agent_rules c)"
      "aa_common_name c = aa_common_name a"
    using q s(2) not_agent_names(1) name [OF assms(2)] by (auto simp: acl_policies_def)
  then have "c = a" using valid(2) assms(2) by (auto simp: distinct_map dest: inj_onD)
  then obtain t where t: "t \<in> set (agent_rules a)" "ar_id r = ar_id t" using r(2) c(2) by auto
  obtain part where part: "ar_id t = rule_id (aa_common_name a) part" by (rule agent_rules_member [OF t(1)])
  have "ar_id r \<noteq> ''trusted-authority''"
    using t(2) part not_agent_names(3) [OF name [OF assms(2)]] by simp
  then have "r \<noteq> trusted_rule p" by (auto simp: trusted_rule_def acl_rule_of_def)
  then obtain d where d: "d \<in> set (po_agents p)" "r \<in> set (agent_rules d)" using r(1) by (auto simp: acl_rules_def)
  obtain part' where part': "ar_id r = rule_id (aa_common_name d) part'"
      and exprs: "\<forall>e \<in> set (ar_key_exprs r). \<exists>path. e = aa_namespace d @ ''/'' @ path"
    by (rule agent_rules_member [OF d(2)])
  have "rule_id (aa_common_name d) part' = rule_id (aa_common_name a) part"
    using part part' t(2) by metis
  then have "aa_common_name d = aa_common_name a"
    using rule_id_eq name [OF d(1)] name [OF assms(2)] by blast
  then have "d = a" using valid(2) assms(2) d(1) by (auto simp: distinct_map dest: inj_onD)
  then show ?thesis using exprs r(3,4) by auto
qed

lemma distinct_rule_ids:
  assumes "distinct (map aa_common_name as)" and "\<forall>a \<in> set as. agent_name (aa_common_name a)"
  shows "distinct (concat (map (\<lambda>a. map ar_id (agent_rules a)) as))"
  using assms
proof (induction as)
  case (Cons a as)
  have own: "distinct (map ar_id (agent_rules a))"
    by (simp add: agent_rules_def agent_definitions_def acl_rule_of_def rule_id_def)
  have "ar_id ` set (agent_rules a) \<inter> ar_id ` set (agent_rules b) = {}" if b: "b \<in> set as" for b
  proof (rule ccontr)
    assume "ar_id ` set (agent_rules a) \<inter> ar_id ` set (agent_rules b) \<noteq> {}"
    then obtain r t where rt: "r \<in> set (agent_rules a)" "t \<in> set (agent_rules b)" "ar_id r = ar_id t" by auto
    obtain x where x: "ar_id r = rule_id (aa_common_name a) x" by (rule agent_rules_member [OF rt(1)])
    obtain y where y: "ar_id t = rule_id (aa_common_name b) y" by (rule agent_rules_member [OF rt(2)])
    have "rule_id (aa_common_name a) x = rule_id (aa_common_name b) y" using x y rt(3) by metis
    from rule_id_eq [OF this] have "aa_common_name a = aa_common_name b" using Cons.prems(2) b by simp
    then show False using Cons.prems(1) b by auto
  qed
  then have "ar_id ` set (agent_rules a) \<inter> (\<Union>b \<in> set as. ar_id ` set (agent_rules b)) = {}" by blast
  then show ?case using own Cons by simp
qed simp

lemma namespaces_disjoint:
  assumes "in_namespace (ns @ ''/'' @ x) key" and "in_namespace (ns @ ''/'' @ y) key" and "length x = length y"
  shows "x = y"
  using assms by (auto simp: in_namespace_def starts_with_iff append_eq_append_conv)

section \<open>A concrete policy\<close>

definition fleet_agent :: "char \<Rightarrow> agent_admission" where
  "fleet_agent c = \<lparr>aa_common_name = ''agt_'' @ replicate 24 c, aa_namespace = ''iot/v1/agents/agt_'' @ replicate 24 c\<rparr>"

definition fleet_policy :: policy where
  "fleet_policy = \<lparr>po_version = 1, po_fleet_id = ''fleet-test'', po_generation = 1, po_issued_at = 0, po_not_before = 0,
     po_expires_at = 180000000, po_namespace_prefix = ''iot/v1/agents'',
     po_trusted_peer_common_names = [''controller-test'', ''router-test''],
     po_agents = [fleet_agent CHR ''a'', fleet_agent CHR ''b'']\<rparr>"

text \<open>A matching function for the examples: the text before the first wildcard is a prefix of the key.\<close>

definition prefix_match :: "string \<Rightarrow> string \<Rightarrow> bool" where
  "prefix_match e key \<longleftrightarrow> starts_with key (takeWhile (\<lambda>c. c \<noteq> CHR ''*'') e)"

lemma fleet_policy_valid: "Policy_validate fleet_policy = Inr ()"
  by code_simp

lemma prefix_match_literal:
  assumes "set ns \<inter> {CHR ''*'', CHR ''$''} = {}" and "prefix_match (ns @ ''/'' @ path) key"
  shows "in_namespace ns key"
proof -
  have "takeWhile (\<lambda>c. c \<noteq> CHR ''*'') (ns @ ''/'' @ path) = ns @ ''/'' @ takeWhile (\<lambda>c. c \<noteq> CHR ''*'') path"
    using assms(1) by (subst takeWhile_append2) auto
  then show ?thesis using assms(2) by (auto simp: prefix_match_def in_namespace_def starts_with_iff)
qed

section \<open>Properties\<close>



text \<open>
  C40. The rendered access control is well formed for every valid policy: rules, subjects and
  policies have distinct identifiers, and every policy refers only to rules and subjects that
  are listed.
\<close>

theorem access_control_well_formed:
  assumes "Policy_validate p = Inr ()"
  shows "distinct (map ar_id (acl_rules p)) \<and> distinct (map as_id (acl_subjects p)) \<and>
    distinct (map ap_id (acl_policies p)) \<and>
    (\<forall>q \<in> set (acl_policies p). set (ap_rules q) \<subseteq> ar_id ` set (acl_rules p) \<and>
      set (ap_subjects q) \<subseteq> as_id ` set (acl_subjects p))"
proof -
  note valid = Policy_validate_Inr [OF assms]
  have name: "agent_name (aa_common_name b)" if "b \<in> set (po_agents p)" for b using valid(3) that by blast
  have "''trusted-authority'' \<notin> ar_id ` set (agent_rules b)" if "b \<in> set (po_agents p)" for b
    using not_agent_names(3) [OF name [OF that]] by (fastforce elim!: agent_rules_member)
  then have "distinct (map ar_id (acl_rules p))"
    using distinct_rule_ids [OF valid(2)] name
    by (auto simp: acl_rules_def trusted_rule_def acl_rule_of_def map_concat comp_def)
  moreover have "distinct (map as_id (acl_subjects p))" "distinct (map ap_id (acl_policies p))"
    using valid(2) name not_agent_names(1,2) by (auto simp: acl_subjects_def acl_policies_def comp_def)
  moreover have "\<forall>q \<in> set (acl_policies p). set (ap_rules q) \<subseteq> ar_id ` set (acl_rules p) \<and>
      set (ap_subjects q) \<subseteq> as_id ` set (acl_subjects p)"
    by (force simp: acl_policies_def acl_rules_def acl_subjects_def trusted_rule_def acl_rule_of_def)
  ultimately show ?thesis by blast
qed

theorem access_control_well_formed_witness:
  "distinct (map ar_id (acl_rules fleet_policy)) \<and> length (acl_rules fleet_policy) = 13"
proof -
  have "length (acl_rules fleet_policy) = 13" by code_simp
  then show ?thesis using access_control_well_formed [OF fleet_policy_valid] by blast
qed

end
