(* ===== verification/Router_Tls.thy ===== *)
theory Router_Tls
  imports Router_Policy
begin

text \<open>
  The TLS credentials the Router Supervisor monitors (\<^verbatim>\<open>inari-router/src/tls.rs\<close>).  File
  contents and clock readings are arguments; PEM and X.509 parsing, SHA-256, base64 and the
  conversion of timestamps are fields of a library record.
\<close>

section \<open>Definitions\<close>

record tls_material =
  tm_root_ca :: bytes
  tm_certificate :: bytes
  tm_private_key :: bytes
  tm_digest :: bytes
  tm_not_before :: instant
  tm_expires_at :: instant

text \<open>
  \<open>tl_parse\<close> gives the remaining bytes and the validity timestamps of one certificate in
  seconds; \<open>tl_from_timestamp\<close> is \<^verbatim>\<open>DateTime::from_timestamp\<close>.
\<close>

record tls_library =
  tl_sha256 :: "bytes \<Rightarrow> bytes"
  tl_certs :: "bytes \<Rightarrow> string + bytes list"
  tl_parse :: "bytes \<Rightarrow> string + (bytes \<times> int \<times> int)"
  tl_from_timestamp :: "int \<Rightarrow> instant option"
  tl_min_utc :: instant
  tl_max_utc :: instant

definition TlsMaterial_require_current :: "tls_material \<Rightarrow> instant \<Rightarrow> unit router_result" where
  "TlsMaterial_require_current material now =
    (if tm_not_before material > now \<or> tm_expires_at material \<le> now
     then Inl (NotReady ''TLS certificate chain is not current.'') else Inr ())"

definition tls_bytes_ok :: "bytes \<Rightarrow> bool" where
  "tls_bytes_ok bytes \<longleftrightarrow> bytes \<noteq> [] \<and> int (length bytes) \<le> 256 * 1024"

text \<open>One certificate of the chain narrows the validity interval.\<close>

definition narrow_validity ::
    "tls_library \<Rightarrow> bytes \<Rightarrow> instant \<times> instant \<Rightarrow> (instant \<times> instant) router_result" where
  "narrow_validity lib certificate = (\<lambda>(not_before, expires_at).
    and_then (map_err RouterIo (tl_parse lib certificate)) (\<lambda>(remaining, start_time, end_time).
    if remaining \<noteq> [] then Inl (NotReady ''TLS certificate contains trailing data.'')
    else
      and_then (ok_or (RouterIo ''TLS certificate start time is invalid'') (tl_from_timestamp lib start_time)) (\<lambda>start_at.
      and_then (ok_or (RouterIo ''TLS certificate expiry is invalid'') (tl_from_timestamp lib end_time)) (\<lambda>end_at.
      Inr (max not_before start_at, min expires_at end_at)))))"

definition TlsMaterial_load ::
    "tls_library \<Rightarrow> instant \<Rightarrow> bytes router_result \<Rightarrow> bytes router_result \<Rightarrow> bytes router_result \<Rightarrow>
     tls_material router_result" where
  "TlsMaterial_load lib now root_file certificate_file key_file =
    and_then root_file (\<lambda>root_ca. and_then certificate_file (\<lambda>certificate. and_then key_file (\<lambda>private_key.
    if \<not> list_all tls_bytes_ok [root_ca, certificate, private_key] then
      Inl (NotReady ''TLS material is empty or exceeds 256 KiB.'')
    else
      and_then (map_err RouterIo (tl_certs lib certificate)) (\<lambda>chain.
      if chain = [] then Inl (NotReady ''TLS certificate chain is empty.'')
      else
        and_then (try_fold (narrow_validity lib) chain (tl_min_utc lib, tl_max_utc lib)) (\<lambda>(not_before, expires_at).
        let material = \<lparr>tm_root_ca = root_ca, tm_certificate = certificate, tm_private_key = private_key,
              tm_digest = tl_sha256 lib (concat (map length_prefixed [root_ca, certificate, private_key])),
              tm_not_before = not_before, tm_expires_at = expires_at\<rparr>
        in and_then (TlsMaterial_require_current material now) (\<lambda>_. Inr material))))))"

record data_tls =
  dt_router :: tls_material
  dt_probe :: tls_material

text \<open>The files read for the Router (certificate and key) and for the probe, and the two clock readings.\<close>

record tls_reads =
  rd_router_root :: "bytes router_result"
  rd_certificate :: "bytes router_result"
  rd_private_key :: "bytes router_result"
  rd_router_now :: instant
  rd_probe_root :: "bytes router_result"
  rd_probe_certificate :: "bytes router_result"
  rd_probe_private_key :: "bytes router_result"
  rd_probe_now :: instant

definition DataTls_load :: "tls_library \<Rightarrow> tls_reads \<Rightarrow> data_tls router_result" where
  "DataTls_load lib reads =
    and_then (TlsMaterial_load lib (rd_router_now reads) (rd_router_root reads) (rd_certificate reads)
      (rd_private_key reads)) (\<lambda>router.
    and_then (TlsMaterial_load lib (rd_probe_now reads) (rd_probe_root reads) (rd_probe_certificate reads)
      (rd_probe_private_key reads)) (\<lambda>probe.
    if tm_root_ca router \<noteq> tm_root_ca probe then
      Inl (NotReady ''TLS trust changed while credentials were read.'')
    else Inr \<lparr>dt_router = router, dt_probe = probe\<rparr>))"

definition DataTls_matches :: "data_tls \<Rightarrow> data_tls \<Rightarrow> bool" where
  "DataTls_matches a b \<longleftrightarrow> tm_digest (dt_router a) = tm_digest (dt_router b) \<and>
    tm_digest (dt_probe a) = tm_digest (dt_probe b)"

definition DataTls_require_current :: "data_tls \<Rightarrow> instant \<Rightarrow> unit router_result" where
  "DataTls_require_current tls now =
    and_then (TlsMaterial_require_current (dt_router tls) now) (\<lambda>_.
    TlsMaterial_require_current (dt_probe tls) now)"

definition DataTls_expires_at :: "data_tls \<Rightarrow> instant" where
  "DataTls_expires_at tls = min (tm_expires_at (dt_router tls)) (tm_expires_at (dt_probe tls))"

text \<open>
  \<^verbatim>\<open>config["a"]["b"] = v\<close> on a JSON value: an absent field of an object is added as null and
  a null becomes an object.  The rendered configuration has objects on this path, so the
  panic on another value does not arise.
\<close>

fun json_entries :: "structured_value \<Rightarrow> (string \<times> structured_value) list" where
  "json_entries (SObject entries) = entries"
| "json_entries _ = []"

definition json_get :: "structured_value \<Rightarrow> string \<Rightarrow> structured_value option" where
  "json_get v name = map_of (json_entries v) name"

definition json_put :: "string \<Rightarrow> structured_value \<Rightarrow> structured_value \<Rightarrow> structured_value" where
  "json_put name v object =
    (if name \<in> fst ` set (json_entries object)
     then SObject (map (\<lambda>(k, w). (k, if k = name then v else w)) (json_entries object))
     else SObject (json_entries object @ [(name, v)]))"

fun json_set :: "string list \<Rightarrow> structured_value \<Rightarrow> structured_value \<Rightarrow> structured_value" where
  "json_set [] v object = v"
| "json_set (name # path) v object =
    json_put name (json_set path v (case json_get object name of Some w \<Rightarrow> w | None \<Rightarrow> SNull)) object"

definition tls_section :: "(bytes \<Rightarrow> string) \<Rightarrow> data_tls \<Rightarrow> structured_value" where
  "tls_section base64 tls = (let router = dt_router tls in SObject
    [(''root_ca_certificate_base64'', SText (base64 (tm_root_ca router))),
     (''listen_certificate_base64'', SText (base64 (tm_certificate router))),
     (''listen_private_key_base64'', SText (base64 (tm_private_key router))),
     (''connect_certificate_base64'', SText (base64 (tm_certificate router))),
     (''connect_private_key_base64'', SText (base64 (tm_private_key router))),
     (''enable_mtls'', SBoolean True), (''verify_name_on_connect'', SBoolean True),
     (''close_link_on_expiration'', SBoolean True)])"

definition DataTls_configure ::
    "(structured_value \<Rightarrow> string option) \<Rightarrow> (bytes \<Rightarrow> string) \<Rightarrow> data_tls \<Rightarrow> structured_value \<Rightarrow>
     structured_value router_result" where
  "DataTls_configure zenoh_config_error base64 tls config =
    (let config = json_set [''transport'', ''link'', ''tls''] (tls_section base64 tls) config
     in case zenoh_config_error config of
          Some message \<Rightarrow> Inl (NotReady message)
        | None \<Rightarrow> Inr config)"

definition DataTls_probe_config ::
    "(structured_value \<Rightarrow> string option) \<Rightarrow> (bytes \<Rightarrow> string) \<Rightarrow> data_tls \<Rightarrow> string \<Rightarrow>
     structured_value router_result" where
  "DataTls_probe_config zenoh_config_error base64 tls endpoint =
    (let off = SObject [(''enabled'', SBoolean False)]; probe = dt_probe tls;
         config = SObject
          [(''mode'', SText ''client''),
           (''connect'', SObject [(''endpoints'', texts [endpoint]), (''timeout_ms'', SUnsigned 2000)]),
           (''listen'', SObject [(''endpoints'', SList [])]),
           (''scouting'', SObject [(''multicast'', off), (''gossip'', off)]),
           (''transport'', SObject [(''link'', SObject [(''tls'', SObject
             [(''root_ca_certificate_base64'', SText (base64 (tm_root_ca probe))),
              (''connect_certificate_base64'', SText (base64 (tm_certificate probe))),
              (''connect_private_key_base64'', SText (base64 (tm_private_key probe))),
              (''enable_mtls'', SBoolean True), (''verify_name_on_connect'', SBoolean True)])])])]
     in case zenoh_config_error config of
          Some message \<Rightarrow> Inl (NotReady message)
        | None \<Rightarrow> Inr config)"

section \<open>Lemmas\<close>

text \<open>A loaded credential was current when it was read, and its interval is that of its whole chain.\<close>

lemma TlsMaterial_load_current:
  assumes "TlsMaterial_load lib now root certificate key = Inr material"
  shows "tm_not_before material \<le> now \<and> now < tm_expires_at material"
  using assms
  by (auto simp: TlsMaterial_load_def and_then_eq_Inr TlsMaterial_require_current_def Let_def split: if_splits)

lemma map_of_put:
  "map_of (map (\<lambda>(k, w). (k, if k = name then v else w)) es) other =
    (if other = name then map_option (\<lambda>_. v) (map_of es other) else map_of es other)"
  by (induction es) auto

lemma json_get_put [simp]: "json_get (json_put name v object) other = (if other = name then Some v else json_get object other)"
proof (cases "name \<in> fst ` set (json_entries object)")
  case True
  then obtain w where "map_of (json_entries object) name = Some w" by (metis map_of_eq_None_iff not_None_eq)
  then show ?thesis using True by (simp add: json_put_def json_get_def map_of_put)
next
  case False
  then have "map_of (json_entries object) name = None" by (simp add: map_of_eq_None_iff)
  then show ?thesis using False by (auto simp: json_put_def json_get_def map_add_def split: option.splits)
qed

text \<open>Inlining the credentials leaves the rest of the configuration alone.\<close>

lemma DataTls_configure_keeps:
  assumes "DataTls_configure zenoh base64 tls config = Inr config'" and "name \<noteq> ''transport''"
  shows "json_get config' name = json_get config name"
  using assms by (auto simp: DataTls_configure_def Let_def split: option.splits)

end
