(* ===== verification/Router_Supervisor.thy ===== *)
theory Router_Supervisor
  imports Router_Tls
begin

text \<open>
  The Router Supervisor (\<^verbatim>\<open>inari-router/src/supervisor.rs\<close>) with its policy storage
  (\<^verbatim>\<open>store.rs\<close>).  It holds the current signed policy, writes it to disk, and runs one Zenoh
  process whose configuration is rendered from it.

  Each method is a state transformer that may fail and that keeps the state it reached when
  it fails.  Everything the outside decides (both clocks, files, credentials, the process, the
  probe) comes from an environment that answers every call separately: the n-th call gets the
  n-th answer, so a theorem about all environments covers every timing and every failure.
\<close>

section \<open>Definitions\<close>

subsection \<open>State and environment\<close>

definition START_TIMEOUT :: duration where "START_TIMEOUT = 10 * 1000000"
definition TLS_CHECK_INTERVAL :: duration where "TLS_CHECK_INTERVAL = 1000000"
definition MAX_POLICY_BYTES :: int where "MAX_POLICY_BYTES = 2 * 1024 * 1024"

record router_status =
  rs_generation :: "64 word option"
  rs_digest :: "string option"
  rs_expires_at :: "instant option"
  rs_ready :: bool
  rs_message :: string

text \<open>
  The two files of \<^verbatim>\<open>PolicyStore\<close> are part of the state, \<open>sv_child\<close> is the configuration the
  running process was started with (its two command line overrides are constants), \<open>sv_calls\<close>
  counts the calls to the outside and \<open>sv_slept\<close> adds up the sleeps.
\<close>

record supervisor =
  sv_policy_file :: "bytes option"
  sv_router_file :: "structured_value option"
  sv_key :: bytes
  sv_fleet_id :: string
  sv_config :: router_config
  sv_policy :: "verified_policy option"
  sv_child :: "structured_value option"
  sv_tls :: "data_tls option"
  sv_next_tls_check :: duration
  sv_status :: router_status
  sv_calls :: nat
  sv_slept :: duration

text \<open>A write may fail before or after the new file has replaced the old one.\<close>

datatype write_outcome = Written | NotWritten router_error | WrittenThenFailed router_error

datatype stop_outcome =
  StopExited | StopWaitFailed string | StopKilled | StopKillFailed string | StopKillTimeout

text \<open>The identifiers of the Routers the probe session sees, and how closing the session ends.\<close>

datatype probe_outcome =
  ProbeOpened "string list" "router_error option" | ProbeFailed string | ProbeTimeout

record router_env =
  re_crypto :: router_crypto
  re_canonical_signed :: "signed_policy \<Rightarrow> string + bytes"
  re_parse_signed :: "bytes \<Rightarrow> string + signed_policy"
  re_zenoh_config :: "structured_value \<Rightarrow> string option"
  re_base64 :: "bytes \<Rightarrow> string"
  re_tls_library :: tls_library
  re_utc :: "nat \<Rightarrow> instant"
  re_monotonic :: "nat \<Rightarrow> duration"
  re_tls_reads :: "nat \<Rightarrow> tls_reads"
  re_tls_timeout :: "nat \<Rightarrow> bool"
  re_read_error :: "nat \<Rightarrow> string option"
  re_policy_write :: "nat \<Rightarrow> write_outcome"
  re_config_write :: "nat \<Rightarrow> write_outcome"
  re_spawn_error :: "nat \<Rightarrow> string option"
  re_try_wait :: "nat \<Rightarrow> string + string option"
  re_stop :: "nat \<Rightarrow> stop_outcome"
  re_probe :: "nat \<Rightarrow> probe_outcome"
  re_refresh_ticks :: "nat \<Rightarrow> nat"

type_synonym 'a act = "router_env \<Rightarrow> supervisor \<Rightarrow> supervisor \<times> 'a router_result"

definition ret :: "'a \<Rightarrow> 'a act" where
  "ret x env s = (s, Inr x)"

definition bind_act :: "'a act \<Rightarrow> ('a \<Rightarrow> 'b act) \<Rightarrow> 'b act" where
  "bind_act m f env s = (case m env s of (s', Inl e) \<Rightarrow> (s', Inl e) | (s', Inr x) \<Rightarrow> f x env s')"

definition lift_result :: "'a router_result \<Rightarrow> 'a act" where
  "lift_result r env s = (s, r)"

definition try_act :: "'a act \<Rightarrow> 'a router_result act" where
  "try_act m env s = (case m env s of (s', r) \<Rightarrow> (s', Inr r))"

definition gets_act :: "(supervisor \<Rightarrow> 'a) \<Rightarrow> 'a act" where
  "gets_act f env s = (s, Inr (f s))"

definition modify_act :: "(supervisor \<Rightarrow> supervisor) \<Rightarrow> unit act" where
  "modify_act f env s = (f s, Inr ())"

definition with_env :: "(router_env \<Rightarrow> 'a router_result) \<Rightarrow> 'a act" where
  "with_env f env s = (s, f env)"

definition ask :: "(router_env \<Rightarrow> nat \<Rightarrow> 'a) \<Rightarrow> 'a act" where
  "ask f env s = (s\<lparr>sv_calls := Suc (sv_calls s)\<rparr>, Inr (f env (sv_calls s)))"

fun RouterError_to_string :: "router_error \<Rightarrow> string" where
  "RouterError_to_string (InvalidPolicy m) = ''Invalid Router policy: '' @ m"
| "RouterError_to_string InvalidSignature = ''Router policy signature is invalid.''"
| "RouterError_to_string NotCurrent = ''Router policy is not current.''"
| "RouterError_to_string GenerationConflict = ''Router policy generation is stale or conflicts with stored policy.''"
| "RouterError_to_string (NotReady m) = ''Router is not ready: '' @ m"
| "RouterError_to_string RouterUnavailable = ''Router Supervisor is busy or unavailable.''"
| "RouterError_to_string (RouterIo m) = ''Router storage or process error: '' @ m"
| "RouterError_to_string (RouterJson m) = ''Router JSON error: '' @ m"

subsection \<open>Storage\<close>

definition PolicyStore_load :: "router_env \<Rightarrow> nat \<Rightarrow> bytes option \<Rightarrow> bytes \<Rightarrow> string \<Rightarrow> verified_policy option router_result" where
  "PolicyStore_load env n file key fleet_id =
    (case re_read_error env n of Some message \<Rightarrow> Inl (RouterIo message)
     | None \<Rightarrow>
         (case file of None \<Rightarrow> Inr None
          | Some bytes \<Rightarrow>
              if int (length bytes) > MAX_POLICY_BYTES then
                Inl (InvalidPolicy ''stored policy exceeds the size limit'')
              else
                and_then (map_err RouterJson (re_parse_signed env bytes)) (\<lambda>signed_policy.
                and_then (SignedPolicy_verify (re_crypto env) key fleet_id signed_policy) (\<lambda>verified.
                Inr (Some verified)))))"

definition PolicyStore_persist :: "verified_policy \<Rightarrow> unit act" where
  "PolicyStore_persist p =
    bind_act (with_env (\<lambda>env. map_err RouterJson (re_canonical_signed env (vp_signed p)))) (\<lambda>bytes.
    bind_act (ask re_policy_write) (\<lambda>outcome.
    case outcome of
      Written \<Rightarrow> modify_act (\<lambda>s. s\<lparr>sv_policy_file := Some bytes\<rparr>)
    | NotWritten e \<Rightarrow> lift_result (Inl e)
    | WrittenThenFailed e \<Rightarrow>
        bind_act (modify_act (\<lambda>s. s\<lparr>sv_policy_file := Some bytes\<rparr>)) (\<lambda>_. lift_result (Inl e))))"

definition write_router_file :: "structured_value \<Rightarrow> unit act" where
  "write_router_file config =
    bind_act (ask re_config_write) (\<lambda>outcome.
    case outcome of
      Written \<Rightarrow> modify_act (\<lambda>s. s\<lparr>sv_router_file := Some config\<rparr>)
    | NotWritten e \<Rightarrow> lift_result (Inl e)
    | WrittenThenFailed e \<Rightarrow>
        bind_act (modify_act (\<lambda>s. s\<lparr>sv_router_file := Some config\<rparr>)) (\<lambda>_. lift_result (Inl e)))"

subsection \<open>The process\<close>

definition utc_now :: "instant act" where
  "utc_now = ask re_utc"

text \<open>The monotonic clock is the time the sleeps took plus the time everything else took.\<close>

definition instant_now :: "duration act" where
  "instant_now = bind_act (ask re_monotonic) (\<lambda>awake. gets_act (\<lambda>s. awake + sv_slept s))"

definition sleep :: "duration \<Rightarrow> unit act" where
  "sleep d = modify_act (\<lambda>s. s\<lparr>sv_slept := sv_slept s + d\<rparr>)"

definition not_ready :: "string \<Rightarrow> unit act" where
  "not_ready message =
    modify_act (\<lambda>s. s\<lparr>sv_status := (sv_status s)\<lparr>rs_ready := False, rs_message := message\<rparr>\<rparr>)"

definition publish_policy :: "verified_policy \<Rightarrow> unit act" where
  "publish_policy p =
    modify_act (\<lambda>s. s\<lparr>sv_status := (sv_status s)\<lparr>rs_generation := Some (po_generation (vp_policy p)),
      rs_digest := Some (vp_digest p), rs_expires_at := Some (po_expires_at (vp_policy p))\<rparr>\<rparr>)"

definition is_ready :: "bool act" where
  "is_ready = gets_act (\<lambda>s. rs_ready (sv_status s))"

definition policy_current :: "verified_policy \<Rightarrow> unit act" where
  "policy_current p = bind_act utc_now (\<lambda>now. lift_result (require_current p now))"

definition try_wait :: "string option act" where
  "try_wait = bind_act (ask re_try_wait) (\<lambda>exit. lift_result (map_err RouterIo exit))"

definition load_tls :: "data_tls act" where
  "load_tls = bind_act (ask re_tls_reads) (\<lambda>reads. with_env (\<lambda>env. DataTls_load (re_tls_library env) reads))"

fun stop_result :: "stop_outcome \<Rightarrow> unit router_result" where
  "stop_result StopExited = Inr ()"
| "stop_result (StopWaitFailed m) = Inl (RouterIo m)"
| "stop_result StopKilled = Inr ()"
| "stop_result (StopKillFailed m) = Inl (RouterIo m)"
| "stop_result StopKillTimeout = Inl (NotReady ''Router process did not stop.'')"

definition stop :: "unit act" where
  "stop =
    bind_act (modify_act (\<lambda>s. s\<lparr>sv_tls := None\<rparr>)) (\<lambda>_.
    bind_act (gets_act sv_child) (\<lambda>child.
    case child of None \<Rightarrow> ret ()
    | Some _ \<Rightarrow>
        bind_act (modify_act (\<lambda>s. s\<lparr>sv_child := None\<rparr>)) (\<lambda>_.
        bind_act try_wait (\<lambda>exit.
        if exit \<noteq> None then ret ()
        else bind_act (ask re_stop) (\<lambda>outcome. lift_result (stop_result outcome))))))"

text \<open>The probe sees this Router: some identifier is the configured one without leading zeros, in any case.\<close>

definition identity_matches :: "router_config \<Rightarrow> string list \<Rightarrow> bool" where
  "identity_matches config zids \<longleftrightarrow>
    list_ex (\<lambda>zid. map to_ascii_uppercase zid =
      map to_ascii_uppercase (dropWhile (\<lambda>c. c = CHR ''0'') (cf_id config))) zids"

text \<open>
  One iteration of \<^verbatim>\<open>wait_ready\<close> below the check of the deadline: \<open>None\<close> when the Router is
  ready, otherwise what the next iteration reports as the last failure.
\<close>

definition probe_router :: "string option act" where
  "probe_router =
    bind_act (gets_act sv_child) (\<lambda>child.
    if child = None then lift_result (Inl (NotReady ''Router process is absent.''))
    else
      bind_act try_wait (\<lambda>exit.
      case exit of Some status \<Rightarrow> lift_result (Inl (NotReady (''Router process exited: '' @ status)))
      | None \<Rightarrow>
          bind_act (gets_act sv_tls) (\<lambda>tls.
          bind_act (lift_result (ok_or RouterUnavailable tls)) (\<lambda>tls.
          bind_act utc_now (\<lambda>now.
          bind_act (lift_result (DataTls_require_current tls now)) (\<lambda>_.
          bind_act (gets_act sv_config) (\<lambda>config.
          bind_act (with_env (\<lambda>env. DataTls_probe_config (re_zenoh_config env) (re_base64 env) tls
            (cf_probe_endpoint config))) (\<lambda>_.
          bind_act (ask re_probe) (\<lambda>outcome.
          case outcome of
            ProbeOpened zids closed \<Rightarrow>
              (case closed of Some e \<Rightarrow> lift_result (Inl e)
               | None \<Rightarrow>
                   bind_act (if identity_matches config zids then
                       bind_act try_wait (\<lambda>exit. ret (exit = None))
                     else ret False) (\<lambda>connected.
                   ret (if connected then None
                     else Some ''The connected Router identity did not match configuration.'')))
          | ProbeFailed message \<Rightarrow> ret (Some message)
          | ProbeTimeout \<Rightarrow> ret (Some ''The mTLS connection probe timed out.''))))))))))"

text \<open>
  Each iteration ends with a sleep of 100 ms and the deadline is at most \<^verbatim>\<open>START_TIMEOUT\<close>
  away, so 101 iterations reach it; lemma \<open>wait_ready_enough\<close> shows that more change nothing.
\<close>

fun wait_ready_loop :: "nat \<Rightarrow> duration \<Rightarrow> string \<Rightarrow> unit act" where
  "wait_ready_loop 0 deadline last_failure =
    lift_result (Inl (NotReady (''Zenoh readiness deadline passed: '' @ last_failure)))"
| "wait_ready_loop (Suc fuel) deadline last_failure =
    bind_act instant_now (\<lambda>now.
    if now \<ge> deadline then
      lift_result (Inl (NotReady (''Zenoh readiness deadline passed: '' @ last_failure)))
    else
      bind_act probe_router (\<lambda>failure.
      case failure of None \<Rightarrow> ret ()
      | Some message \<Rightarrow> bind_act (sleep 100000) (\<lambda>_. wait_ready_loop fuel deadline message)))"

definition wait_ready :: "duration \<Rightarrow> unit act" where
  "wait_ready deadline = wait_ready_loop 101 deadline ''The mTLS probe has not connected.''"

definition spawn :: "unit act" where
  "spawn =
    bind_act (ask re_spawn_error) (\<lambda>failed.
    case failed of Some message \<Rightarrow> lift_result (Inl (RouterIo message))
    | None \<Rightarrow> modify_act (\<lambda>s. s\<lparr>sv_child := sv_router_file s\<rparr>))"

text \<open>The end of \<^verbatim>\<open>activate\<close>, from the start of the process on.\<close>

definition start_router :: "verified_policy \<Rightarrow> data_tls \<Rightarrow> unit act" where
  "start_router p tls =
    bind_act spawn (\<lambda>_.
    bind_act instant_now (\<lambda>now.
    bind_act (modify_act (\<lambda>s. s\<lparr>sv_next_tls_check := now + TLS_CHECK_INTERVAL, sv_tls := Some tls\<rparr>)) (\<lambda>_.
    bind_act utc_now (\<lambda>now.
    let remaining = min (po_expires_at (vp_policy p)) (DataTls_expires_at tls) - now in
    if remaining < 0 then lift_result (Inl NotCurrent)
    else
      bind_act instant_now (\<lambda>now.
      bind_act (try_act (wait_ready (now + min START_TIMEOUT remaining))) (\<lambda>outcome.
      case outcome of
        Inr _ \<Rightarrow>
          bind_act (policy_current p) (\<lambda>_.
          bind_act (gets_act sv_tls) (\<lambda>tls.
          bind_act (lift_result (ok_or RouterUnavailable tls)) (\<lambda>tls.
          bind_act utc_now (\<lambda>now.
          bind_act (lift_result (DataTls_require_current tls now)) (\<lambda>_.
          modify_act (\<lambda>s. s\<lparr>sv_status := (sv_status s)\<lparr>rs_ready := True,
            rs_message := ''Router is ready with the acknowledged policy.''\<rparr>\<rparr>))))))
      | Inl e \<Rightarrow>
          bind_act (not_ready (RouterError_to_string e)) (\<lambda>_.
          bind_act stop (\<lambda>_. lift_result (Inl e)))))))))"

text \<open>The middle: once the policy is stored, the credentials go into the configuration file.\<close>

definition prepare_router :: "verified_policy \<Rightarrow> structured_value \<Rightarrow> unit act" where
  "prepare_router p config =
    bind_act load_tls (\<lambda>tls.
    bind_act (with_env (\<lambda>env. DataTls_configure (re_zenoh_config env) (re_base64 env) tls config)) (\<lambda>config.
    bind_act (write_router_file config) (\<lambda>_.
    bind_act (policy_current p) (\<lambda>_.
    start_router p tls))))"

definition activate :: "verified_policy \<Rightarrow> unit act" where
  "activate p =
    bind_act (gets_act sv_config) (\<lambda>router.
    bind_act (with_env (\<lambda>env. RouterConfig_render (re_zenoh_config env) router p)) (\<lambda>config.
    bind_act (not_ready ''Router applies signed policy.'') (\<lambda>_.
    bind_act stop (\<lambda>_.
    bind_act (modify_act (\<lambda>s. s\<lparr>sv_policy := Some p\<rparr>)) (\<lambda>_.
    bind_act (PolicyStore_persist p) (\<lambda>_.
    bind_act (modify_act (\<lambda>s. s\<lparr>sv_policy := Some p\<rparr>)) (\<lambda>_.
    bind_act (publish_policy p) (\<lambda>_.
    prepare_router p config))))))))"

text \<open>\<^verbatim>\<open>if let Err(error) = self.activate(policy).await { self.not_ready(error.to_string()) }\<close>\<close>

definition activate_or_report :: "verified_policy \<Rightarrow> unit act" where
  "activate_or_report p =
    bind_act (try_act (activate p)) (\<lambda>outcome.
    case outcome of Inl e \<Rightarrow> not_ready (RouterError_to_string e) | Inr _ \<Rightarrow> ret ())"

subsection \<open>Observation\<close>

definition report_and_stop :: "string \<Rightarrow> unit act" where
  "report_and_stop message = bind_act (not_ready message) (\<lambda>_. stop)"

text \<open>The branch of \<^verbatim>\<open>observe\<close> for a process that runs.\<close>

definition check_credentials :: "unit act" where
  "check_credentials =
    bind_act instant_now (\<lambda>now.
    bind_act (gets_act sv_next_tls_check) (\<lambda>next.
    if now < next then ret ()
    else
      bind_act instant_now (\<lambda>now.
      bind_act (modify_act (\<lambda>s. s\<lparr>sv_next_tls_check := now + TLS_CHECK_INTERVAL\<rparr>)) (\<lambda>_.
      bind_act (ask re_tls_timeout) (\<lambda>timeout.
      bind_act (if timeout then ret (Inl (NotReady ''TLS credential read timed out.'')) else try_act load_tls) (\<lambda>material.
      case material of
        Inl e \<Rightarrow> report_and_stop (RouterError_to_string e)
      | Inr material \<Rightarrow>
          bind_act (gets_act sv_tls) (\<lambda>tls.
          if (case tls of None \<Rightarrow> True | Some tls \<Rightarrow> \<not> DataTls_matches tls material) then
            bind_act (gets_act sv_policy) (\<lambda>p.
            bind_act (lift_result (ok_or RouterUnavailable p)) activate_or_report)
          else ret ())))))))"

definition observe_process :: "unit act" where
  "observe_process =
    bind_act try_wait (\<lambda>exit.
    case exit of
      Some status \<Rightarrow>
        bind_act (modify_act (\<lambda>s. s\<lparr>sv_child := None, sv_tls := None\<rparr>)) (\<lambda>_.
        not_ready (''Router process exited: '' @ status))
    | None \<Rightarrow>
        bind_act (gets_act sv_tls) (\<lambda>tls.
        case tls of None \<Rightarrow> check_credentials
        | Some tls \<Rightarrow>
            bind_act utc_now (\<lambda>now.
            case DataTls_require_current tls now of
              Inl e \<Rightarrow> report_and_stop (RouterError_to_string e)
            | Inr _ \<Rightarrow> check_credentials)))"

text \<open>The branch of \<^verbatim>\<open>observe\<close> without a process: try again, at most once per interval.\<close>

definition observe_absent :: "unit act" where
  "observe_absent =
    bind_act instant_now (\<lambda>now.
    bind_act (gets_act (\<lambda>s. (sv_next_tls_check s, sv_policy s))) (\<lambda>(next, policy).
    if now < next then ret ()
    else case policy of None \<Rightarrow> ret ()
    | Some p \<Rightarrow>
        bind_act (try_act (policy_current p)) (\<lambda>current.
        if \<not> is_ok current then ret ()
        else
          bind_act instant_now (\<lambda>now.
          bind_act (modify_act (\<lambda>s. s\<lparr>sv_next_tls_check := now + TLS_CHECK_INTERVAL\<rparr>)) (\<lambda>_.
          activate_or_report p)))))"

definition observe_running :: "unit act" where
  "observe_running = bind_act (gets_act sv_child) (\<lambda>child.
    if child = None then observe_absent else observe_process)"

definition observe :: "unit act" where
  "observe =
    bind_act (gets_act sv_policy) (\<lambda>policy.
    case policy of None \<Rightarrow> observe_running
    | Some p \<Rightarrow>
        bind_act (try_act (policy_current p)) (\<lambda>current.
        if \<not> is_ok current then report_and_stop ''Router policy expired.''
        else observe_running))"

subsection \<open>Updates\<close>

text \<open>
  The ticks of \<^verbatim>\<open>refresh\<close> while the storage task runs; the result is the last failure to stop.
\<close>

fun refresh_ticks :: "nat \<Rightarrow> verified_policy \<Rightarrow> router_error option \<Rightarrow> router_error option act" where
  "refresh_ticks 0 previous stop_failure = ret stop_failure"
| "refresh_ticks (Suc n) previous stop_failure =
    bind_act (try_act (policy_current previous)) (\<lambda>current.
    bind_act (gets_act sv_tls) (\<lambda>tls.
    bind_act (if \<not> is_ok current then ret True
      else (case tls of None \<Rightarrow> ret False
        | Some tls \<Rightarrow> bind_act utc_now (\<lambda>now. ret (\<not> is_ok (DataTls_require_current tls now))))) (\<lambda>expired.
    if \<not> expired then refresh_ticks n previous stop_failure
    else
      bind_act (not_ready ''Router policy or TLS certificate expired during refresh.'') (\<lambda>_.
      bind_act (try_act stop) (\<lambda>stopped.
      refresh_ticks n previous (case stopped of Inl e \<Rightarrow> Some e | Inr _ \<Rightarrow> stop_failure))))))"

text \<open>The end of \<^verbatim>\<open>refresh\<close>, once the new policy is stored.\<close>

definition confirm_refresh :: "verified_policy \<Rightarrow> verified_policy \<Rightarrow> unit act" where
  "confirm_refresh previous p =
    bind_act observe (\<lambda>_.
    bind_act (try_act (policy_current previous)) (\<lambda>current.
    bind_act is_ready (\<lambda>ready.
    if \<not> is_ok current \<or> \<not> ready then activate p
    else
      bind_act (policy_current p) (\<lambda>_.
      bind_act (publish_policy p) (\<lambda>_.
      modify_act (\<lambda>s. s\<lparr>sv_status := (sv_status s)\<lparr>rs_message :=
        ''Router refreshed the acknowledged policy without closing links.''\<rparr>\<rparr>))))))"

definition refresh :: "verified_policy \<Rightarrow> unit act" where
  "refresh p =
    bind_act (gets_act sv_policy) (\<lambda>policy.
    bind_act (lift_result (ok_or RouterUnavailable policy)) (\<lambda>previous.
    bind_act (modify_act (\<lambda>s. s\<lparr>sv_policy := Some p\<rparr>)) (\<lambda>_.
    bind_act (ask re_refresh_ticks) (\<lambda>n.
    bind_act (refresh_ticks n previous None) (\<lambda>stop_failure.
    bind_act (try_act (PolicyStore_persist p)) (\<lambda>written.
    case stop_failure of Some e \<Rightarrow> lift_result (Inl e)
    | None \<Rightarrow>
        (case written of
           Inl e \<Rightarrow>
             bind_act (report_and_stop (RouterError_to_string e)) (\<lambda>_. lift_result (Inl e))
         | Inr _ \<Rightarrow>
             confirm_refresh previous p)))))))"

text \<open>The rest of \<^verbatim>\<open>apply\<close> once the generation is accepted and an unchanged policy is not simply confirmed.\<close>

definition install :: "verified_policy \<Rightarrow> router_status act" where
  "install verified =
    bind_act observe (\<lambda>_.
    bind_act is_ready (\<lambda>ready.
    bind_act (gets_act sv_policy) (\<lambda>policy.
    bind_act (if ready \<and> (case policy of None \<Rightarrow> False | Some previous \<Rightarrow> has_same_authority verified previous)
      then refresh verified else activate verified) (\<lambda>_.
    gets_act sv_status))))"

definition apply_policy :: "signed_policy \<Rightarrow> router_status act" where
  "apply_policy signed_policy =
    bind_act (gets_act (\<lambda>s. (sv_key s, sv_fleet_id s))) (\<lambda>(key, fleet_id).
    bind_act (with_env (\<lambda>env. SignedPolicy_verify (re_crypto env) key fleet_id signed_policy)) (\<lambda>verified.
    bind_act (policy_current verified) (\<lambda>_.
    bind_act (gets_act sv_policy) (\<lambda>policy.
    bind_act (case policy of None \<Rightarrow> ret True | Some previous \<Rightarrow> lift_result (advances verified previous)) (\<lambda>advanced.
    bind_act is_ready (\<lambda>ready.
    if \<not> advanced \<and> ready then
      bind_act observe (\<lambda>_.
      bind_act is_ready (\<lambda>ready.
      if ready then gets_act sv_status else install verified))
    else install verified))))))"

subsection \<open>Life cycle\<close>

definition initial_status :: "verified_policy option \<Rightarrow> router_status" where
  "initial_status policy =
    \<lparr>rs_generation = map_option (\<lambda>p. po_generation (vp_policy p)) policy, rs_digest = map_option vp_digest policy,
     rs_expires_at = map_option (\<lambda>p. po_expires_at (vp_policy p)) policy, rs_ready = False,
     rs_message = ''Router awaits a current signed policy.''\<rparr>"

definition RouterSupervisor_new ::
    "router_env \<Rightarrow> nat \<Rightarrow> bytes option \<Rightarrow> structured_value option \<Rightarrow> bytes \<Rightarrow> string \<Rightarrow> router_config \<Rightarrow>
     supervisor router_result" where
  "RouterSupervisor_new env n policy_file router_file key fleet_id config =
    and_then (RouterConfig_validate config) (\<lambda>_.
    if rc_is_weak (re_crypto env) key then Inl InvalidSignature
    else if \<not> literal_name fleet_id then Inl (InvalidPolicy ''fleet_id must be a literal name'')
    else
      and_then (PolicyStore_load env n policy_file key fleet_id) (\<lambda>policy.
      Inr \<lparr>sv_policy_file = policy_file, sv_router_file = router_file, sv_key = key, sv_fleet_id = fleet_id,
        sv_config = config, sv_policy = policy, sv_child = None, sv_tls = None,
        sv_next_tls_check = re_monotonic env n, sv_status = initial_status policy, sv_calls = Suc n,
        sv_slept = 0\<rparr>))"

text \<open>What \<^verbatim>\<open>run\<close> does before its loop, and after it.\<close>

definition run_start :: "unit act" where
  "run_start =
    bind_act (gets_act sv_policy) (\<lambda>policy.
    case policy of None \<Rightarrow> ret ()
    | Some p \<Rightarrow>
        bind_act (try_act (policy_current p)) (\<lambda>current.
        if is_ok current then activate_or_report p else ret ()))"

definition run_stop :: "unit act" where
  "run_stop = report_and_stop ''Router Supervisor is stopping.''"

definition is_current :: "router_status \<Rightarrow> instant \<Rightarrow> bool" where
  "is_current status now \<longleftrightarrow> rs_ready status \<and> (case rs_expires_at status of None \<Rightarrow> False | Some expires \<Rightarrow> expires > now)"

definition handle_status :: "instant \<Rightarrow> supervisor \<Rightarrow> router_status" where
  "handle_status now s = (sv_status s)\<lparr>rs_ready := is_current (sv_status s) now\<rparr>"

text \<open>
  The life of one Router host.  \<^verbatim>\<open>run\<close> starts, serves ticks and updates in any order, and ends
  on shutdown or when a tick fails; dropping the process handle then kills the process.  At any
  time a new Supervisor may start from the files the last one left, with
  another configuration if the operator changed it.
\<close>

datatype phase = Starting | Serving | Ended

definition dropped :: "supervisor \<Rightarrow> supervisor" where
  "dropped s = s\<lparr>sv_child := None\<rparr>"

inductive supervisor_step :: "router_env \<Rightarrow> phase \<times> supervisor \<Rightarrow> phase \<times> supervisor \<Rightarrow> bool"
  for env :: router_env where
  started: "run_start env s = (s', r) \<Longrightarrow> supervisor_step env (Starting, s) (Serving, s')"
| never_started: "supervisor_step env (Starting, s) (Ended, dropped s)"
| ticked: "observe env s = (s', Inr ()) \<Longrightarrow> supervisor_step env (Serving, s) (Serving, s')"
| tick_failed: "observe env s = (s', Inl e) \<Longrightarrow> supervisor_step env (Serving, s) (Ended, dropped s')"
| applied: "apply_policy signed_policy env s = (s', r) \<Longrightarrow> supervisor_step env (Serving, s) (Serving, s')"
| shut_down: "run_stop env s = (s', r) \<Longrightarrow> supervisor_step env (Serving, s) (Ended, dropped s')"
| restarted: "RouterSupervisor_new env (sv_calls s) (sv_policy_file s) (sv_router_file s) (sv_key s)
    (sv_fleet_id s) config = Inr s' \<Longrightarrow> supervisor_step env (ph, s) (Starting, s')"

abbreviation supervisor_runs :: "router_env \<Rightarrow> phase \<times> supervisor \<Rightarrow> phase \<times> supervisor \<Rightarrow> bool" where
  "supervisor_runs env \<equiv> (supervisor_step env)\<^sup>*\<^sup>*"

end
