(* ===== verification/Router_Management.thy ===== *)
theory Router_Management
  imports Router_Supervisor
begin

text \<open>
  The management interface of the Router Supervisor (\<^verbatim>\<open>inari-router/src/management.rs\<close>): who may
  call it, the three handlers, and the acceptor that follows changes of the credential files.  The
  TLS handshake, the HTTP server and the construction of a TLS configuration are not part of the
  source; their outcomes are arguments.
\<close>

section \<open>Definitions\<close>

type_synonym 'a http_result = "(nat \<times> string) + 'a"

record management_peer =
  mgp_not_before :: instant
  mgp_expires_at :: instant

text \<open>A parsed client certificate: bytes left over, common names (\<open>None\<close> when not a string), validity in seconds.\<close>

record client_certificate =
  cc_remaining :: bytes
  cc_common_names :: "string option list"
  cc_not_before :: int
  cc_not_after :: int

definition peer_identity ::
    "tls_library \<Rightarrow> (bytes \<Rightarrow> string + client_certificate) \<Rightarrow> bytes \<Rightarrow> string \<Rightarrow> string + management_peer" where
  "peer_identity lib parse der expected =
    and_then (parse der) (\<lambda>certificate.
    if cc_remaining certificate \<noteq> [] \<or> cc_common_names certificate = [] \<or>
        hd (cc_common_names certificate) \<noteq> Some expected \<or> tl (cc_common_names certificate) \<noteq> [] then
      Inl ''management client identity is not authorized''
    else
      and_then (ok_or ''management certificate expiry is invalid'' (tl_from_timestamp lib (cc_not_after certificate))) (\<lambda>expires_at.
      and_then (ok_or ''management certificate start time is invalid'' (tl_from_timestamp lib (cc_not_before certificate))) (\<lambda>not_before.
      Inr \<lparr>mgp_not_before = not_before, mgp_expires_at = expires_at\<rparr>)))"

definition controller_name :: "string \<Rightarrow> unit router_result" where
  "controller_name common_name =
    (if \<not> literal_name common_name \<or> starts_with common_name ''agt_'' then
       Inl (InvalidPolicy ''management requires a dedicated Controller common name'')
     else Inr ())"

record 'a cached_acceptor =
  ca_digest :: bytes
  ca_inner :: 'a

definition ManagementAcceptor_from_files ::
    "(tls_material \<Rightarrow> 'a router_result) \<Rightarrow> string \<Rightarrow> tls_material router_result \<Rightarrow> 'a cached_acceptor router_result" where
  "ManagementAcceptor_from_files acceptor common_name loaded =
    and_then (controller_name common_name) (\<lambda>_.
    and_then loaded (\<lambda>material.
    and_then (acceptor material) (\<lambda>inner.
    Inr \<lparr>ca_digest = tm_digest material, ca_inner = inner\<rparr>)))"

text \<open>A failure keeps the cached acceptor, changed material replaces it.\<close>

definition current_acceptor ::
    "(tls_material \<Rightarrow> 'a router_result) \<Rightarrow> tls_material router_result \<Rightarrow> 'a cached_acceptor \<Rightarrow>
     'a cached_acceptor \<times> 'a router_result" where
  "current_acceptor acceptor loaded current =
    (case loaded of Inl e \<Rightarrow> (current, Inl e)
     | Inr material \<Rightarrow>
         if ca_digest current = tm_digest material then (current, Inr (ca_inner current))
         else case acceptor material of Inl e \<Rightarrow> (current, Inl e)
           | Inr inner \<Rightarrow> (\<lparr>ca_digest = tm_digest material, ca_inner = inner\<rparr>, Inr inner))"

text \<open>The condition reads the clock twice.\<close>

definition authorize :: "management_peer \<Rightarrow> instant \<times> instant \<Rightarrow> unit http_result" where
  "authorize peer now =
    (if mgp_not_before peer > fst now \<or> mgp_expires_at peer \<le> snd now
     then Inl (403, ''Management client certificate is not current.'') else Inr ())"

definition response_error :: "router_error \<Rightarrow> nat \<times> string" where
  "response_error error =
    (case error of GenerationConflict \<Rightarrow> 409
     | InvalidPolicy _ \<Rightarrow> 400 | InvalidSignature \<Rightarrow> 400 | NotCurrent \<Rightarrow> 400
     | _ \<Rightarrow> 503, RouterError_to_string error)"

text \<open>\<open>queued\<close> tells whether the bounded channel of the Supervisor accepts the command.\<close>

definition SupervisorHandle_apply :: "bool \<Rightarrow> signed_policy \<Rightarrow> router_status act" where
  "SupervisorHandle_apply queued signed_policy =
    (if queued then apply_policy signed_policy else lift_result (Inl RouterUnavailable))"

definition put_policy ::
    "management_peer \<Rightarrow> instant \<times> instant \<Rightarrow> instant \<times> instant \<Rightarrow> bool \<Rightarrow> signed_policy \<Rightarrow> router_env \<Rightarrow> supervisor \<Rightarrow>
     supervisor \<times> router_status http_result" where
  "put_policy peer before later queued signed_policy env s =
    (case authorize peer before of Inl e \<Rightarrow> (s, Inl e)
     | Inr _ \<Rightarrow>
         (case SupervisorHandle_apply queued signed_policy env s of (s', answer) \<Rightarrow>
            (s', and_then (map_err response_error answer) (\<lambda>status.
                 and_then (authorize peer later) (\<lambda>_. Inr status)))))"

definition get_status :: "management_peer \<Rightarrow> instant \<times> instant \<Rightarrow> instant \<Rightarrow> supervisor \<Rightarrow> router_status http_result" where
  "get_status peer now read s = and_then (authorize peer now) (\<lambda>_. Inr (handle_status read s))"

definition get_ready ::
    "management_peer \<Rightarrow> instant \<times> instant \<Rightarrow> instant \<Rightarrow> supervisor \<Rightarrow> (nat \<times> router_status) http_result" where
  "get_ready peer now read s =
    and_then (authorize peer now) (\<lambda>_.
    let status = handle_status read s in Inr (if rs_ready status then 200 else 503, status))"

section \<open>Lemmas\<close>

text \<open>Only the dedicated Controller, as the only common name of a complete certificate, is a peer.\<close>

lemma peer_identity_controller:
  assumes "peer_identity lib parse der expected = Inr peer"
  shows "\<exists>certificate. parse der = Inr certificate \<and> cc_common_names certificate = [Some expected] \<and>
    cc_remaining certificate = []"
  using assms by (auto simp: peer_identity_def and_then_eq_Inr split: if_splits) (metis list.exhaust_sel)

text \<open>Without a current certificate nothing reaches the Supervisor.\<close>

lemma put_policy_unauthorized:
  assumes "fst before < mgp_not_before peer \<or> mgp_expires_at peer \<le> snd before"
  shows "put_policy peer before later queued signed_policy env s =
    (s, Inl (403, ''Management client certificate is not current.''))"
  using assms by (auto simp: put_policy_def authorize_def)

text \<open>A successful answer is one the Supervisor gave; a refusal because of a full queue changes nothing.\<close>

lemma put_policy_accepted:
  assumes "put_policy peer before later queued signed_policy env s = (s', Inr status)"
  shows "queued" and "apply_policy signed_policy env s = (s', Inr status)"
  using assms
  by (auto simp: put_policy_def SupervisorHandle_apply_def lift_result_def and_then_eq_Inr map_err_eq_Inr
      split: sum.splits prod.splits if_splits)

lemma put_policy_busy:
  "fst (put_policy peer before later False signed_policy env s) = s"
  by (simp add: put_policy_def SupervisorHandle_apply_def lift_result_def split: sum.split)

text \<open>\<^verbatim>\<open>/readyz\<close> answers 200 only while the Supervisor is ready and its published policy has not expired.\<close>

lemma get_ready_current:
  assumes "get_ready peer now read s = Inr (200, status)"
  shows "rs_ready (sv_status s)" and "\<exists>expires. rs_expires_at (sv_status s) = Some expires \<and> read < expires"
  using assms
  by (auto simp: get_ready_def and_then_eq_Inr Let_def handle_status_def is_current_def split: if_splits option.splits)

text \<open>The cached acceptor always belongs to the material it is labelled with.\<close>

lemma current_acceptor_follows:
  assumes "current_acceptor acceptor (Inr material) current = (current', Inr inner)"
  shows "ca_digest current' = tm_digest material" and "ca_inner current' = inner"
  using assms by (auto simp: current_acceptor_def split: if_splits sum.splits)

end
