(* ===== verification/Router_Enforcement.thy ===== *)
theory Router_Enforcement
  imports Router_Supervisor
begin

text \<open>
  What the Router Supervisor guarantees over its whole life: weakest preconditions for its
  actions, an invariant that every action keeps, its closure under all steps including restarts, a
  concrete host, and the properties.
\<close>

section \<open>Reasoning about actions\<close>

text \<open>
  \<open>wp m Q env s\<close>: running \<open>m\<close> from \<open>s\<close> ends in a result and a state with \<open>Q\<close>.
\<close>

definition wp :: "'a act \<Rightarrow> ('a router_result \<Rightarrow> supervisor \<Rightarrow> bool) \<Rightarrow> router_env \<Rightarrow> supervisor \<Rightarrow> bool" where
  "wp m Q env s = (case m env s of (s', r) \<Rightarrow> Q r s')"

named_theorems wp_rules

lemma wp_ret [wp_rules]: "wp (ret x) Q env s = Q (Inr x) s"
  by (simp add: wp_def ret_def)

lemma wp_lift_result [wp_rules]: "wp (lift_result r) Q env s = Q r s"
  by (simp add: wp_def lift_result_def)

lemma wp_gets [wp_rules]: "wp (gets_act f) Q env s = Q (Inr (f s)) s"
  by (simp add: wp_def gets_act_def)

lemma wp_modify [wp_rules]: "wp (modify_act g) Q env s = Q (Inr ()) (g s)"
  by (simp add: wp_def modify_act_def)

lemma wp_with_env [wp_rules]: "wp (with_env h) Q env s = Q (h env) s"
  by (simp add: wp_def with_env_def)

lemma wp_ask [wp_rules]:
  "wp (ask k) Q env s = Q (Inr (k env (sv_calls s))) (s\<lparr>sv_calls := Suc (sv_calls s)\<rparr>)"
  by (simp add: wp_def ask_def)

lemma wp_bind [wp_rules]:
  "wp (bind_act m f) Q env s =
    wp m (\<lambda>r s'. case r of Inl e \<Rightarrow> Q (Inl e) s' | Inr x \<Rightarrow> wp (f x) Q env s') env s"
  by (simp add: wp_def bind_act_def split: prod.split sum.split)

lemma wp_try [wp_rules]: "wp (try_act m) Q env s = wp m (\<lambda>r s'. Q (Inr r) s') env s"
  by (simp add: wp_def try_act_def split: prod.split)

lemma wp_mono: "wp m Q env s \<Longrightarrow> (\<And>r s'. Q r s' \<Longrightarrow> Q' r s') \<Longrightarrow> wp m Q' env s"
  by (auto simp: wp_def)

lemma wp_bindI:
  assumes "wp m R env s" and "\<And>e s'. R (Inl e) s' \<Longrightarrow> Q (Inl e) s'" and "\<And>x s'. R (Inr x) s' \<Longrightarrow> wp (f x) Q env s'"
  shows "wp (bind_act m f) Q env s"
  unfolding wp_bind by (rule wp_mono [OF assms(1)]) (use assms(2,3) in \<open>auto split: sum.split\<close>)

text \<open>One step at a time, for proofs that stop at a named part.\<close>

lemma wp_bind_gets: "wp (bind_act (gets_act f) g) Q env s = wp (g (f s)) Q env s"
  by (simp add: wp_bind wp_gets)

lemma wp_bind_modify: "wp (bind_act (modify_act f) g) Q env s = wp (g ()) Q env (f s)"
  by (simp add: wp_bind wp_modify)

lemma wp_bind_ask: "wp (bind_act (ask k) g) Q env s = wp (g (k env (sv_calls s))) Q env (s\<lparr>sv_calls := Suc (sv_calls s)\<rparr>)"
  by (simp add: wp_bind wp_ask)

lemma wp_bind_with_env: "wp (bind_act (with_env h) g) Q env s = (case h env of Inl e \<Rightarrow> Q (Inl e) s | Inr x \<Rightarrow> wp (g x) Q env s)"
  by (simp add: wp_bind wp_with_env)

lemma wp_bind_lift: "wp (bind_act (lift_result r) g) Q env s = (case r of Inl e \<Rightarrow> Q (Inl e) s | Inr x \<Rightarrow> wp (g x) Q env s)"
  by (simp add: wp_bind wp_lift_result)

lemma wp_bind_ret: "wp (bind_act (ret x) g) Q env s = wp (g x) Q env s"
  by (simp add: wp_bind wp_ret)

lemmas wp_steps = wp_bind_gets wp_bind_modify wp_bind_ask wp_bind_with_env wp_bind_lift wp_bind_ret

lemma wp_run: "m env s = (s', r) \<Longrightarrow> wp m Q env s \<Longrightarrow> Q r s'"
  by (simp add: wp_def)

text \<open>Actions that only move the state along a preorder compose.\<close>

definition keeps :: "(supervisor \<Rightarrow> supervisor \<Rightarrow> bool) \<Rightarrow> 'a act \<Rightarrow> bool" where
  "keeps R m \<longleftrightarrow> (\<forall>env s. R s (fst (m env s)))"

locale act_frame =
  fixes R :: "supervisor \<Rightarrow> supervisor \<Rightarrow> bool"
  assumes frame_refl: "R s s"
    and frame_trans: "R s s' \<Longrightarrow> R s' s'' \<Longrightarrow> R s s''"
begin

lemma keeps_pure: "keeps R (ret x)" "keeps R (lift_result r)" "keeps R (gets_act f)" "keeps R (with_env h)"
  by (simp_all add: keeps_def ret_def lift_result_def gets_act_def with_env_def frame_refl)

lemma keeps_bind: "keeps R m \<Longrightarrow> (\<And>x. keeps R (f x)) \<Longrightarrow> keeps R (bind_act m f)"
  by (auto simp: keeps_def bind_act_def split: prod.split sum.split) (metis frame_trans fst_conv)+

lemma keeps_try: "keeps R m \<Longrightarrow> keeps R (try_act m)"
  by (auto simp: keeps_def try_act_def split: prod.split) (metis fst_conv)

lemma keeps_modify: "(\<And>s. R s (g s)) \<Longrightarrow> keeps R (modify_act g)"
  by (simp add: keeps_def modify_act_def)

lemma keeps_ask: "(\<And>s. R s (s\<lparr>sv_calls := Suc (sv_calls s)\<rparr>)) \<Longrightarrow> keeps R (ask k)"
  by (simp add: keeps_def ask_def)

lemma wp_keeps: "keeps R m \<Longrightarrow> (\<And>r s'. R s s' \<Longrightarrow> Q r s') \<Longrightarrow> wp m Q env s"
  by (auto simp: keeps_def wp_def split: prod.split) (metis fst_conv)

end

text \<open>Only the counter of calls moves, and forward.\<close>

definition asked :: "supervisor \<Rightarrow> supervisor \<Rightarrow> bool" where
  "asked s s' \<longleftrightarrow> (\<exists>n \<ge> sv_calls s. s' = s\<lparr>sv_calls := n\<rparr>)"

text \<open>Only the counter and the clock move.\<close>

definition waited :: "supervisor \<Rightarrow> supervisor \<Rightarrow> bool" where
  "waited s s' \<longleftrightarrow> (\<exists>n d. s' = s\<lparr>sv_calls := n, sv_slept := d\<rparr>)"

interpretation asks: act_frame asked
proof
  fix s s' s'' :: supervisor
  show "asked s s" unfolding asked_def by (rule exI [of _ "sv_calls s"]) simp
  assume "asked s s'" "asked s' s''"
  then obtain n m where "sv_calls s \<le> n" "s' = s\<lparr>sv_calls := n\<rparr>" "sv_calls s' \<le> m" "s'' = s'\<lparr>sv_calls := m\<rparr>"
    unfolding asked_def by blast
  then show "asked s s''" unfolding asked_def by (intro exI [of _ m]) simp
qed

interpretation waits: act_frame waited
proof
  fix s s' s'' :: supervisor
  show "waited s s" unfolding waited_def by (rule exI [of _ "sv_calls s"], rule exI [of _ "sv_slept s"]) simp
  assume "waited s s'" "waited s' s''"
  then obtain n d m e where "s' = s\<lparr>sv_calls := n, sv_slept := d\<rparr>" "s'' = s'\<lparr>sv_calls := m, sv_slept := e\<rparr>"
    unfolding waited_def by blast
  then show "waited s s''" unfolding waited_def by (intro exI [of _ m] exI [of _ e]) simp
qed

lemma asked_waited: "asked s s' \<Longrightarrow> waited s s'"
proof -
  assume "asked s s'"
  then obtain n where "s' = s\<lparr>sv_calls := n\<rparr>" unfolding asked_def by blast
  then show ?thesis unfolding waited_def by (intro exI [of _ n] exI [of _ "sv_slept s"]) simp
qed

lemma keeps_mono: "keeps R m \<Longrightarrow> (\<And>s s'. R s s' \<Longrightarrow> R' s s') \<Longrightarrow> keeps R' m"
  by (simp add: keeps_def)

lemma asked_Suc: "asked s (s\<lparr>sv_calls := Suc (sv_calls s)\<rparr>)"
  unfolding asked_def by (rule exI [of _ "Suc (sv_calls s)"]) simp

lemma keeps_asked [intro!, simp]: "keeps asked (ask k)"
  by (rule asks.keeps_ask) (rule asked_Suc)

lemma keeps_clocks [intro!, simp]: "keeps asked utc_now" "keeps asked instant_now" "keeps asked (policy_current p)"
    "keeps asked try_wait" "keeps asked load_tls"
  unfolding utc_now_def instant_now_def policy_current_def try_wait_def load_tls_def
  by (intro asks.keeps_bind asks.keeps_pure keeps_asked)+

lemma keeps_probe [intro!, simp]: "keeps asked probe_router"
  unfolding probe_router_def
  by (auto intro!: asks.keeps_bind asks.keeps_pure split: option.split probe_outcome.split)

lemma waited_sleep: "waited s (s\<lparr>sv_slept := d\<rparr>)"
  unfolding waited_def by (intro exI [of _ "sv_calls s"] exI [of _ d]) simp

lemma keeps_wait_loop: "keeps waited (wait_ready_loop fuel deadline last_failure)"
proof (induction fuel arbitrary: last_failure)
  case (Suc fuel)
  have "keeps waited (sleep d)" for d
    unfolding sleep_def by (rule waits.keeps_modify) (rule waited_sleep)
  then show ?case
    by (auto intro!: waits.keeps_bind waits.keeps_pure Suc.IH keeps_mono [OF keeps_probe asked_waited]
      keeps_mono [OF keeps_clocks(2) asked_waited] split: option.split)
qed (simp add: waits.keeps_pure)

text \<open>
  Under a clock that does not run backwards, the loop reaches its deadline: once the time left
  is at most \<open>k\<close> sleeps, any two amounts of fuel above \<open>k\<close> agree.
\<close>

lemma bind_instant_now:
  "bind_act instant_now f env s =
    f (re_monotonic env (sv_calls s) + sv_slept s) env (s\<lparr>sv_calls := Suc (sv_calls s)\<rparr>)"
  by (simp add: instant_now_def bind_act_def ask_def gets_act_def)

lemma wait_loop_step:
  "wait_ready_loop (Suc fuel) deadline message env s =
    (if re_monotonic env (sv_calls s) + sv_slept s \<ge> deadline then
       (s\<lparr>sv_calls := Suc (sv_calls s)\<rparr>, Inl (NotReady (''Zenoh readiness deadline passed: '' @ message)))
     else bind_act probe_router (\<lambda>failure. case failure of None \<Rightarrow> ret ()
       | Some message \<Rightarrow> bind_act (sleep 100000) (\<lambda>_. wait_ready_loop fuel deadline message)) env
       (s\<lparr>sv_calls := Suc (sv_calls s)\<rparr>))"
  unfolding wait_ready_loop.simps(2) bind_instant_now
  by (cases "re_monotonic env (sv_calls s) + sv_slept s \<ge> deadline") (simp_all only: if_True if_False lift_result_def)

lemma bind_cong_right:
  assumes "\<And>x s'. m env s = (s', Inr x) \<Longrightarrow> f x env s' = g x env s'"
  shows "bind_act m f env s = bind_act m g env s"
  using assms by (auto simp: bind_act_def split: prod.split sum.split)

lemma bind_sleep: "bind_act (sleep d) f env s = f () env (s\<lparr>sv_slept := sv_slept s + d\<rparr>)"
  by (simp add: sleep_def bind_act_def modify_act_def)

lemma wait_loop_fuel:
  assumes "mono (re_monotonic env)" and "deadline \<le> re_monotonic env (sv_calls s) + sv_slept s + 100000 * int k"
    and "k < fuel" and "k < fuel'"
  shows "wait_ready_loop fuel deadline message env s = wait_ready_loop fuel' deadline message env s"
  using assms(2-)
proof (induction k arbitrary: fuel fuel' message s)
  case 0
  then obtain f f' where f: "fuel = Suc f" "fuel' = Suc f'" by (cases fuel; cases fuel') auto
  have due: "deadline \<le> re_monotonic env (sv_calls s) + sv_slept s" using 0 by simp
  show ?case unfolding f wait_loop_step if_P [OF due] ..
next
  case (Suc k)
  from Suc.prems(2,3) obtain f f' where f: "fuel = Suc f" "fuel' = Suc f'" "k < f" "k < f'"
    by (cases fuel; cases fuel') auto
  let ?s = "s\<lparr>sv_calls := Suc (sv_calls s)\<rparr>"
  have "bind_act probe_router (\<lambda>failure. case failure of None \<Rightarrow> ret ()
        | Some message \<Rightarrow> bind_act (sleep 100000) (\<lambda>_. wait_ready_loop f deadline message)) env ?s =
      bind_act probe_router (\<lambda>failure. case failure of None \<Rightarrow> ret ()
        | Some message \<Rightarrow> bind_act (sleep 100000) (\<lambda>_. wait_ready_loop f' deadline message)) env ?s"
  proof (rule bind_cong_right)
    fix x s'
    assume run: "probe_router env ?s = (s', Inr x)"
    have "asked ?s s'" using keeps_probe run unfolding keeps_def by (metis fst_conv)
    then have "sv_slept s' = sv_slept s" "sv_calls s \<le> sv_calls s'" unfolding asked_def by auto
    with assms(1) have "re_monotonic env (sv_calls s) + sv_slept s \<le> re_monotonic env (sv_calls s') + sv_slept s'"
      by (simp add: mono_def)
    then have "wait_ready_loop f deadline m env (s'\<lparr>sv_slept := sv_slept s' + 100000\<rparr>) =
        wait_ready_loop f' deadline m env (s'\<lparr>sv_slept := sv_slept s' + 100000\<rparr>)" for m
      using Suc.prems(1) f(3,4) by (intro Suc.IH) auto
    then show "(case x of None \<Rightarrow> ret () | Some message \<Rightarrow>
          bind_act (sleep 100000) (\<lambda>_. wait_ready_loop f deadline message)) env s' =
        (case x of None \<Rightarrow> ret () | Some message \<Rightarrow>
          bind_act (sleep 100000) (\<lambda>_. wait_ready_loop f' deadline message)) env s'"
      by (cases x) (simp_all only: option.case bind_sleep)
  qed
  then show ?case unfolding f wait_loop_step by (rule arg_cong)
qed

text \<open>The deadline of \<^verbatim>\<open>activate\<close> is at most ten seconds after a reading of the clock, so the fuel is enough.\<close>

lemma wait_ready_enough:
  assumes "mono (re_monotonic env)" and "n \<le> sv_calls s" and "101 \<le> fuel"
    and "deadline \<le> re_monotonic env n + sv_slept s + START_TIMEOUT"
  shows "wait_ready_loop fuel deadline ''The mTLS probe has not connected.'' env s = wait_ready deadline env s"
  unfolding wait_ready_def
proof (rule wait_loop_fuel [where k = 100])
  have "re_monotonic env n \<le> re_monotonic env (sv_calls s)" using assms(1,2) by (simp add: mono_def)
  then show "deadline \<le> re_monotonic env (sv_calls s) + sv_slept s + 100000 * int 100"
    using assms(4) by (simp add: START_TIMEOUT_def)
qed (use assms in auto)

subsection \<open>What the operations leave alone\<close>

text \<open>The identity of the host, its policy in memory and on disk, and the acknowledged status.\<close>

definition same_view :: "supervisor \<Rightarrow> supervisor \<Rightarrow> bool" where
  "same_view s s' \<longleftrightarrow> sv_key s' = sv_key s \<and> sv_fleet_id s' = sv_fleet_id s \<and> sv_policy s' = sv_policy s \<and>
    sv_policy_file s' = sv_policy_file s"

lemma asked_simps:
  assumes "asked s s'"
  shows "same_view s s'" "sv_child s' = sv_child s" "sv_status s' = sv_status s" "sv_tls s' = sv_tls s"
    "sv_router_file s' = sv_router_file s"
  using assms by (auto simp: asked_def same_view_def)

lemma waited_simps:
  assumes "waited s s'"
  shows "same_view s s'" "sv_child s' = sv_child s" "sv_status s' = sv_status s" "sv_tls s' = sv_tls s"
    "sv_router_file s' = sv_router_file s"
  using assms by (auto simp: waited_def same_view_def)

lemma wp_asks:
  assumes "keeps asked m" and "\<And>r s'. same_view s s' \<Longrightarrow> sv_child s' = sv_child s \<Longrightarrow> sv_status s' = sv_status s \<Longrightarrow>
    sv_tls s' = sv_tls s \<Longrightarrow> sv_router_file s' = sv_router_file s \<Longrightarrow> Q r s'"
  shows "wp m Q env s"
  by (rule asks.wp_keeps [OF assms(1)]) (use assms(2) asked_simps in blast)

lemma wp_wait:
  assumes "\<And>r s'. same_view s s' \<Longrightarrow> sv_child s' = sv_child s \<Longrightarrow> sv_status s' = sv_status s \<Longrightarrow>
    sv_tls s' = sv_tls s \<Longrightarrow> sv_router_file s' = sv_router_file s \<Longrightarrow> Q r s'"
  shows "wp (wait_ready deadline) Q env s"
  unfolding wait_ready_def
  by (rule waits.wp_keeps [OF keeps_wait_loop]) (use assms waited_simps in blast)

lemma wp_stop:
  assumes "\<And>r s'. same_view s s' \<Longrightarrow> sv_child s' = None \<Longrightarrow> sv_status s' = sv_status s \<Longrightarrow>
    sv_router_file s' = sv_router_file s \<Longrightarrow> Q r s'"
  shows "wp stop Q env s"
  unfolding stop_def
  by (auto simp: wp_rules try_wait_def same_view_def intro!: assms split: option.split sum.split)

lemma wp_report_and_stop:
  assumes "\<And>r s'. same_view s s' \<Longrightarrow> sv_child s' = None \<Longrightarrow> \<not> rs_ready (sv_status s') \<Longrightarrow>
    rs_generation (sv_status s') = rs_generation (sv_status s) \<Longrightarrow> Q r s'"
  shows "wp (report_and_stop message) Q env s"
  unfolding report_and_stop_def not_ready_def
  by (auto simp: wp_rules same_view_def intro!: wp_stop assms split: sum.split)

section \<open>The invariant\<close>

text \<open>
  What the stored bytes are read back as: the document that was written.  This is the
  documented behaviour of the JSON serializer and parser.
\<close>

definition storage_roundtrip :: "router_env \<Rightarrow> bool" where
  "storage_roundtrip env \<longleftrightarrow>
    (\<forall>signed_policy bytes. re_canonical_signed env signed_policy = Inr bytes \<longrightarrow>
      re_parse_signed env bytes = Inr signed_policy)"

definition verified :: "router_env \<Rightarrow> bytes \<Rightarrow> string \<Rightarrow> verified_policy \<Rightarrow> bool" where
  "verified env key fleet p \<longleftrightarrow> SignedPolicy_verify (re_crypto env) key fleet (vp_signed p) = Inr p"

definition stored :: "router_env \<Rightarrow> verified_policy \<Rightarrow> supervisor \<Rightarrow> bool" where
  "stored env p s \<longleftrightarrow> (\<exists>bytes. re_canonical_signed env (vp_signed p) = Inr bytes \<and> sv_policy_file s = Some bytes)"

definition enforces :: "structured_value \<Rightarrow> verified_policy \<Rightarrow> bool" where
  "enforces config p \<longleftrightarrow> json_get config ''access_control'' = Some (access_control p)"

text \<open>
  \<open>F\<close> is a demand on the policy in memory and on the one a restart would read, such as a lower
  bound on the generation.
\<close>

definition policies_ok ::
    "router_env \<Rightarrow> bytes \<Rightarrow> string \<Rightarrow> (verified_policy option \<Rightarrow> bool) \<Rightarrow> supervisor \<Rightarrow> bool" where
  "policies_ok env key fleet F s \<longleftrightarrow> sv_key s = key \<and> sv_fleet_id s = fleet \<and> F (sv_policy s) \<and>
    (\<forall>p. sv_policy s = Some p \<longrightarrow> verified env key fleet p) \<and>
    (\<forall>n found. PolicyStore_load env n (sv_policy_file s) key fleet = Inr found \<longrightarrow> F found)"

definition process_ok :: "supervisor \<Rightarrow> bool" where
  "process_ok s \<longleftrightarrow> (\<forall>config. sv_child s = Some config \<longrightarrow> (\<exists>p. sv_policy s = Some p \<and> enforces config p)) \<and>
    (rs_ready (sv_status s) \<longrightarrow> sv_child s \<noteq> None)"

definition ready_stored :: "router_env \<Rightarrow> supervisor \<Rightarrow> bool" where
  "ready_stored env s \<longleftrightarrow> (rs_ready (sv_status s) \<longrightarrow> (\<exists>p. sv_policy s = Some p \<and> stored env p s))"

definition supervisor_ok ::
    "router_env \<Rightarrow> bytes \<Rightarrow> string \<Rightarrow> (verified_policy option \<Rightarrow> bool) \<Rightarrow> supervisor \<Rightarrow> bool" where
  "supervisor_ok env key fleet F s \<longleftrightarrow> policies_ok env key fleet F s \<and> process_ok s \<and> ready_stored env s"

lemma policies_ok_view: "same_view s s' \<Longrightarrow> policies_ok env key fleet F s' = policies_ok env key fleet F s"
  by (simp add: policies_ok_def same_view_def)

lemma stored_view: "same_view s s' \<Longrightarrow> stored env p s' = stored env p s"
  by (simp add: stored_def same_view_def)

lemma same_view_policy: "same_view s s' \<Longrightarrow> sv_policy s' = sv_policy s"
  by (simp add: same_view_def)

lemma unready_ok: "\<not> rs_ready (sv_status s) \<Longrightarrow> ready_stored env s"
  by (simp add: ready_stored_def)

lemma stopped_ok: "sv_child s = None \<Longrightarrow> \<not> rs_ready (sv_status s) \<Longrightarrow> process_ok s"
  by (simp add: process_ok_def)

text \<open>Steps that keep the view, the process and the status keep the invariant.\<close>

lemma supervisor_ok_frame:
  assumes "same_view s s'" and "sv_child s' = sv_child s" and "rs_ready (sv_status s') = rs_ready (sv_status s)"
  shows "supervisor_ok env key fleet F s' = supervisor_ok env key fleet F s"
  using assms same_view_policy [OF assms(1)]
  by (simp add: supervisor_ok_def policies_ok_view process_ok_def ready_stored_def stored_view)

lemma load_stored:
  assumes "storage_roundtrip env" and "verified env key fleet p" and "re_canonical_signed env (vp_signed p) = Inr bytes"
    and "PolicyStore_load env n (Some bytes) key fleet = Inr found"
  shows "found = Some p"
  using assms by (auto simp: storage_roundtrip_def verified_def PolicyStore_load_def and_then_eq_Inr split: option.splits if_splits)

lemma load_verified:
  assumes "PolicyStore_load env n file key fleet = Inr (Some p)"
  shows "verified env key fleet p"
  using assms
  by (auto simp: verified_def PolicyStore_load_def SignedPolicy_verify_def and_then_eq_Inr ok_or_eq_Inr split: option.splits if_splits)

lemma wp_persist:
  assumes "storage_roundtrip env" and "verified env key fleet p" and "F (Some p)" and "policies_ok env key fleet F s"
    and "sv_policy s = Some p"
    and "\<And>r s'. policies_ok env key fleet F s' \<Longrightarrow> sv_policy s' = Some p \<Longrightarrow> sv_child s' = sv_child s \<Longrightarrow>
      sv_status s' = sv_status s \<Longrightarrow> (is_ok r \<Longrightarrow> stored env p s') \<Longrightarrow> Q r s'"
  shows "wp (PolicyStore_persist p) Q env s"
proof (cases "re_canonical_signed env (vp_signed p)")
  case (Inl e)
  then show ?thesis using assms(4,5) by (auto simp: PolicyStore_persist_def wp_rules is_ok_iff intro!: assms(6))
next
  case (Inr bytes)
  let ?n = "s\<lparr>sv_calls := Suc (sv_calls s)\<rparr>" and ?w = "s\<lparr>sv_calls := Suc (sv_calls s), sv_policy_file := Some bytes\<rparr>"
  have n: "policies_ok env key fleet F ?n" using assms(4) by (simp add: policies_ok_def)
  have w: "policies_ok env key fleet F ?w"
    using assms(1-4) Inr load_stored [OF assms(1,2) Inr] by (auto simp: policies_ok_def)
  have "stored env p ?w" using Inr by (simp add: stored_def)
  then show ?thesis using assms(5) n w Inr
    by (auto simp: PolicyStore_persist_def wp_rules is_ok_iff intro!: assms(6) split: write_outcome.split)
qed

lemma render_enforces:
  assumes "RouterConfig_render zenoh c p = Inr config"
  shows "enforces config p"
  using assms by (auto simp: RouterConfig_render_def Let_def and_then_eq_Inr enforces_def json_get_def split: option.splits)

lemma configure_enforces:
  assumes "DataTls_configure zenoh base64 tls config = Inr config'" and "enforces config p"
  shows "enforces config' p"
  using assms DataTls_configure_keeps [OF assms(1), of "''access_control''"] by (simp add: enforces_def)

lemma access_control_authority: "has_same_authority p q \<Longrightarrow> access_control p = access_control q"
  by (simp add: has_same_authority_def Let_def access_control_def acl_rules_def acl_subjects_def acl_policies_def
      trusted_rule_def)

subsection \<open>Activation\<close>

lemmas wp_clocks = keeps_clocks [THEN wp_asks]

lemmas wp_simps = wp_ret wp_lift_result wp_gets wp_modify wp_with_env wp_bind wp_try

lemma wp_write_router_file:
  assumes "\<And>r s'. same_view s s' \<Longrightarrow> sv_child s' = sv_child s \<Longrightarrow> sv_status s' = sv_status s \<Longrightarrow>
    (is_ok r \<Longrightarrow> sv_router_file s' = Some config) \<Longrightarrow> Q r s'"
  shows "wp (write_router_file config) Q env s"
  by (auto simp: write_router_file_def wp_rules same_view_def is_ok_iff intro!: assms split: write_outcome.split)

lemma wp_spawn:
  assumes "\<And>r s'. same_view s s' \<Longrightarrow> sv_status s' = sv_status s \<Longrightarrow> sv_child s' = sv_child s \<or> sv_child s' = sv_router_file s \<Longrightarrow>
    (is_ok r \<Longrightarrow> sv_child s' = sv_router_file s) \<Longrightarrow> Q r s'"
  shows "wp spawn Q env s"
  by (auto simp: spawn_def wp_rules same_view_def is_ok_iff intro!: assms split: option.split)

text \<open>The process that start_router leaves runs the written configuration, and ready means it runs.\<close>

definition launched :: "structured_value \<Rightarrow> supervisor \<Rightarrow> unit router_result \<Rightarrow> supervisor \<Rightarrow> bool" where
  "launched config s r s' \<longleftrightarrow> same_view s s' \<and> (sv_child s' = None \<or> sv_child s' = Some config) \<and>
    (rs_ready (sv_status s') \<longrightarrow> sv_child s' \<noteq> None) \<and> (is_ok r \<longrightarrow> rs_ready (sv_status s'))"

lemma wp_start_router:
  assumes "sv_router_file s = Some config" and "sv_child s = None" and "\<not> rs_ready (sv_status s)"
  shows "wp (start_router p tls) (launched config s) env s"
  unfolding start_router_def Let_def not_ready_def using assms
  by (auto simp: wp_simps launched_def same_view_def is_ok_iff
      intro!: wp_spawn wp_clocks wp_wait wp_stop split: sum.split)

text \<open>What every operation leaves: the invariant, and after success the given policy is ready.\<close>

definition settled ::
    "router_env \<Rightarrow> bytes \<Rightarrow> string \<Rightarrow> (verified_policy option \<Rightarrow> bool) \<Rightarrow> verified_policy \<Rightarrow>
     'a router_result \<Rightarrow> supervisor \<Rightarrow> bool" where
  "settled env key fleet F p r s' \<longleftrightarrow> supervisor_ok env key fleet F s' \<and>
    (is_ok r \<longrightarrow> rs_ready (sv_status s') \<and> sv_policy s' = Some p)"

text \<open>The tail of an activation, once the policy is stored and no process runs.\<close>

lemma launched_settled:
  assumes "policies_ok env key fleet F s" and "sv_policy s = Some p" and "stored env p s" and "enforces config p"
    and "launched config s r s'"
  shows "settled env key fleet F p r s'" and "sv_policy s' = Some p"
  using assms
  by (auto simp: settled_def supervisor_ok_def launched_def policies_ok_view stored_view process_ok_def ready_stored_def
      same_view_policy)

lemma unlaunched_ok:
  assumes "policies_ok env key fleet F s" and "sv_child s = None" and "\<not> rs_ready (sv_status s)"
  shows "supervisor_ok env key fleet F s"
  using assms by (simp add: supervisor_ok_def unready_ok stopped_ok)

lemma policies_ok_put:
  assumes "policies_ok env key fleet F s" and "verified env key fleet p" and "F (Some p)"
  shows "policies_ok env key fleet F (s\<lparr>sv_policy := Some p\<rparr>)"
  using assms by (simp add: policies_ok_def)

lemma policies_ok_update [simp]:
  "policies_ok env key fleet F (s\<lparr>sv_status := x\<rparr>) = policies_ok env key fleet F s"
  "policies_ok env key fleet F (s\<lparr>sv_child := c\<rparr>) = policies_ok env key fleet F s"
  "policies_ok env key fleet F (s\<lparr>sv_next_tls_check := n\<rparr>) = policies_ok env key fleet F s"
  by (simp_all add: policies_ok_def)

lemma wp_prepare:
  assumes "policies_ok env key fleet F s" and "sv_policy s = Some p" and "stored env p s" and "enforces config p"
    and "sv_child s = None" and "\<not> rs_ready (sv_status s)"
  shows "wp (prepare_router p config) (\<lambda>r s'. settled env key fleet F p r s' \<and> sv_policy s' = Some p) env s"
proof -
  define Q where "Q r s' \<longleftrightarrow> settled env key fleet F p r s' \<and> sv_policy s' = Some p" for r :: "unit router_result" and s'
  have quiet: "Q (Inl e) s'" if "same_view s s'" "sv_child s' = None" "sv_status s' = sv_status s" for e s'
    using that assms by (auto simp: Q_def settled_def policies_ok_view same_view_policy intro!: unlaunched_ok)
  have start: "wp (start_router p tls) Q env s'"
    if "same_view s s'" "sv_child s' = None" "sv_status s' = sv_status s" "sv_router_file s' = Some config'"
      "enforces config' p" for s' tls config'
    by (rule wp_mono [OF wp_start_router [OF that(4,2)]])
      (use that assms launched_settled [of env key fleet F s' p config'] in
        \<open>auto simp: Q_def policies_ok_view stored_view same_view_policy\<close>)
  show ?thesis unfolding Q_def [symmetric] prepare_router_def
    using assms(5,4)
    by (auto simp: wp_simps is_ok_iff same_view_def dest: configure_enforces intro!: wp_clocks wp_write_router_file quiet start
        split: sum.split)
qed

lemma wp_activate:
  assumes "storage_roundtrip env" and "verified env key fleet p" and "F (Some p)" and "supervisor_ok env key fleet F s"
  shows "wp (activate p) (\<lambda>r s'. settled env key fleet F p r s' \<and> (sv_policy s' = sv_policy s \<or> sv_policy s' = Some p)) env s"
proof -
  define Q where "Q r s' \<longleftrightarrow> settled env key fleet F p r s' \<and> (sv_policy s' = sv_policy s \<or> sv_policy s' = Some p)"
    for r :: "unit router_result" and s'
  have ok: "policies_ok env key fleet F s" using assms(4) by (simp add: supervisor_ok_def)
  have same: "Q (Inl e) s" for e using assms(4) by (simp add: Q_def settled_def)
  have off: "Q (Inl e) s'" if "policies_ok env key fleet F s'" "sv_child s' = None" "\<not> rs_ready (sv_status s')"
      "sv_policy s' = sv_policy s \<or> sv_policy s' = Some p" for e s'
    using unlaunched_ok [OF that(1-3)] that(4) by (simp add: Q_def settled_def)
  have view: "policies_ok env key fleet F s'" if "same_view s s'" for s'
    using ok that by (simp add: policies_ok_view)
  have tail: "wp (prepare_router p config) Q env s'"
    if "policies_ok env key fleet F s'" "sv_policy s' = Some p" "stored env p s'" "enforces config p"
      "sv_child s' = None" "\<not> rs_ready (sv_status s')" for s' config
    by (rule wp_mono [OF wp_prepare [OF that]]) (simp add: Q_def)
  show ?thesis unfolding Q_def [symmetric] activate_def not_ready_def publish_policy_def
    by (auto simp: wp_simps view stored_def same_view_def dest: render_enforces
        intro!: wp_stop wp_persist [where F = F, OF assms(1-3)] same off tail policies_ok_put [where F = F, OF _ assms(2,3)] split: sum.split)
qed

lemma supervisor_ok_next [simp]:
  "supervisor_ok env key fleet F (s\<lparr>sv_next_tls_check := n\<rparr>) = supervisor_ok env key fleet F s"
  by (rule supervisor_ok_frame) (simp_all add: same_view_def)

lemma not_ready_ok:
  assumes "supervisor_ok env key fleet F s"
  shows "supervisor_ok env key fleet F (s\<lparr>sv_status := (sv_status s)\<lparr>rs_ready := False, rs_message := m\<rparr>\<rparr>)"
  using assms by (simp add: supervisor_ok_def process_ok_def ready_stored_def)

text \<open>The invariant holds and the policy in memory is the same.\<close>

definition undisturbed ::
    "router_env \<Rightarrow> bytes \<Rightarrow> string \<Rightarrow> (verified_policy option \<Rightarrow> bool) \<Rightarrow> supervisor \<Rightarrow> supervisor \<Rightarrow> bool" where
  "undisturbed env key fleet F s s' \<longleftrightarrow> supervisor_ok env key fleet F s' \<and> sv_policy s' = sv_policy s"

lemma undisturbedI:
  assumes "supervisor_ok env key fleet F s" and "same_view s s'" and "sv_child s' = sv_child s" and
    "sv_status s' = sv_status s"
  shows "undisturbed env key fleet F s s'"
  using assms supervisor_ok_frame [OF assms(2,3)] by (simp add: undisturbed_def same_view_policy)

lemma undisturbed_still:
  assumes "supervisor_ok env key fleet F s" and "same_view s s'"
    and "sv_child s' = sv_child s \<and> sv_status s' = sv_status s \<or> sv_child s' = None \<and> \<not> rs_ready (sv_status s')"
  shows "undisturbed env key fleet F s s'"
  using assms undisturbedI [OF assms(1,2)]
  by (auto simp: undisturbed_def same_view_policy supervisor_ok_def policies_ok_view unready_ok stopped_ok)

lemma wp_activate_or_report:
  assumes "storage_roundtrip env" and "supervisor_ok env key fleet F s" and "sv_policy s = Some p"
  shows "wp (activate_or_report p) (\<lambda>r s'. undisturbed env key fleet F s s') env s"
proof -
  have p: "verified env key fleet p" "F (Some p)"
    using assms(2,3) by (auto simp: supervisor_ok_def policies_ok_def)
  show ?thesis unfolding activate_or_report_def wp_bind wp_try
    by (rule wp_mono [OF wp_activate [where F = F, OF assms(1) p assms(2)]])
      (use assms(3) in \<open>auto simp: not_ready_def wp_simps settled_def undisturbed_def intro: not_ready_ok split: sum.split\<close>)
qed

text \<open>The parts of \<^verbatim>\<open>observe\<close>, from a state that has moved on by some calls.\<close>

lemma wp_after:
  assumes "supervisor_ok env key fleet F s" and "same_view s s'" and "sv_child s' = sv_child s" and
    "sv_status s' = sv_status s"
    and "supervisor_ok env key fleet F s' \<Longrightarrow> wp m (\<lambda>r. undisturbed env key fleet F s') env s'"
  shows "wp m (\<lambda>r. undisturbed env key fleet F s) env s'"
proof -
  have "undisturbed env key fleet F s s'" by (rule undisturbedI [OF assms(1-4)])
  then show ?thesis using assms(5) by (auto simp: undisturbed_def elim: wp_mono)
qed

lemma wp_check_credentials:
  assumes "storage_roundtrip env" and ok: "supervisor_ok env key fleet F s"
  shows "wp check_credentials (\<lambda>r. undisturbed env key fleet F s) env s"
  unfolding check_credentials_def
  by (auto simp: wp_simps wp_ask ok_or_def same_view_def
      intro!: wp_clocks wp_report_and_stop undisturbed_still [OF ok] wp_after [where m = "activate_or_report p" for p, OF ok]
        wp_activate_or_report [OF assms(1)]
      split: sum.split option.split)

lemma wp_observe_process:
  assumes "storage_roundtrip env" and ok: "supervisor_ok env key fleet F s"
  shows "wp observe_process (\<lambda>r. undisturbed env key fleet F s) env s"
  unfolding observe_process_def not_ready_def
  by (auto simp: wp_simps same_view_def
      intro!: wp_clocks wp_report_and_stop undisturbed_still [OF ok] wp_after [where m = "check_credentials", OF ok]
        wp_check_credentials [OF assms(1)]
      split: sum.split option.split)

lemma wp_observe_absent:
  assumes "storage_roundtrip env" and ok: "supervisor_ok env key fleet F s"
  shows "wp observe_absent (\<lambda>r. undisturbed env key fleet F s) env s"
  unfolding observe_absent_def
  by (auto simp: wp_simps same_view_def
      intro!: wp_clocks undisturbed_still [OF ok] wp_after [where m = "activate_or_report p" for p, OF ok]
        wp_activate_or_report [OF assms(1)]
      split: sum.split option.split)

lemma wp_observe_running:
  assumes "storage_roundtrip env" and "supervisor_ok env key fleet F s"
  shows "wp observe_running (\<lambda>r. undisturbed env key fleet F s) env s"
  unfolding observe_running_def
  using wp_observe_process [OF assms] wp_observe_absent [OF assms] by (simp add: wp_simps)

lemma wp_observe:
  assumes "storage_roundtrip env" and ok: "supervisor_ok env key fleet F s"
  shows "wp observe (\<lambda>r. undisturbed env key fleet F s) env s"
  unfolding observe_def
  by (auto simp: wp_simps same_view_def
      intro!: wp_clocks wp_report_and_stop undisturbed_still [OF ok] wp_after [where m = "observe_running", OF ok]
        wp_observe_running [OF assms(1)] ok
      split: sum.split option.split)

subsection \<open>Refresh and update\<close>

lemma process_ok_frame:
  "sv_child s' = sv_child s \<Longrightarrow> sv_status s' = sv_status s \<Longrightarrow> sv_policy s' = sv_policy s \<Longrightarrow> process_ok s' = process_ok s"
  by (simp add: process_ok_def)

text \<open>While the new policy is being stored, expired authority ends the process; a failure to end it is not ready.\<close>

definition refreshing ::
    "router_env \<Rightarrow> bytes \<Rightarrow> string \<Rightarrow> (verified_policy option \<Rightarrow> bool) \<Rightarrow> verified_policy \<Rightarrow> router_error option \<Rightarrow>
     supervisor \<Rightarrow> bool" where
  "refreshing env key fleet F p stop_failure s \<longleftrightarrow> policies_ok env key fleet F s \<and> process_ok s \<and>
    sv_policy s = Some p \<and> (stop_failure \<noteq> None \<longrightarrow> \<not> rs_ready (sv_status s))"

lemma refreshing_still:
  assumes "refreshing env key fleet F p stop_failure s" and "same_view s s'" and "sv_child s' = sv_child s" and
    "sv_status s' = sv_status s"
  shows "refreshing env key fleet F p stop_failure s'"
  using assms process_ok_frame [OF assms(3,4) same_view_policy [OF assms(2)]]
  by (simp add: refreshing_def policies_ok_view same_view_policy)

lemma refreshing_stopped:
  assumes "refreshing env key fleet F p stop_failure s" and "same_view s s'" and "sv_child s' = None" and
    "\<not> rs_ready (sv_status s')"
  shows "refreshing env key fleet F p stop_failure' s'"
  using assms by (simp add: refreshing_def policies_ok_view same_view_policy stopped_ok)

lemma wp_refresh_ticks:
  assumes "refreshing env key fleet F p stop_failure s"
  shows "wp (refresh_ticks n previous stop_failure) (\<lambda>r s'. \<exists>failed. r = Inr failed \<and> refreshing env key fleet F p failed s') env s"
  using assms
proof (induction n arbitrary: s stop_failure)
  case (Suc n)
  have next_tick: "wp (refresh_ticks n previous failed)
      (\<lambda>r s'. \<exists>failed. r = Inr failed \<and> refreshing env key fleet F p failed s') env s'"
    if "same_view s s'" "sv_child s' = sv_child s \<and> sv_status s' = sv_status s \<and> failed = stop_failure \<or>
      sv_child s' = None \<and> \<not> rs_ready (sv_status s')" for s' failed
    by (rule Suc.IH) (use that refreshing_still [OF Suc.prems that(1)] refreshing_stopped [OF Suc.prems that(1)] in blast)
  show ?case unfolding refresh_ticks.simps not_ready_def policy_current_def
    by (auto simp: wp_simps utc_now_def wp_ask same_view_def intro!: wp_stop next_tick split: sum.split option.split)
qed (simp add: wp_simps)

lemma settled_publish:
  assumes "supervisor_ok env key fleet F s" and "sv_policy s = Some p" and "rs_ready (sv_status s)" and "rs_ready status"
  shows "settled env key fleet F p (Inr ()) (s\<lparr>sv_status := status\<rparr>)"
  using assms by (auto simp: settled_def supervisor_ok_def process_ok_def ready_stored_def stored_def)

lemma wp_confirm_refresh:
  assumes "storage_roundtrip env" and p: "verified env key fleet p" "F (Some p)" and ok: "supervisor_ok env key fleet F s"
    and "sv_policy s = Some p"
  shows "wp (confirm_refresh previous p) (settled env key fleet F p) env s"
proof -
  define Q :: "unit router_result \<Rightarrow> supervisor \<Rightarrow> bool" where "Q = settled env key fleet F p"
  have rest: "wp (bind_act (try_act (policy_current previous)) (\<lambda>current. bind_act is_ready (\<lambda>ready.
      if \<not> is_ok current \<or> \<not> ready then activate p
      else bind_act (policy_current p) (\<lambda>_. bind_act (publish_policy p) (\<lambda>_.
        modify_act (\<lambda>s. s\<lparr>sv_status := (sv_status s)\<lparr>rs_message := m\<rparr>\<rparr>)))))) Q env s'"
    if s': "supervisor_ok env key fleet F s'" "sv_policy s' = Some p" for s' m
  proof -
    have frame: "supervisor_ok env key fleet F s''" "sv_policy s'' = Some p"
      if "same_view s' s''" "sv_child s'' = sv_child s'" "sv_status s'' = sv_status s'" for s''
      using supervisor_ok_frame [OF that(1,2)] s' that by (simp_all add: same_view_policy)
    have failed: "Q (Inl e) s''"
      if "same_view s' s''" "sv_child s'' = sv_child s'" "sv_status s'' = sv_status s'" for e s''
      using frame [OF that] by (simp add: Q_def settled_def)
    have activate: "wp (activate p) Q env s''"
      if "same_view s' s''" "sv_child s'' = sv_child s'" "sv_status s'' = sv_status s'" for s''
      by (rule wp_mono [OF wp_activate [where F = F, OF assms(1) p frame(1) [OF that]]]) (simp add: Q_def)
    have publish: "Q (Inr ()) (s''\<lparr>sv_status := status\<rparr>)"
      if "same_view s' s''" "sv_child s'' = sv_child s'" "sv_status s'' = sv_status s'" "rs_ready (sv_status s')"
        "rs_ready status" for s'' status
      unfolding Q_def using settled_publish [OF frame [OF that(1-3)]] that(3-5) by simp
    show ?thesis
      unfolding is_ready_def publish_policy_def
      by (auto simp: wp_simps same_view_def intro!: wp_clocks failed activate publish split: sum.split)
  qed
  show ?thesis unfolding confirm_refresh_def Q_def [symmetric]
    by (rule wp_bindI [OF wp_observe [OF assms(1) ok]])
      (use assms(5) rest in \<open>auto simp: undisturbed_def Q_def settled_def\<close>)
qed

lemma wp_refresh:
  assumes "storage_roundtrip env" and p: "verified env key fleet p" "F (Some p)" and ok: "supervisor_ok env key fleet F s"
    and "sv_policy s = Some q" and "has_same_authority p q"
  shows "wp (refresh p) (settled env key fleet F p) env s"
proof -
  define s1 where "s1 = s\<lparr>sv_policy := Some p, sv_calls := Suc (sv_calls s)\<rparr>"
  have "enforces c q = enforces c p" for c
    using access_control_authority [OF assms(6)] by (simp add: enforces_def)
  then have start: "refreshing env key fleet F p None s1"
    using ok p assms(5) by (auto simp: s1_def supervisor_ok_def refreshing_def policies_ok_def process_ok_def)
  have unready: "settled env key fleet F p (Inl e) s'"
    if "policies_ok env key fleet F s'" "process_ok s'" "\<not> rs_ready (sv_status s')" for e s'
    using that by (simp add: settled_def supervisor_ok_def unready_ok)
  have confirm: "wp (confirm_refresh q p) (settled env key fleet F p) env s'"
    if "policies_ok env key fleet F s'" "process_ok s'" "stored env p s'" "sv_policy s' = Some p" for s'
    by (rule wp_confirm_refresh [where F = F, OF assms(1) p _ that(4)])
      (use that in \<open>simp add: supervisor_ok_def ready_stored_def\<close>)
  have "wp (bind_act (refresh_ticks n q None) (\<lambda>stop_failure. bind_act (try_act (PolicyStore_persist p)) (\<lambda>written.
      case stop_failure of Some e \<Rightarrow> lift_result (Inl e)
      | None \<Rightarrow> (case written of
          Inl e \<Rightarrow> bind_act (report_and_stop (RouterError_to_string e)) (\<lambda>_. lift_result (Inl e))
        | Inr _ \<Rightarrow> confirm_refresh q p)))) (settled env key fleet F p) env s1" for n
  proof (rule wp_bindI [OF wp_refresh_ticks [OF start]])
    fix failed s'
    assume "\<exists>failed'. Inr failed = (Inr failed' :: router_error option router_result) \<and> refreshing env key fleet F p failed' s'"
    then have s': "policies_ok env key fleet F s'" "process_ok s'" "sv_policy s' = Some p"
        "failed \<noteq> None \<Longrightarrow> \<not> rs_ready (sv_status s')"
      by (auto simp: refreshing_def)
    have process: "process_ok s''"
      if "sv_policy s'' = Some p" "sv_child s'' = sv_child s' \<and> sv_status s'' = sv_status s' \<or>
        sv_child s'' = None \<and> \<not> rs_ready (sv_status s'')" for s''
      using s'(2,3) that by (auto simp: process_ok_def)
    show "wp (bind_act (try_act (PolicyStore_persist p)) (\<lambda>written.
        case failed of Some e \<Rightarrow> lift_result (Inl e)
        | None \<Rightarrow> (case written of
            Inl e \<Rightarrow> bind_act (report_and_stop (RouterError_to_string e)) (\<lambda>_. lift_result (Inl e))
          | Inr _ \<Rightarrow> confirm_refresh q p))) (settled env key fleet F p) env s'"
      using s'(1,3,4)
      by (auto simp: wp_simps policies_ok_view same_view_policy intro!: wp_persist [where F = F, OF assms(1) p] wp_report_and_stop
          unready confirm process split: sum.split option.split)
  qed blast
  then show ?thesis unfolding refresh_def using assms(5)
    by (simp add: wp_steps ok_or_def s1_def)
qed

text \<open>A demand that every policy the Supervisor accepts after another one inherits.\<close>

definition inherited :: "(verified_policy option \<Rightarrow> bool) \<Rightarrow> bool" where
  "inherited F \<longleftrightarrow> (\<forall>previous p. F previous \<longrightarrow> (\<forall>q. previous = Some q \<longrightarrow> is_ok (advances p q)) \<longrightarrow> F (Some p))"

lemma verify_verified:
  assumes "SignedPolicy_verify (re_crypto env) key fleet signed_policy = Inr p"
  shows "verified env key fleet p" and "vp_signed p = signed_policy"
proof -
  show "vp_signed p = signed_policy"
    using assms by (auto simp: SignedPolicy_verify_def and_then_eq_Inr ok_or_eq_Inr split: if_splits)
  then show "verified env key fleet p" using assms by (simp add: verified_def)
qed

definition same_generation :: "verified_policy \<Rightarrow> verified_policy \<Rightarrow> bool" where
  "same_generation p q \<longleftrightarrow> po_generation (vp_policy p) = po_generation (vp_policy q) \<and> vp_digest p = vp_digest q"

text \<open>An answer to an update: it is the current status, it is ready, and the policy in memory is the submitted one.\<close>

definition answered ::
    "router_env \<Rightarrow> bytes \<Rightarrow> string \<Rightarrow> (verified_policy option \<Rightarrow> bool) \<Rightarrow> verified_policy \<Rightarrow>
     router_status router_result \<Rightarrow> supervisor \<Rightarrow> bool" where
  "answered env key fleet F p r s' \<longleftrightarrow> supervisor_ok env key fleet F s' \<and>
    (\<forall>status. r = Inr status \<longrightarrow> status = sv_status s' \<and> rs_ready status \<and>
      (\<exists>q. sv_policy s' = Some q \<and> same_generation q p))"

lemma wp_install:
  assumes "storage_roundtrip env" and p: "verified env key fleet p" "F (Some p)" and ok: "supervisor_ok env key fleet F s"
  shows "wp (install p) (answered env key fleet F p) env s"
proof -
  have failed: "answered env key fleet F p (Inl e) s'" if "supervisor_ok env key fleet F s'" for e s'
    using that by (simp add: answered_def)
  have finish: "wp (bind_act m (\<lambda>_. gets_act sv_status)) (answered env key fleet F p) env s'"
    if "wp m (settled env key fleet F p) env s'" for m :: "unit act" and s'
    by (rule wp_bindI [OF that]) (auto simp: wp_simps settled_def answered_def same_generation_def)
  have refresh: "wp (refresh p) (settled env key fleet F p) env s'"
    if "supervisor_ok env key fleet F s'" "sv_policy s' = Some q" "has_same_authority p q" for s' q
    by (rule wp_refresh [where F = F, OF assms(1) p that])
  have activate: "wp (activate p) (settled env key fleet F p) env s'" if "supervisor_ok env key fleet F s'" for s'
    by (rule wp_mono [OF wp_activate [where F = F, OF assms(1) p that]]) simp
  have choose: "wp (bind_act is_ready (\<lambda>ready. bind_act (gets_act sv_policy) (\<lambda>policy.
      bind_act (if ready \<and> (case policy of None \<Rightarrow> False | Some previous \<Rightarrow> has_same_authority p previous)
        then refresh p else activate p) (\<lambda>_. gets_act sv_status)))) (answered env key fleet F p) env s'"
    if "supervisor_ok env key fleet F s'" for s'
    using that finish [OF refresh] finish [OF activate]
    by (auto simp: is_ready_def wp_steps split: option.split)
  show ?thesis unfolding install_def
    by (rule wp_bindI [OF wp_observe [OF assms(1) ok]]) (auto simp: undisturbed_def intro: failed choose)
qed

lemma wp_apply:
  assumes "storage_roundtrip env" and "inherited F" and ok: "supervisor_ok env key fleet F s"
    and verify: "SignedPolicy_verify (re_crypto env) key fleet signed_policy = Inr p"
  shows "wp (apply_policy signed_policy) (answered env key fleet F p) env s"
proof -
  define Q where "Q = answered env key fleet F p"
  have host: "sv_key s = key" "sv_fleet_id s = fleet" using ok by (simp_all add: supervisor_ok_def policies_ok_def)
  have F: "F (Some p)" if "case sv_policy s of None \<Rightarrow> True | Some q \<Rightarrow> is_ok (advances p q)"
    using assms(2) ok that unfolding inherited_def supervisor_ok_def policies_ok_def by (auto split: option.splits)
  have failed: "Q (Inl e) s'" if "same_view s s'" "sv_child s' = sv_child s" "sv_status s' = sv_status s" for e s'
    using undisturbedI [OF ok that] by (simp add: Q_def answered_def undisturbed_def)
  have install: "wp (install p) Q env s'" if "F (Some p)" "supervisor_ok env key fleet F s'" for s'
    unfolding Q_def by (rule wp_install [where F = F, OF assms(1) verify_verified(1) [OF verify] that])
  have confirm: "wp (bind_act observe (\<lambda>_. bind_act is_ready (\<lambda>ready. if ready then gets_act sv_status else install p))) Q env s'"
    if "F (Some p)" "supervisor_ok env key fleet F s'" "sv_policy s' = Some q" "advances p q = Inr False" for s' q
    by (rule wp_bindI [OF wp_observe [OF assms(1) that(2)]])
      (use that install in \<open>auto simp: is_ready_def wp_simps undisturbed_def Q_def answered_def same_generation_def
        advances_def split: if_splits\<close>)
  have decide: "wp (bind_act (gets_act sv_policy) (\<lambda>policy.
      bind_act (case policy of None \<Rightarrow> ret True | Some previous \<Rightarrow> lift_result (advances p previous)) (\<lambda>advanced.
      bind_act is_ready (\<lambda>ready.
      if \<not> advanced \<and> ready then
        bind_act observe (\<lambda>_. bind_act is_ready (\<lambda>ready. if ready then gets_act sv_status else install p))
      else install p)))) Q env s'"
    if "same_view s s'" "sv_child s' = sv_child s" "sv_status s' = sv_status s" for s'
  proof -
    have s': "supervisor_ok env key fleet F s'" "sv_policy s' = sv_policy s"
      using undisturbedI [OF ok that] by (simp_all add: undisturbed_def)
    show ?thesis
    proof (cases "sv_policy s")
      case None
      then show ?thesis using F s' install by (simp add: wp_steps is_ready_def)
    next
      case (Some q)
      then show ?thesis using F s' install confirm [OF _ s'(1)] failed [OF that]
        by (cases "advances p q") (auto simp: wp_steps is_ready_def)
    qed
  qed
  show ?thesis unfolding apply_policy_def Q_def [symmetric]
    by (simp add: wp_steps host verify)
      (auto intro!: wp_bindI [OF wp_asks [OF keeps_clocks(3), where Q = "\<lambda>r s'. same_view s s' \<and> sv_child s' = sv_child s \<and>
        sv_status s' = sv_status s"]] failed decide)
qed

subsection \<open>The life of a Router host\<close>

fun life_ok ::
    "router_env \<Rightarrow> bytes \<Rightarrow> string \<Rightarrow> (verified_policy option \<Rightarrow> bool) \<Rightarrow> phase \<times> supervisor \<Rightarrow> bool" where
  "life_ok env key fleet F (Ended, s) \<longleftrightarrow> policies_ok env key fleet F s \<and> sv_child s = None"
| "life_ok env key fleet F (_, s) \<longleftrightarrow> supervisor_ok env key fleet F s"

lemma life_ok_policies: "life_ok env key fleet F (ph, s) \<Longrightarrow> policies_ok env key fleet F s"
  by (cases ph) (simp_all add: supervisor_ok_def)

lemma new_ok:
  assumes "RouterSupervisor_new env n file router_file key fleet config = Inr s"
    and "\<And>n found. PolicyStore_load env n file key fleet = Inr found \<Longrightarrow> F found"
  shows "supervisor_ok env key fleet F s"
proof -
  obtain policy where load: "PolicyStore_load env n file key fleet = Inr policy"
    and s: "sv_policy s = policy" "sv_policy_file s = file" "sv_key s = key" "sv_fleet_id s = fleet" "sv_child s = None"
      "sv_status s = initial_status policy"
    using assms(1) by (auto simp: RouterSupervisor_new_def and_then_eq_Inr split: if_splits)
  have "verified env key fleet p" if "policy = Some p" for p
    using load load_verified unfolding that by blast
  then have "policies_ok env key fleet F s" using s assms(2) load by (auto simp: policies_ok_def)
  then show ?thesis using s by (intro unlaunched_ok) (simp_all add: initial_status_def)
qed

lemma apply_rejected:
  assumes "SignedPolicy_verify (re_crypto env) (sv_key s) (sv_fleet_id s) signed_policy = Inl e"
  shows "apply_policy signed_policy env s = (s, Inl e)"
  using assms by (simp add: apply_policy_def bind_act_def gets_act_def with_env_def)

lemma apply_ok:
  assumes "storage_roundtrip env" and "inherited F" and ok: "supervisor_ok env key fleet F s"
    and run: "apply_policy signed_policy env s = (s', r)"
  shows "supervisor_ok env key fleet F s'"
    and "r = Inr status \<Longrightarrow> \<exists>p. SignedPolicy_verify (re_crypto env) key fleet signed_policy = Inr p \<and>
      answered env key fleet F p (Inr status) s'"
proof -
  have host: "sv_key s = key" "sv_fleet_id s = fleet" using ok by (simp_all add: supervisor_ok_def policies_ok_def)
  have "(\<exists>e. r = Inl e) \<and> s' = s \<or>
      (\<exists>p. SignedPolicy_verify (re_crypto env) key fleet signed_policy = Inr p \<and> answered env key fleet F p r s')"
  proof (cases "SignedPolicy_verify (re_crypto env) key fleet signed_policy")
    case (Inl e)
    then show ?thesis using apply_rejected [of env s signed_policy e] run host by simp
  next
    case (Inr p)
    then show ?thesis using wp_run [OF run wp_apply [OF assms(1-3) Inr]] by blast
  qed
  then show "supervisor_ok env key fleet F s'"
    and "r = Inr status \<Longrightarrow> \<exists>p. SignedPolicy_verify (re_crypto env) key fleet signed_policy = Inr p \<and>
      answered env key fleet F p (Inr status) s'"
    using ok by (auto simp: answered_def)
qed

lemma wp_run_start:
  assumes "storage_roundtrip env" and ok: "supervisor_ok env key fleet F s"
  shows "wp run_start (\<lambda>r. undisturbed env key fleet F s) env s"
  unfolding run_start_def
  by (auto simp: wp_simps same_view_def
      intro!: wp_clocks undisturbed_still [OF ok] wp_after [where m = "activate_or_report p" for p, OF ok]
        wp_activate_or_report [OF assms(1)] split: sum.split option.split)

lemma wp_run_stop: "wp run_stop (\<lambda>r s'. same_view s s') env s"
  unfolding run_stop_def by (rule wp_report_and_stop)

lemma supervisor_step_ok:
  assumes "storage_roundtrip env" and "inherited F" and "supervisor_step env x y" and "life_ok env key fleet F x"
  shows "life_ok env key fleet F y"
  using assms(3,4)
proof (cases rule: supervisor_step.cases)
  case (started s s' r)
  then show ?thesis
    using wp_run [OF started(3) wp_run_start [OF assms(1)]] assms(4) by (simp add: undisturbed_def)
next
  case (never_started s)
  then show ?thesis using assms(4) by (simp add: dropped_def supervisor_ok_def)
next
  case (ticked s s')
  then show ?thesis
    using wp_run [OF ticked(3) wp_observe [OF assms(1)]] assms(4) by (simp add: undisturbed_def)
next
  case (tick_failed s s' e)
  then show ?thesis
    using wp_run [OF tick_failed(3) wp_observe [OF assms(1)]] assms(4)
    by (simp add: undisturbed_def dropped_def supervisor_ok_def)
next
  case (applied signed_policy s s' r)
  then show ?thesis using apply_ok(1) [OF assms(1,2) _ applied(3)] assms(4) by simp
next
  case (shut_down s s' r)
  then show ?thesis
    using wp_run [OF shut_down(3) wp_run_stop] assms(4) by (simp add: dropped_def supervisor_ok_def policies_ok_view)
next
  case (restarted s config s' ph)
  then have "policies_ok env key fleet F s" using assms(4) life_ok_policies by simp
  then show ?thesis using new_ok [OF restarted(3), of F] restarted(2) by (auto simp: policies_ok_def)
qed

lemma supervisor_runs_ok:
  assumes "storage_roundtrip env" and "inherited F" and "supervisor_runs env x y" and "life_ok env key fleet F x"
  shows "life_ok env key fleet F y"
  using assms(3,4) by (induction rule: rtranclp_induct) (auto intro: supervisor_step_ok [OF assms(1,2)])

text \<open>Every reachable state satisfies the invariant without further demands.\<close>

lemma inherited_any: "inherited (\<lambda>_. True)"
  by (simp add: inherited_def)

lemma reachable_ok:
  assumes "storage_roundtrip env" and "RouterSupervisor_new env n file router_file key fleet config = Inr s0"
    and "supervisor_runs env (Starting, s0) (ph, s)"
  shows "life_ok env key fleet (\<lambda>_. True) (ph, s)"
  by (rule supervisor_runs_ok [OF assms(1) inherited_any assms(3)]) (simp add: new_ok [OF assms(2)])

text \<open>The demand of one acknowledged policy on all that follow.\<close>

definition at_least :: "verified_policy \<Rightarrow> verified_policy option \<Rightarrow> bool" where
  "at_least p found \<longleftrightarrow> (\<exists>q. found = Some q \<and>
    (po_generation (vp_policy p) < po_generation (vp_policy q) \<or> same_generation p q))"

lemma inherited_at_least: "inherited (at_least p)"
proof -
  have "at_least p (Some r)" if "at_least p (Some q)" "is_ok (advances r q)" for q r
    using that by (auto simp: at_least_def advances_def same_generation_def split: if_splits)
  then show ?thesis unfolding inherited_def by (metis at_least_def)
qed

lemma at_least_same: "same_generation q p \<Longrightarrow> at_least p (Some q)"
  by (simp add: at_least_def same_generation_def)

lemma answered_at_least:
  assumes "storage_roundtrip env" and "answered env key fleet F p (Inr status) s"
  shows "supervisor_ok env key fleet (at_least p) s"
proof -
  obtain q where q: "sv_policy s = Some q" "same_generation q p" and ok: "supervisor_ok env key fleet F s"
    and "rs_ready (sv_status s)"
    using assms(2) by (auto simp: answered_def)
  then obtain bytes where "re_canonical_signed env (vp_signed q) = Inr bytes" "sv_policy_file s = Some bytes"
      "verified env key fleet q"
    by (auto simp: supervisor_ok_def ready_stored_def stored_def policies_ok_def)
  then have "found = Some q" if "PolicyStore_load env n (sv_policy_file s) key fleet = Inr found" for n found
    using load_stored [OF assms(1)] that by simp
  then show ?thesis using ok q at_least_same [OF q(2)] by (auto simp: supervisor_ok_def policies_ok_def)
qed

lemma answered_demand:
  assumes "answered env key fleet (at_least p) q (Inr status) s"
  shows "at_least p (Some q)"
  using assms by (auto simp: answered_def supervisor_ok_def policies_ok_def at_least_def same_generation_def)

text \<open>
  What the Supervisor acknowledges is in force and durable: an update that is answered
  with success answers with a ready status, the policy in memory has the generation and the digest
  of the submitted one, a process runs with its access control, and the policy file holds it.
\<close>

lemma acknowledged_in_force:
  assumes "storage_roundtrip env" and "RouterSupervisor_new env n file router_file key fleet config = Inr s0"
    and "supervisor_runs env (Starting, s0) (Serving, s)" and "apply_policy signed_policy env s = (s', Inr status)"
  shows "\<exists>p q running. SignedPolicy_verify (re_crypto env) key fleet signed_policy = Inr p \<and> rs_ready status \<and>
    sv_status s' = status \<and> sv_policy s' = Some q \<and> po_generation (vp_policy q) = po_generation (sp_policy signed_policy) \<and>
    vp_digest q = vp_digest p \<and> SignedPolicy_verify (re_crypto env) key fleet (vp_signed q) = Inr q \<and> sv_child s' = Some running \<and>
    json_get running ''access_control'' = Some (access_control q) \<and>
    PolicyStore_load env k (sv_policy_file s') key fleet \<in> {Inr (Some q), Inl (RouterIo (the (re_read_error env k))),
      Inl (InvalidPolicy ''stored policy exceeds the size limit'')}"
proof -
  have ok: "supervisor_ok env key fleet (\<lambda>_. True) s" using reachable_ok [OF assms(1-3)] by simp
  obtain p where p: "SignedPolicy_verify (re_crypto env) key fleet signed_policy = Inr p"
    and answer: "answered env key fleet (\<lambda>_. True) p (Inr status) s'"
    using apply_ok(2) [OF assms(1) inherited_any ok assms(4)] by blast
  then obtain q where q: "sv_policy s' = Some q" "same_generation q p" "status = sv_status s'" "rs_ready status"
    by (auto simp: answered_def)
  obtain running bytes where in_force: "sv_child s' = Some running" "enforces running q" "verified env key fleet q"
      "re_canonical_signed env (vp_signed q) = Inr bytes" "sv_policy_file s' = Some bytes"
    using answer q by (auto simp: answered_def supervisor_ok_def process_ok_def policies_ok_def ready_stored_def stored_def)
  have "re_parse_signed env bytes = Inr (vp_signed q)" using assms(1) in_force(4) by (simp add: storage_roundtrip_def)
  then have "PolicyStore_load env k (sv_policy_file s') key fleet \<in> {Inr (Some q), Inl (RouterIo (the (re_read_error env k))),
      Inl (InvalidPolicy ''stored policy exceeds the size limit'')}"
    using in_force(3,5) by (auto simp: PolicyStore_load_def verified_def split: option.split)
  then show ?thesis
    using p q in_force verify_verified(2) [OF p] by (auto simp: same_generation_def enforces_def verified_def)
qed

section \<open>A concrete host\<close>

text \<open>
  Two signed policies of one fleet with the same authority, an environment in which everything
  succeeds, and a host that starts from an empty directory.
\<close>

lemma be_bytes_code [code]: "be_bytes k n = (if k = 0 then [] else be_bytes (k - 1) (n div 256) @ [char_of n])"
proof (cases k)
  case (Suc j)
  have "rev [0..<Suc j] = map Suc (rev [0..<j]) @ [0]" by (simp add: map_Suc_upt rev_map [symmetric] upt_conv_Cons)
  then show ?thesis by (simp add: be_bytes_def Suc div_mult2_eq comp_def del: upt_Suc)
qed (simp add: be_bytes_def)

definition demo_signed :: "64 word \<Rightarrow> signed_policy" where
  "demo_signed g = \<lparr>sp_policy = \<lparr>po_version = 1, po_fleet_id = ''f'', po_generation = g, po_issued_at = 0,
     po_not_before = 0, po_expires_at = 180000000, po_namespace_prefix = ''n'', po_trusted_peer_common_names = [''c''],
     po_agents = []\<rparr>, sp_signature = ''valid''\<rparr>"

definition demo_crypto :: router_crypto where
  "demo_crypto = \<lparr>rc_is_weak = (\<lambda>key. False), rc_hex_encode = (\<lambda>bytes. bytes), rc_hex_decode = Some,
    rc_signature_from_slice = Some, rc_sign = (\<lambda>key input. ''valid''),
    rc_verify_strict = (\<lambda>key input signature. signature = ''valid''), rc_sha256 = (\<lambda>bytes. bytes),
    rc_canonical = (\<lambda>p. Inr [char_of (unat (po_generation p))])\<rparr>"

definition demo_tls_library :: tls_library where
  "demo_tls_library = \<lparr>tl_sha256 = (\<lambda>bytes. bytes), tl_certs = (\<lambda>bytes. Inr [bytes]),
    tl_parse = (\<lambda>bytes. Inr ([], 0, 3600)), tl_from_timestamp = (\<lambda>t. Some (t * 1000000)), tl_min_utc = 0,
    tl_max_utc = 4000000000\<rparr>"

definition demo_reads :: tls_reads where
  "demo_reads = \<lparr>rd_router_root = Inr ''ca'', rd_certificate = Inr ''crt'', rd_private_key = Inr ''key'', rd_router_now = 1000000,
    rd_probe_root = Inr ''ca'', rd_probe_certificate = Inr ''crt'', rd_probe_private_key = Inr ''key'', rd_probe_now = 1000000\<rparr>"

definition demo_id :: string where
  "demo_id = replicate 32 (CHR ''1'')"

definition demo_config :: router_config where
  "demo_config = \<lparr>cf_id = demo_id, cf_listen_endpoint = ''tls/r'', cf_probe_endpoint = ''tls/r'',
    cf_peer_endpoints = [], cf_root_ca_file = ''ca.pem'', cf_certificate_file = ''router.pem'',
    cf_private_key_file = ''router.key'', cf_probe_certificate_file = ''probe.pem'', cf_probe_private_key_file = ''probe.key''\<rparr>"

text \<open>The policies with one of the two generations are all that this storage format can hold.\<close>

definition demo_env :: "(nat \<Rightarrow> instant) \<Rightarrow> (nat \<Rightarrow> string + string option) \<Rightarrow> router_env" where
  "demo_env utc exits = \<lparr>re_crypto = demo_crypto,
    re_canonical_signed = (\<lambda>sp. if sp = demo_signed 1 then Inr ''1'' else if sp = demo_signed 2 then Inr ''2''
      else Inl ''not representable''),
    re_parse_signed = (\<lambda>bytes. if bytes = ''1'' then Inr (demo_signed 1) else if bytes = ''2'' then Inr (demo_signed 2)
      else Inl ''not a policy''),
    re_zenoh_config = (\<lambda>config. None), re_base64 = (\<lambda>bytes. bytes), re_tls_library = demo_tls_library,
    re_utc = utc, re_monotonic = (\<lambda>n. int n), re_tls_reads = (\<lambda>n. demo_reads), re_tls_timeout = (\<lambda>n. False),
    re_read_error = (\<lambda>n. None), re_policy_write = (\<lambda>n. Written), re_config_write = (\<lambda>n. Written),
    re_spawn_error = (\<lambda>n. None), re_try_wait = exits, re_stop = (\<lambda>n. StopExited),
    re_probe = (\<lambda>n. ProbeOpened [demo_id] None), re_refresh_ticks = (\<lambda>n. 1)\<rparr>"

definition steady :: router_env where
  "steady = demo_env (\<lambda>n. 1000000) (\<lambda>n. Inr None)"

text \<open>The same, except that the 28th question about the process fails.\<close>

definition interrupted :: router_env where
  "interrupted = demo_env (\<lambda>n. 1000000) (\<lambda>n. if n = 28 then Inl ''interrupted'' else Inr None)"

definition demo_start :: "router_env \<Rightarrow> supervisor" where
  "demo_start env = (case RouterSupervisor_new env 0 None None ''key'' ''f'' demo_config of Inr s \<Rightarrow> s | Inl _ \<Rightarrow> undefined)"

definition demo_restart :: "router_env \<Rightarrow> supervisor \<Rightarrow> supervisor" where
  "demo_restart env s = (case RouterSupervisor_new env (sv_calls s) (sv_policy_file s) (sv_router_file s) (sv_key s)
    (sv_fleet_id s) demo_config of Inr s' \<Rightarrow> s' | Inl _ \<Rightarrow> s)"

definition demo_served :: supervisor where
  "demo_served = fst (run_start steady (demo_start steady))"

definition first_update :: "supervisor \<times> router_status router_result" where
  "first_update = apply_policy (demo_signed 1) steady demo_served"

definition demo_resumed :: supervisor where
  "demo_resumed = fst (run_start steady (demo_restart steady (fst first_update)))"

definition second_update :: "supervisor \<times> router_status router_result" where
  "second_update = apply_policy (demo_signed 2) steady demo_resumed"

lemma demo_roundtrip: "storage_roundtrip steady"
  by (auto simp: storage_roundtrip_def steady_def demo_env_def split: if_splits)

lemma demo_started: "RouterSupervisor_new steady 0 None None ''key'' ''f'' demo_config = Inr (demo_start steady)"
proof -
  have "is_ok (RouterSupervisor_new steady 0 None None ''key'' ''f'' demo_config)" by code_simp
  then show ?thesis by (auto simp: demo_start_def is_ok_iff)
qed

text \<open>The updates on both sides of a restart succeed.\<close>

lemma demo_life:
  "let (s1, r1) = apply_policy (demo_signed 1) steady (fst (run_start steady (demo_start steady)));
      r = RouterSupervisor_new steady (sv_calls s1) (sv_policy_file s1) (sv_router_file s1) (sv_key s1) (sv_fleet_id s1) demo_config;
      r2 = snd (apply_policy (demo_signed 2) steady (fst (run_start steady (case r of Inr s' \<Rightarrow> s' | Inl _ \<Rightarrow> s1))))
   in is_ok r1 \<and> is_ok r \<and> is_ok r2"
  by code_simp

lemma demo_updates:
  shows "\<exists>status. first_update = (fst first_update, Inr status)"
    and "\<exists>status. second_update = (fst second_update, Inr status)"
    and "RouterSupervisor_new steady (sv_calls (fst first_update)) (sv_policy_file (fst first_update))
      (sv_router_file (fst first_update)) (sv_key (fst first_update)) (sv_fleet_id (fst first_update)) demo_config =
      Inr (demo_restart steady (fst first_update))"
proof -
  have *: "is_ok (snd first_update) \<and> is_ok (RouterSupervisor_new steady (sv_calls (fst first_update))
      (sv_policy_file (fst first_update)) (sv_router_file (fst first_update)) (sv_key (fst first_update))
      (sv_fleet_id (fst first_update)) demo_config) \<and> is_ok (snd second_update)"
    using demo_life
    unfolding Let_def case_prod_beta demo_served_def [symmetric] first_update_def [symmetric]
      demo_restart_def [symmetric] demo_resumed_def [symmetric] second_update_def [symmetric] .
  then show "\<exists>status. first_update = (fst first_update, Inr status)"
      "\<exists>status. second_update = (fst second_update, Inr status)"
    by (auto simp: is_ok_iff) (metis prod.collapse)+
  from * show "RouterSupervisor_new steady (sv_calls (fst first_update)) (sv_policy_file (fst first_update))
      (sv_router_file (fst first_update)) (sv_key (fst first_update)) (sv_fleet_id (fst first_update)) demo_config =
      Inr (demo_restart steady (fst first_update))"
    by (auto simp: demo_restart_def is_ok_iff)
qed

lemma run_start_step: "supervisor_step env (Starting, s) (Serving, fst (run_start env s))"
  by (rule started [of _ _ _ "snd (run_start env s)"]) simp

lemma demo_serving: "supervisor_runs steady (Starting, demo_start steady) (Serving, demo_served)"
  unfolding demo_served_def by (intro r_into_rtranclp run_start_step)

lemma demo_first_run: "supervisor_runs steady (Starting, demo_start steady) (Serving, fst first_update)"
proof -
  have "supervisor_step steady (Serving, demo_served) (Serving, fst first_update)"
    by (rule applied [of "demo_signed 1" _ _ _ "snd first_update"]) (simp add: first_update_def)
  with demo_serving show ?thesis by (rule rtranclp.rtrancl_into_rtrancl)
qed

lemma demo_second_run: "supervisor_runs steady (Serving, fst first_update) (Serving, demo_resumed)"
proof -
  have "supervisor_step steady (Serving, fst first_update) (Starting, demo_restart steady (fst first_update))"
    by (rule restarted [OF demo_updates(3)])
  moreover have "supervisor_step steady (Starting, demo_restart steady (fst first_update)) (Serving, demo_resumed)"
    unfolding demo_resumed_def by (rule run_start_step)
  ultimately show ?thesis by (meson converse_rtranclp_into_rtranclp r_into_rtranclp)
qed

text \<open>
  A successful answer may carry an older generation: when the question about the process fails
  after a refresh has stored the new policy, the update fails with the new policy in memory and the
  status unchanged, and submitting the same policy again is answered with that status.
\<close>

lemma stale_answer_run:
  "let (s1, r1) = apply_policy (demo_signed 1) interrupted (demo_start interrupted);
      (s2, r2) = apply_policy (demo_signed 2) interrupted s1;
      r3 = snd (apply_policy (demo_signed 2) interrupted s2)
   in is_ok r1 \<and> r2 = Inl (RouterIo ''interrupted'') \<and> is_ok r3 \<and>
     (case r3 of Inl _ \<Rightarrow> False | Inr status \<Rightarrow> rs_generation status = Some 1)"
  by code_simp

lemma stale_answer:
  "\<exists>s1 s2 s3 status1 status. apply_policy (demo_signed 1) interrupted (demo_start interrupted) = (s1, Inr status1) \<and>
    apply_policy (demo_signed 2) interrupted s1 = (s2, Inl (RouterIo ''interrupted'')) \<and>
    apply_policy (demo_signed 2) interrupted s2 = (s3, Inr status) \<and> rs_generation status = Some 1"
  using stale_answer_run
  by (auto simp: Let_def case_prod_beta is_ok_iff) (metis prod.collapse)

section \<open>Properties\<close>

text \<open>
  C4. The Router enforces the current signed policy: in every state that ticks, updates, failures
  and restarts can lead to, a running process was started with the access control of the policy in
  memory, and that policy carries a valid signature for this fleet.  While the Supervisor serves, a
  status that says ready means that such a process runs and that the policy file holds its policy.
\<close>

theorem router_enforces_policy:
  assumes "storage_roundtrip env" and "RouterSupervisor_new env n file router_file key fleet config = Inr s0"
    and "supervisor_runs env (Starting, s0) (ph, s)"
  shows "(\<forall>running. sv_child s = Some running \<longrightarrow> (\<exists>p. sv_policy s = Some p \<and>
      SignedPolicy_verify (re_crypto env) key fleet (vp_signed p) = Inr p \<and>
      json_get running ''access_control'' = Some (access_control p))) \<and>
    (ph \<noteq> Ended \<and> rs_ready (sv_status s) \<longrightarrow> sv_child s \<noteq> None \<and>
      (\<exists>p bytes. sv_policy s = Some p \<and> sv_policy_file s = Some bytes \<and>
        re_canonical_signed env (vp_signed p) = Inr bytes))"
proof -
  have life: "life_ok env key fleet (\<lambda>_. True) (ph, s)" by (rule reachable_ok [OF assms])
  have policies: "policies_ok env key fleet (\<lambda>_. True) s" by (rule life_ok_policies [OF life])
  show ?thesis
  proof (cases "ph = Ended")
    case True
    then show ?thesis using life by simp
  next
    case False
    then have "supervisor_ok env key fleet (\<lambda>_. True) s" using life by (cases ph) simp_all
    then show ?thesis using policies
      by (auto simp: supervisor_ok_def process_ok_def policies_ok_def verified_def enforces_def ready_stored_def stored_def)
  qed
qed

theorem router_enforces_policy_witness:
  "\<exists>running p. sv_child (fst first_update) = Some running \<and> sv_policy (fst first_update) = Some p \<and>
    json_get running ''access_control'' = Some (access_control p)"
proof -
  obtain status where "first_update = (fst first_update, Inr status)" using demo_updates(1) by blast
  then have run: "apply_policy (demo_signed 1) steady demo_served = (fst first_update, Inr status)"
    by (simp only: first_update_def)
  have ok: "supervisor_ok steady ''key'' ''f'' (\<lambda>_. True) demo_served"
    using reachable_ok [OF demo_roundtrip demo_started demo_serving] by simp
  have "rs_ready (sv_status (fst first_update))"
    using apply_ok(2) [OF demo_roundtrip inherited_any ok run, of status] by (auto simp: answered_def)
  then show ?thesis
    using router_enforces_policy [OF demo_roundtrip demo_started demo_first_run] by (metis option.exhaust phase.distinct(5))
qed

text \<open>
  C5. Acknowledged policies are never rolled back: once an update has been answered with
  success, every update that succeeds later has a higher generation or is the same policy again,
  whatever ticks, failed updates, shutdowns and restarts lie between them.
\<close>

theorem no_rollback:
  assumes "storage_roundtrip env" and "RouterSupervisor_new env n file router_file key fleet config = Inr s0"
    and "supervisor_runs env (Starting, s0) (Serving, s1)" and "apply_policy earlier env s1 = (s2, Inr status)"
    and "supervisor_runs env (Serving, s2) (Serving, s3)" and "apply_policy later env s3 = (s4, Inr status')"
  shows "\<exists>p q. SignedPolicy_verify (re_crypto env) key fleet earlier = Inr p \<and>
    SignedPolicy_verify (re_crypto env) key fleet later = Inr q \<and>
    (po_generation (sp_policy earlier) < po_generation (sp_policy later) \<or>
     po_generation (sp_policy earlier) = po_generation (sp_policy later) \<and> vp_digest p = vp_digest q)"
proof -
  have ok1: "supervisor_ok env key fleet (\<lambda>_. True) s1" using reachable_ok [OF assms(1-3)] by simp
  obtain p where p: "SignedPolicy_verify (re_crypto env) key fleet earlier = Inr p"
    and first: "answered env key fleet (\<lambda>_. True) p (Inr status) s2"
    using apply_ok(2) [OF assms(1) inherited_any ok1 assms(4)] by blast
  have "supervisor_ok env key fleet (at_least p) s2" by (rule answered_at_least [OF assms(1) first])
  then have ok3: "supervisor_ok env key fleet (at_least p) s3"
    using supervisor_runs_ok [OF assms(1) inherited_at_least assms(5)] by simp
  obtain q where q: "SignedPolicy_verify (re_crypto env) key fleet later = Inr q"
    and second: "answered env key fleet (at_least p) q (Inr status') s4"
    using apply_ok(2) [OF assms(1) inherited_at_least ok3 assms(6)] by blast
  have "at_least p (Some q)" by (rule answered_demand [OF second])
  then show ?thesis
    using p q verify_verified(2) [OF p] verify_verified(2) [OF q] by (auto simp: at_least_def same_generation_def)
qed

theorem no_rollback_witness:
  "\<exists>p q. SignedPolicy_verify (re_crypto steady) ''key'' ''f'' (demo_signed 1) = Inr p \<and>
    SignedPolicy_verify (re_crypto steady) ''key'' ''f'' (demo_signed 2) = Inr q \<and>
    (po_generation (sp_policy (demo_signed 1)) < po_generation (sp_policy (demo_signed 2)) \<or>
     po_generation (sp_policy (demo_signed 1)) = po_generation (sp_policy (demo_signed 2)) \<and> vp_digest p = vp_digest q)"
proof -
  obtain status status' where "first_update = (fst first_update, Inr status)" "second_update = (fst second_update, Inr status')"
    using demo_updates by blast
  then have runs: "apply_policy (demo_signed 1) steady demo_served = (fst first_update, Inr status)"
      "apply_policy (demo_signed 2) steady demo_resumed = (fst second_update, Inr status')"
    by (simp_all only: first_update_def second_update_def)
  show ?thesis
    by (rule no_rollback [OF demo_roundtrip demo_started demo_serving runs(1) demo_second_run runs(2)])
qed



end
