(* ===== verification/Router_Controller.thy ===== *)
theory Router_Controller
  imports Router_Admission Router_Management Router_Enforcement
begin

text \<open>
  The Controller side of Router admission
  (\<^verbatim>\<open>inari-server/src/managed_gateway/router_policy.rs\<close>, \<^verbatim>\<open>config/router_policy.rs\<close>): it signs the
  policy of an organization, sends it to every Router and records the acknowledgment.  This is
  where the database of \<^verbatim>\<open>Router_Admission\<close> and the hosts of \<^verbatim>\<open>Router_Supervisor\<close> meet.
\<close>

section \<open>Definitions\<close>

definition POLICY_EXPIRY :: duration where "POLICY_EXPIRY = 45 * 1000000"
definition CLOCK_SKEW :: duration where "CLOCK_SKEW = 5 * 1000000"
definition REFRESH_MARGIN :: duration where "REFRESH_MARGIN = 15 * 1000000"

datatype app_error = ServiceUnavailable | AppGateway gateway_error | AppJson string | AppConfig string

subsection \<open>Configuration\<close>

text \<open>A parsed URL with the accessors of the \<^verbatim>\<open>url\<close> crate that the source calls.\<close>

record management_url =
  mu_text :: string
  mu_scheme :: string
  mu_host :: "string option"
  mu_path :: string
  mu_username :: string
  mu_password :: "string option"
  mu_query :: "string option"
  mu_fragment :: "string option"

record router_management_config =
  rmc_router_id :: string
  rmc_address :: management_url

record router_policy_config =
  rpc_fleet_id :: string
  rpc_routers :: "router_management_config list"
  rpc_trusted_peer_common_names :: "string list"
  rpc_signing_key_file :: string
  rpc_management_ca_file :: string
  rpc_management_certificate_file :: string
  rpc_management_private_key_file :: string

definition admit_router ::
    "router_management_config \<Rightarrow> string list \<times> string list \<Rightarrow> app_error + (string list \<times> string list)" where
  "admit_router router = (\<lambda>(ids, addresses). let url = rmc_address router in
    if rmc_router_id router = [] \<or> rmc_router_id router \<in> set ids \<or> mu_text url \<in> set addresses \<or>
       mu_scheme url \<noteq> ''https'' \<or> mu_host url = None \<or> mu_path url \<noteq> ''/'' \<or> mu_username url \<noteq> [] \<or>
       mu_password url \<noteq> None \<or> mu_query url \<noteq> None \<or> mu_fragment url \<noteq> None
    then Inl (AppConfig ''Each Router requires a distinct ID and HTTPS management origin without credentials, query, or fragment.'')
    else Inr (rmc_router_id router # ids, mu_text url # addresses))"

definition RouterPolicyConfig_validate :: "router_policy_config \<Rightarrow> app_error + unit" where
  "RouterPolicyConfig_validate c =
    (if rpc_routers c = [] \<or> length (rpc_routers c) > 32 \<or> rpc_fleet_id c = [] \<or>
        rpc_trusted_peer_common_names c = [] \<or>
        list_ex (\<lambda>path. path = []) [rpc_signing_key_file c, rpc_management_ca_file c,
          rpc_management_certificate_file c, rpc_management_private_key_file c]
     then Inl (AppConfig ''Router policy requires a fleet, every Router, trusted peers, a signing key, and management mTLS files.'')
     else and_then (try_fold admit_router (rpc_routers c) ([], [])) (\<lambda>_. Inr ()))"

subsection \<open>The controller\<close>

text \<open>\<open>ac_to_value\<close> and \<open>ac_from_value\<close> are the serde conversions of a signed policy to and from a JSON value.\<close>

record admission_controller =
  ac_crypto :: router_crypto
  ac_to_value :: "signed_policy \<Rightarrow> string + structured_value"
  ac_from_value :: "structured_value \<Rightarrow> string + signed_policy"
  ac_signing_key :: bytes
  ac_verifying_key :: bytes
  ac_organization_id :: string
  ac_config :: router_policy_config
  ac_namespace_prefix :: string
  ac_configuration_digest :: bytes

text \<open>Instants are microseconds, so \<^verbatim>\<open>trunc_subsecs(6)\<close> is the identity.\<close>

definition router_policy ::
    "router_policy_config \<Rightarrow> string \<Rightarrow> 64 word \<Rightarrow> agent_admission list \<Rightarrow> instant \<Rightarrow> policy" where
  "router_policy config namespace_prefix generation admitted now =
    \<lparr>po_version = 1, po_fleet_id = rpc_fleet_id config, po_generation = generation, po_issued_at = now - CLOCK_SKEW,
     po_not_before = now - CLOCK_SKEW, po_expires_at = now + POLICY_EXPIRY, po_namespace_prefix = namespace_prefix,
     po_trusted_peer_common_names = rpc_trusted_peer_common_names config, po_agents = admitted\<rparr>"

text \<open>\<open>digest_of\<close> is the SHA-256 digest of the canonical configuration tuple, or the error of its encoding.\<close>

definition RouterAdmissionController_new ::
    "router_crypto \<Rightarrow> (signed_policy \<Rightarrow> string + structured_value) \<Rightarrow> (structured_value \<Rightarrow> string + signed_policy) \<Rightarrow>
     (router_policy_config \<Rightarrow> string \<Rightarrow> bytes \<Rightarrow> string + bytes) \<Rightarrow> string \<Rightarrow> router_policy_config \<Rightarrow> string \<Rightarrow>
     bytes \<Rightarrow> bytes \<Rightarrow> instant \<Rightarrow> app_error + admission_controller" where
  "RouterAdmissionController_new crypto to_value from_value digest_of organization_id config namespace_prefix
      signing_key verifying_key now =
    and_then (RouterPolicyConfig_validate config) (\<lambda>_.
    and_then (map_err (\<lambda>_. ServiceUnavailable)
      (SignedPolicy_sign crypto (router_policy config namespace_prefix 1 [] now) signing_key)) (\<lambda>_.
    and_then (map_err AppJson (digest_of config namespace_prefix verifying_key)) (\<lambda>digest.
    Inr \<lparr>ac_crypto = crypto, ac_to_value = to_value, ac_from_value = from_value, ac_signing_key = signing_key,
      ac_verifying_key = verifying_key, ac_organization_id = organization_id, ac_config = config,
      ac_namespace_prefix = namespace_prefix, ac_configuration_digest = digest\<rparr>)))"

definition admission_of :: "router_agent \<Rightarrow> agent_admission" where
  "admission_of agent = \<lparr>aa_common_name = ra_agent_id agent, aa_namespace = ra_namespace agent\<rparr>"

text \<open>
  The closure that \<^verbatim>\<open>apply_current_policy\<close> passes to \<^verbatim>\<open>prepare_router_policy\<close>; the text of the
  \<^verbatim>\<open>hex\<close> crate's error stands as a fixed string.
\<close>

definition build_policy ::
    "admission_controller \<Rightarrow> instant \<Rightarrow> 64 word \<Rightarrow> router_agent list \<Rightarrow> new_router_policy gateway_result" where
  "build_policy c now generation active =
    and_then (map_err (\<lambda>e. Unavailable (RouterError_to_string e))
      (SignedPolicy_sign (ac_crypto c) (router_policy (ac_config c) (ac_namespace_prefix c) generation
        (map admission_of active) now) (ac_signing_key c))) (\<lambda>signed_policy.
    and_then (map_err (\<lambda>e. Unavailable (RouterError_to_string e))
      (SignedPolicy_verify (ac_crypto c) (ac_verifying_key c) (rpc_fleet_id (ac_config c)) signed_policy)) (\<lambda>checked.
    and_then (ok_or (Unavailable ''invalid hexadecimal digest'') (rc_hex_decode (ac_crypto c) (vp_digest checked))) (\<lambda>digest.
    if length digest \<noteq> 32 then Inl (CorruptState ''Router digest is invalid'')
    else
      and_then (map_err (\<lambda>_. Serialization) (ac_to_value c signed_policy)) (\<lambda>stored_value.
      Inr \<lparr>nrp_signed_policy = stored_value, nrp_digest = digest, nrp_expires_at = po_expires_at (sp_policy signed_policy)\<rparr>))))"

text \<open>What is read back from the database is verified again before it is sent.\<close>

definition stored_policy ::
    "admission_controller \<Rightarrow> instant \<Rightarrow> persisted_router_policy \<Rightarrow> app_error + (signed_policy \<times> verified_policy)" where
  "stored_policy c now policy =
    and_then (map_err AppJson (ac_from_value c (prp_signed_policy policy))) (\<lambda>signed_policy.
    and_then (map_err (\<lambda>_. ServiceUnavailable)
      (SignedPolicy_verify (ac_crypto c) (ac_verifying_key c) (rpc_fleet_id (ac_config c)) signed_policy)) (\<lambda>checked.
    and_then (map_err (\<lambda>_. ServiceUnavailable) (require_current checked now)) (\<lambda>_.
    if rc_hex_encode (ac_crypto c) (prp_digest policy) \<noteq> vp_digest checked \<or>
       po_generation (sp_policy signed_policy) \<noteq> prp_generation policy
    then Inl ServiceUnavailable else Inr (signed_policy, checked))))"

subsection \<open>The fleet\<close>

record router_host =
  rh_env :: router_env
  rh_state :: supervisor

text \<open>
  One request of \<^verbatim>\<open>HttpsManagement::apply\<close>: it does not arrive, or the host handles it and the
  reply is received or not (a timeout, a status that is an error, a body above the limit).
\<close>

datatype delivery =
    Lost
  | Delivered management_peer "instant \<times> instant" "instant \<times> instant" bool bool

fun management_apply :: "signed_policy \<Rightarrow> delivery \<Rightarrow> router_host \<Rightarrow> router_host \<times> (app_error + router_status)" where
  "management_apply signed_policy Lost host = (host, Inl ServiceUnavailable)"
| "management_apply signed_policy (Delivered peer before later queued received) host =
    (case put_policy peer before later queued signed_policy (rh_env host) (rh_state host) of (s, answer) \<Rightarrow>
      (host\<lparr>rh_state := s\<rparr>,
       if received then map_err (\<lambda>_. ServiceUnavailable) answer else Inl ServiceUnavailable))"

definition acknowledges :: "persisted_router_policy \<Rightarrow> verified_policy \<Rightarrow> instant \<Rightarrow> router_status \<Rightarrow> bool" where
  "acknowledges policy checked now status \<longleftrightarrow> is_current status now \<and>
    rs_generation status = Some (prp_generation policy) \<and> rs_digest status = Some (vp_digest checked) \<and>
    rs_expires_at status = Some (prp_expires_at policy)"

text \<open>The readings of the clock in one call of \<^verbatim>\<open>apply_current_policy\<close>, in their order.\<close>

record controller_times =
  ct_refresh :: instant
  ct_build :: instant
  ct_prepare :: instant
  ct_verify :: instant
  ct_status :: "nat \<Rightarrow> instant"
  ct_acknowledge :: instant
  ct_acknowledged :: instant

text \<open>
  \<open>late\<close>: the requests together exceed \<^verbatim>\<open>REQUEST_TIMEOUT\<close>.  \<open>others\<close>: what other transactions do to
  the database between the two transactions of this call.
\<close>

definition apply_current_policy ::
    "admission_controller \<Rightarrow> controller_times \<Rightarrow> delivery list \<Rightarrow> bool \<Rightarrow> (gateway_db \<Rightarrow> gateway_db) \<Rightarrow>
     gateway_db \<Rightarrow> router_host list \<Rightarrow> (gateway_db \<times> router_host list) \<times> (app_error + router_admission)" where
  "apply_current_policy c t deliveries late others db hosts =
    (case prepare_router_policy (ct_prepare t) (ac_organization_id c) (ac_configuration_digest c)
        (ct_refresh t + REFRESH_MARGIN) (build_policy c (ct_build t)) db of
      (db, Inl e) \<Rightarrow> ((db, hosts), Inl (AppGateway e))
    | (db, Inr policy) \<Rightarrow>
        (case stored_policy c (ct_verify t) policy of
          Inl e \<Rightarrow> ((db, hosts), Inl e)
        | Inr (signed_policy, checked) \<Rightarrow>
            let outcomes = map2 (management_apply signed_policy) deliveries hosts; hosts = map fst outcomes @ drop (length outcomes) hosts
            in case (if late then Inl ServiceUnavailable else try_map (\<lambda>outcome. snd outcome) outcomes) of
                 Inl e \<Rightarrow> ((db, hosts), Inl e)
               | Inr statuses \<Rightarrow>
                   if length statuses \<noteq> length (rpc_routers (ac_config c)) \<or> statuses = [] \<or>
                      \<not> list_all (\<lambda>(i, status). acknowledges policy checked (ct_status t i) status) (enumerate 0 statuses)
                   then ((db, hosts), Inl ServiceUnavailable)
                   else
                     (case acknowledge_router_policy (ct_acknowledge t) (ct_acknowledged t) (ac_organization_id c)
                         policy (others db) of
                       (db, Inl e) \<Rightarrow> ((db, hosts), Inl (AppGateway e))
                     | (db, Inr admission) \<Rightarrow> ((db, hosts), Inr admission))))"

datatype router_policy_health = HealthStarting | ReadyUntil instant | HealthUnavailable

text \<open>\<^verbatim>\<open>reconcile\<close>: the health that a call publishes with its result.\<close>

definition reconcile ::
    "admission_controller \<Rightarrow> controller_times \<Rightarrow> delivery list \<Rightarrow> bool \<Rightarrow> (gateway_db \<Rightarrow> gateway_db) \<Rightarrow>
     gateway_db \<Rightarrow> router_host list \<Rightarrow>
     (gateway_db \<times> router_host list \<times> router_policy_health) \<times> (app_error + router_admission)" where
  "reconcile c t deliveries late others db hosts =
    (case apply_current_policy c t deliveries late others db hosts of ((db, hosts), result) \<Rightarrow>
      ((db, hosts, case result of Inr admission \<Rightarrow> ReadyUntil (adm_valid_until admission) | Inl _ \<Rightarrow> HealthUnavailable),
       result))"

datatype router_policy_readiness = ReadinessStarting | ReadinessReady | ReadinessDegraded

definition controller_readiness :: "router_policy_health \<Rightarrow> instant \<Rightarrow> router_policy_readiness" where
  "controller_readiness health now =
    (case health of HealthStarting \<Rightarrow> ReadinessStarting
     | ReadyUntil until \<Rightarrow> if until > now then ReadinessReady else ReadinessDegraded
     | HealthUnavailable \<Rightarrow> ReadinessDegraded)"

definition admit ::
    "admission_controller \<Rightarrow> controller_times \<Rightarrow> delivery list \<Rightarrow> bool \<Rightarrow> (gateway_db \<Rightarrow> gateway_db) \<Rightarrow> instant \<Rightarrow> string \<Rightarrow>
     gateway_db \<Rightarrow> router_host list \<Rightarrow>
     (gateway_db \<times> router_host list \<times> router_policy_health) \<times> (app_error + router_admission)" where
  "admit c t deliveries late others now agent_id db hosts =
    (case reconcile c t deliveries late others db hosts of
      (state, Inl e) \<Rightarrow> (state, Inl e)
    | ((db, hosts, health), Inr admission) \<Rightarrow>
        (case require_router_admission now admission agent_id db of
          (db, Inl e) \<Rightarrow> ((db, hosts, health), Inl (AppGateway e))
        | (db, Inr _) \<Rightarrow> ((db, hosts, health), Inr admission)))"

section \<open>Lemmas\<close>

text \<open>A Router host of this fleet: it verifies with the Controller's key and is serving after any history.\<close>

definition fleet_host :: "admission_controller \<Rightarrow> router_host \<Rightarrow> bool" where
  "fleet_host c h \<longleftrightarrow> storage_roundtrip (rh_env h) \<and> re_crypto (rh_env h) = ac_crypto c \<and>
    (\<exists>n file router_file config s0. RouterSupervisor_new (rh_env h) n file router_file (ac_verifying_key c)
        (rpc_fleet_id (ac_config c)) config = Inr s0 \<and>
      supervisor_runs (rh_env h) (Starting, s0) (Serving, rh_state h))"

text \<open>Different policies have different digests: the collision resistance of SHA-256 over the canonical form.\<close>

definition digests_bind :: "router_crypto \<Rightarrow> bool" where
  "digests_bind crypto \<longleftrightarrow> (\<forall>p q a b. rc_canonical crypto p = Inr a \<longrightarrow> rc_canonical crypto q = Inr b \<longrightarrow>
    rc_hex_encode crypto (rc_sha256 crypto a) = rc_hex_encode crypto (rc_sha256 crypto b) \<longrightarrow> p = q)"

definition json_roundtrip :: "admission_controller \<Rightarrow> bool" where
  "json_roundtrip c \<longleftrightarrow> (\<forall>signed_policy v. ac_to_value c signed_policy = Inr v \<longrightarrow> ac_from_value c v = Inr signed_policy)"

lemma verify_signed: "SignedPolicy_verify crypto key fleet signed_policy = Inr p \<Longrightarrow> vp_signed p = signed_policy"
  by (auto simp: SignedPolicy_verify_def and_then_eq_Inr ok_or_eq_Inr split: if_splits)

lemma verify_digest:
  assumes "SignedPolicy_verify crypto key fleet signed_policy = Inr p"
  shows "\<exists>bytes. rc_canonical crypto (vp_policy p) = Inr bytes \<and> vp_digest p = rc_hex_encode crypto (rc_sha256 crypto bytes)"
  using assms
  by (auto simp: SignedPolicy_verify_def canonical_def and_then_eq_Inr ok_or_eq_Inr map_err_eq_Inr split: if_splits)

lemma digests_bind_policies:
  assumes "digests_bind crypto" and "SignedPolicy_verify crypto key fleet a = Inr p" and
    "SignedPolicy_verify crypto key fleet b = Inr q" and "vp_digest p = vp_digest q"
  shows "vp_policy p = vp_policy q"
  using verify_digest [OF assms(2)] verify_digest [OF assms(3)] assms(1,4) unfolding digests_bind_def by metis

lemma access_control_policy: "vp_policy p = vp_policy q \<Longrightarrow> access_control p = access_control q"
  by (simp add: access_control_def)

text \<open>An answer that the Controller counts means that the host runs exactly the policy that was sent.\<close>

lemma acknowledging_host:
  assumes "fleet_host c h" and "digests_bind (ac_crypto c)"
    and "SignedPolicy_verify (ac_crypto c) (ac_verifying_key c) (rpc_fleet_id (ac_config c)) signed_policy = Inr p"
    and "management_apply signed_policy delivery h = (h', Inr status)"
  shows "\<exists>running. sv_child (rh_state h') = Some running \<and> json_get running ''access_control'' = Some (access_control p) \<and>
    rs_ready (sv_status (rh_state h')) \<and> sv_status (rh_state h') = status"
proof -
  obtain peer before later queued received where d: "delivery = Delivered peer before later queued received"
    using assms(4) by (cases delivery) auto
  obtain s where put: "put_policy peer before later queued signed_policy (rh_env h) (rh_state h) = (s, Inr status)"
    and h': "h' = h\<lparr>rh_state := s\<rparr>"
    using assms(4) unfolding d by (auto simp: map_err_eq_Inr split: prod.splits if_splits)
  obtain n policy_file router_file config s0 where host: "storage_roundtrip (rh_env h)" "re_crypto (rh_env h) = ac_crypto c"
      "RouterSupervisor_new (rh_env h) n policy_file router_file (ac_verifying_key c) (rpc_fleet_id (ac_config c)) config = Inr s0"
      "supervisor_runs (rh_env h) (Starting, s0) (Serving, rh_state h)"
    using assms(1) unfolding fleet_host_def by blast
  obtain p' q running where q: "SignedPolicy_verify (ac_crypto c) (ac_verifying_key c) (rpc_fleet_id (ac_config c)) signed_policy = Inr p'"
      "rs_ready status" "sv_status s = status" "vp_digest q = vp_digest p'" "sv_child s = Some running"
      "json_get running ''access_control'' = Some (access_control q)"
      "SignedPolicy_verify (ac_crypto c) (ac_verifying_key c) (rpc_fleet_id (ac_config c)) (vp_signed q) = Inr q"
    using acknowledged_in_force [where k = 0, OF host(1,3,4) put_policy_accepted(2) [OF put], unfolded host(2)]
    by (elim exE conjE) (rule that)
  have "p' = p" using q(1) assms(3) by simp
  then have "vp_policy q = vp_policy p" using digests_bind_policies [OF assms(2) q(7) assms(3)] q(4) by blast
  from access_control_policy [OF this] show ?thesis using q(2,3,5,6) h' by simp
qed

lemma stored_policy_Inr:
  assumes "stored_policy c now policy = Inr (signed_policy, p)"
  shows "ac_from_value c (prp_signed_policy policy) = Inr signed_policy"
    and "SignedPolicy_verify (ac_crypto c) (ac_verifying_key c) (rpc_fleet_id (ac_config c)) signed_policy = Inr p"
    and "rc_hex_encode (ac_crypto c) (prp_digest policy) = vp_digest p"
    and "po_generation (sp_policy signed_policy) = prp_generation policy"
  using assms by (auto simp: stored_policy_def and_then_eq_Inr map_err_eq_Inr split: if_splits)

text \<open>A policy that was built for this call lists exactly the active Agents.\<close>

lemma built_policy_agents:
  assumes "json_roundtrip c" and "build_policy c now generation active = Inr new"
    and "ac_from_value c (nrp_signed_policy new) = Inr signed_policy"
  shows "po_agents (sp_policy signed_policy) = map admission_of active"
  using assms
  by (auto simp: build_policy_def json_roundtrip_def SignedPolicy_sign_def router_policy_def and_then_eq_Inr map_err_eq_Inr
      split: if_splits)

lemma renewed_signed_policy:
  assumes "renew_policy now cfg build row db = Inr (db', new)"
  shows "\<exists>g prepared. build g = Inr prepared \<and> rp_signed_policy new = Some (nrp_signed_policy prepared)"
  using assms by (auto simp: renew_policy_def and_then_eq_Inr Let_def split: if_splits) blast

lemma apply_current_policy_Inr:
  assumes "apply_current_policy c t deliveries late others db hosts = ((db', hosts'), Inr admission)"
  obtains db1 policy signed_policy p statuses where
    "prepare_router_policy (ct_prepare t) (ac_organization_id c) (ac_configuration_digest c)
      (ct_refresh t + REFRESH_MARGIN) (build_policy c (ct_build t)) db = (db1, Inr policy)"
    "stored_policy c (ct_verify t) policy = Inr (signed_policy, p)"
    "hosts' = map fst (map2 (management_apply signed_policy) deliveries hosts) @
      drop (length (map2 (management_apply signed_policy) deliveries hosts)) hosts"
    "try_map (\<lambda>outcome. snd outcome) (map2 (management_apply signed_policy) deliveries hosts) = Inr statuses"
    "length statuses = length (rpc_routers (ac_config c))"
    "list_all (\<lambda>(i, status). acknowledges policy p (ct_status t i) status) (enumerate 0 statuses)"
    "acknowledge_router_policy (ct_acknowledge t) (ct_acknowledged t) (ac_organization_id c) policy (others db1) =
      (db', Inr admission)"
  using assms unfolding apply_current_policy_def Let_def
  by (auto split: prod.splits sum.splits if_splits)

text \<open>
  When every request was answered and every answer counts, every host runs the policy and has
  published its generation and digest.
\<close>

definition in_force :: "verified_policy \<Rightarrow> router_host \<Rightarrow> bool" where
  "in_force p h \<longleftrightarrow> (\<exists>running. sv_child (rh_state h) = Some running \<and>
      json_get running ''access_control'' = Some (access_control p)) \<and>
    rs_ready (sv_status (rh_state h)) \<and> rs_generation (sv_status (rh_state h)) = Some (po_generation (vp_policy p)) \<and>
    rs_digest (sv_status (rh_state h)) = Some (vp_digest p)"

lemma fleet_in_force:
  assumes "try_map (\<lambda>outcome. snd outcome) (map2 (management_apply signed_policy) deliveries hosts) = Inr statuses"
    and "list_all (fleet_host c) hosts" and "digests_bind (ac_crypto c)"
    and "SignedPolicy_verify (ac_crypto c) (ac_verifying_key c) (rpc_fleet_id (ac_config c)) signed_policy = Inr p"
    and "list_all (\<lambda>(i, status). acknowledges policy p (now i) status) (enumerate 0 statuses)"
    and "po_generation (vp_policy p) = prp_generation policy"
  shows "list_all (in_force p) (map fst (map2 (management_apply signed_policy) deliveries hosts))"
  unfolding list_all_length
proof (intro allI impI)
  fix i
  let ?outcomes = "map2 (management_apply signed_policy) deliveries hosts"
  assume "i < length (map fst ?outcomes)"
  then have i: "i < length ?outcomes" "i < length deliveries" "i < length hosts" by simp_all
  have out: "?outcomes ! i = management_apply signed_policy (deliveries ! i) (hosts ! i)" using i by simp
  have status: "snd (?outcomes ! i) = Inr (statuses ! i)" "length statuses = length ?outcomes"
    using assms(1) i(1) by (simp_all add: try_map_eq_Inr)
  then have run: "management_apply signed_policy (deliveries ! i) (hosts ! i) = (fst (?outcomes ! i), Inr (statuses ! i))"
    unfolding out by (simp add: prod_eq_iff)
  have "fleet_host c (hosts ! i)" using assms(2) i(3) by (simp add: list_all_length)
  note host = acknowledging_host [OF this assms(3,4) run]
  have "acknowledges policy p (now i) (statuses ! i)"
    using assms(5) i(1) status(2) by (simp add: list_all_length nth_enumerate_eq)
  with host assms(6) have "in_force p (fst (?outcomes ! i))" by (auto simp: in_force_def acknowledges_def)
  then show "in_force p (map fst ?outcomes ! i)" using i(1) by (simp only: nth_map)
qed

text \<open>A call that allocated a generation sent the Agents that were active.\<close>

lemma prepared_agents:
  assumes "prepare_router_policy now org cfg margin (build_policy c t) db = (db1, Inr policy)" and "json_roundtrip c"
    and "ac_from_value c (prp_signed_policy policy) = Inr signed_policy"
    and "find_by rp_organization_id org (router_policies db) = Some row" and "\<not> policy_reusable cfg margin row"
  shows "po_agents (sp_policy signed_policy) = map admission_of (active_agents db org)"
proof -
  obtain new where new: "persisted_policy new (active_agents db org) = Inr policy"
    and renew: "renew_policy now cfg (\<lambda>g. build_policy c t g (active_agents db org)) row db = Inr (db1, new)"
    using assms(1,4,5) by (auto elim!: prepare_router_policy_Inr)
  from renewed_signed_policy [OF renew] obtain g prepared
    where built: "build_policy c t g (active_agents db org) = Inr prepared"
      and "rp_signed_policy new = Some (nrp_signed_policy prepared)" by blast
  with new assms(3) have "ac_from_value c (nrp_signed_policy prepared) = Inr signed_policy"
    by (simp add: persisted_policy_Inr)
  from built_policy_agents [OF assms(2) built this] show ?thesis .
qed

text \<open>One Router, an organization without Agents, and libraries that know the one policy that results.\<close>

definition small_fleet :: router_policy_config where
  "small_fleet = \<lparr>rpc_fleet_id = ''f'', rpc_routers = [\<lparr>rmc_router_id = ''r'', rmc_address = \<lparr>mu_text = ''https://r/'',
      mu_scheme = ''https'', mu_host = Some ''r'', mu_path = ''/'', mu_username = [], mu_password = None, mu_query = None,
      mu_fragment = None\<rparr>\<rparr>], rpc_trusted_peer_common_names = [''c''], rpc_signing_key_file = ''s'',
    rpc_management_ca_file = ''a'', rpc_management_certificate_file = ''m'', rpc_management_private_key_file = ''k''\<rparr>"

definition small_signed :: signed_policy where
  "small_signed = \<lparr>sp_policy = router_policy small_fleet ''n'' 5 [] 6000000, sp_signature = ''valid''\<rparr>"

definition small_crypto :: router_crypto where
  "small_crypto = demo_crypto\<lparr>rc_sha256 := (\<lambda>bytes. replicate 32 (CHR ''d'')),
    rc_canonical := (\<lambda>p. if p = sp_policy small_signed then Inr ''p'' else Inl ''unknown'')\<rparr>"

definition small_controller :: admission_controller where
  "small_controller = \<lparr>ac_crypto = small_crypto,
    ac_to_value = (\<lambda>sp. if sp = small_signed then Inr SNull else Inl ''unknown''),
    ac_from_value = (\<lambda>v. if v = SNull then Inr small_signed else Inl ''unknown''), ac_signing_key = ''sign'',
    ac_verifying_key = ''key'', ac_organization_id = ''org_a'', ac_config = small_fleet, ac_namespace_prefix = ''n'',
    ac_configuration_digest = replicate 32 (CHR ''e'')\<rparr>"

definition small_env :: router_env where
  "small_env = steady\<lparr>re_crypto := small_crypto,
    re_canonical_signed := (\<lambda>sp. if sp = small_signed then Inr ''1'' else Inl ''unknown''),
    re_parse_signed := (\<lambda>bytes. if bytes = ''1'' then Inr small_signed else Inl ''unknown'')\<rparr>"

definition small_host :: router_host where
  "small_host = \<lparr>rh_env = small_env, rh_state = fst (run_start small_env (demo_start small_env))\<rparr>"

definition small_times :: controller_times where
  "small_times = \<lparr>ct_refresh = 6000000, ct_build = 6000000, ct_prepare = 6000000, ct_verify = 6000000,
    ct_status = (\<lambda>i. 6000000), ct_acknowledge = 6000000, ct_acknowledged = 6000000\<rparr>"

definition small_delivery :: delivery where
  "small_delivery = Delivered \<lparr>mgp_not_before = 0, mgp_expires_at = 60000000\<rparr> (6000000, 6000000) (6000000, 6000000) True True"

definition small_run :: "(gateway_db \<times> router_host list) \<times> (app_error + router_admission)" where
  "small_run = apply_current_policy small_controller small_times [small_delivery] False (\<lambda>db. db)
    (sample_db\<lparr>agents := [], agent_keys := []\<rparr>) [small_host]"

lemma small_run_ok: "is_ok (snd small_run)"
  by code_simp

lemma small_started: "is_ok (RouterSupervisor_new small_env 0 None None ''key'' ''f'' demo_config)"
  by code_simp

lemma small_fleet_host: "fleet_host small_controller small_host"
proof -
  have "RouterSupervisor_new small_env 0 None None ''key'' ''f'' demo_config = Inr (demo_start small_env)"
    using small_started by (auto simp: demo_start_def is_ok_iff)
  moreover have "supervisor_runs small_env (Starting, demo_start small_env) (Serving, rh_state small_host)"
    unfolding small_host_def by (simp add: r_into_rtranclp run_start_step)
  moreover have "storage_roundtrip small_env" by (auto simp: storage_roundtrip_def small_env_def split: if_splits)
  moreover have "re_crypto small_env = ac_crypto small_controller" by (simp add: small_env_def small_controller_def)
  moreover have "rh_env small_host = small_env" "ac_verifying_key small_controller = ''key''"
      "rpc_fleet_id (ac_config small_controller) = ''f''"
    by (simp_all add: small_host_def small_controller_def small_fleet_def)
  ultimately show ?thesis unfolding fleet_host_def by metis
qed

section \<open>Properties\<close>

text \<open>
  C3. An admission is enforced by the whole fleet: when \<^verbatim>\<open>apply_current_policy\<close> returns an
  admission, one signed policy has its generation and its digest, and every configured Router
  runs a process with the access control of exactly that policy, reports ready and has published
  that generation and digest.  When the call
  had to allocate a new generation, that policy lists exactly the Agents that were active in the
  database.  The hypotheses on the libraries are the round trips of JSON and that digests
  of different policies differ.
\<close>

theorem fleet_enforces_admission:
  assumes "apply_current_policy c t deliveries late others db hosts = ((db', hosts'), Inr admission)"
    and "length hosts = length (rpc_routers (ac_config c))" and "list_all (fleet_host c) hosts"
    and "digests_bind (ac_crypto c)" and "json_roundtrip c"
  shows "\<exists>p. SignedPolicy_verify (ac_crypto c) (ac_verifying_key c) (rpc_fleet_id (ac_config c)) (vp_signed p) = Inr p \<and>
    uint (po_generation (vp_policy p)) = adm_generation admission \<and>
    vp_digest p = rc_hex_encode (ac_crypto c) (adm_digest admission) \<and>
    length hosts' = length (rpc_routers (ac_config c)) \<and>
    list_all (in_force p) hosts' \<and>
    (\<forall>row. find_by rp_organization_id (ac_organization_id c) (router_policies db) = Some row \<and>
      \<not> policy_reusable (ac_configuration_digest c) (ct_refresh t + REFRESH_MARGIN) row \<longrightarrow>
      po_agents (vp_policy p) = map admission_of (active_agents db (ac_organization_id c)))"
proof -
  from assms(1) obtain db1 policy signed_policy p statuses where
    prepare: "prepare_router_policy (ct_prepare t) (ac_organization_id c) (ac_configuration_digest c)
      (ct_refresh t + REFRESH_MARGIN) (build_policy c (ct_build t)) db = (db1, Inr policy)"
    and checked: "stored_policy c (ct_verify t) policy = Inr (signed_policy, p)"
    and hosts': "hosts' = map fst (map2 (management_apply signed_policy) deliveries hosts) @
      drop (length (map2 (management_apply signed_policy) deliveries hosts)) hosts"
    and replies: "try_map (\<lambda>outcome. snd outcome) (map2 (management_apply signed_policy) deliveries hosts) = Inr statuses"
      "length statuses = length (rpc_routers (ac_config c))"
      "list_all (\<lambda>(i, status). acknowledges policy p (ct_status t i) status) (enumerate 0 statuses)"
    and acknowledge: "acknowledge_router_policy (ct_acknowledge t) (ct_acknowledged t) (ac_organization_id c) policy
      (others db1) = (db', Inr admission)"
    by (rule apply_current_policy_Inr)
  note p = stored_policy_Inr [OF checked]
  have signed: "vp_signed p = signed_policy" by (rule verify_signed [OF p(2)])
  from acknowledge have "uint (prp_generation policy) = adm_generation admission \<and> prp_digest policy = adm_digest admission"
    by (auto elim!: acknowledge_router_policy_Inr simp: i64_of_u64_def split: if_splits)
  moreover have "length (map2 (management_apply signed_policy) deliveries hosts) = length hosts"
    using try_map_length [OF replies(1)] replies(2) assms(2) by simp
  then have "hosts' = map fst (map2 (management_apply signed_policy) deliveries hosts)" and "length hosts' = length hosts"
    using hosts' by simp_all
  moreover have "po_agents (vp_policy p) = map admission_of (active_agents db (ac_organization_id c))"
    if "find_by rp_organization_id (ac_organization_id c) (router_policies db) = Some row \<and>
      \<not> policy_reusable (ac_configuration_digest c) (ct_refresh t + REFRESH_MARGIN) row" for row
    using prepared_agents [OF prepare assms(5) p(1)] that signed by blast
  moreover have "list_all (in_force p) (map fst (map2 (management_apply signed_policy) deliveries hosts))"
    using fleet_in_force [OF replies(1) assms(3,4) p(2) replies(3)] p(4) signed by simp
  ultimately show ?thesis using p signed assms(2) by (intro exI [of _ p]) auto
qed

theorem fleet_enforces_admission_witness:
  "length (snd (fst small_run)) = 1 \<and>
   list_all (\<lambda>h. sv_child (rh_state h) \<noteq> None \<and> rs_ready (sv_status (rh_state h))) (snd (fst small_run))"
proof -
  obtain adm where "snd small_run = Inr adm" using small_run_ok by (auto simp: is_ok_iff)
  then have run: "apply_current_policy small_controller small_times [small_delivery] False (\<lambda>db. db)
      (sample_db\<lparr>agents := [], agent_keys := []\<rparr>) [small_host] = ((fst (fst small_run), snd (fst small_run)), Inr adm)"
    unfolding small_run_def [symmetric] by (metis prod.collapse)
  have routers: "length (rpc_routers (ac_config small_controller)) = 1"
    by (simp add: small_controller_def small_fleet_def)
  have "digests_bind (ac_crypto small_controller)"
    by (auto simp: digests_bind_def small_controller_def small_crypto_def split: if_splits)
  moreover have "json_roundtrip small_controller"
    by (auto simp: json_roundtrip_def small_controller_def split: if_splits)
  ultimately show ?thesis
    using fleet_enforces_admission [OF run] routers small_fleet_host by (fastforce simp: list_all_iff in_force_def)
qed

end
