(* ===== verification/Device_Authority.thy ===== *)
theory Device_Authority
  imports Protocol
begin

text \<open>
  Device Authority (\<^verbatim>\<open>inari-gateway/src/device_authority\<close>): the signed records that decide which
  Device an Agent may use for which purpose, and the verification of a whole bundle against one
  independently trusted key.  RFC 8785, SHA-256, hexadecimal, RFC 3339 and Ed25519 are fields of a
  library record; the JSON form of each record is written out.
\<close>

section \<open>Definitions\<close>

record authority_library =
  al_canonical :: "structured_value \<Rightarrow> string + bytes"
  al_sha256 :: "bytes \<Rightarrow> bytes"
  al_hex :: "bytes \<Rightarrow> string"
  al_rfc3339_secs :: "instant \<Rightarrow> string"
  al_rfc3339_micros :: "instant \<Rightarrow> string"
  al_key_from_bytes :: "bytes \<Rightarrow> bytes option"
  al_verify_strict :: "bytes \<Rightarrow> bytes \<Rightarrow> bytes \<Rightarrow> bool"

definition refused :: "string \<Rightarrow> 'a gateway_result" where
  "refused message = Inl (InvalidInput message)"

subsection \<open>Primitives\<close>

text \<open>\<^verbatim>\<open>chars().count()\<close> of UTF-8 text: the bytes that are not continuation bytes.\<close>

definition char_count :: "string \<Rightarrow> nat" where
  "char_count value = length (filter (\<lambda>c. byte_of c div 64 \<noteq> 2) value)"

definition Identifier_new :: "string \<Rightarrow> string gateway_result" where
  "Identifier_new value =
    (if value = [] \<or> char_count value > 256 then refused ''authority identifiers need 1 to 256 characters''
     else Inr value)"

definition AuthorityDigest_of :: "authority_library \<Rightarrow> bytes \<Rightarrow> string" where
  "AuthorityDigest_of lib bytes = al_hex lib (al_sha256 lib bytes)"

definition AuthorityDigest_deserialize :: "string \<Rightarrow> string + string" where
  "AuthorityDigest_deserialize value =
    (if length value \<noteq> 64 \<or> \<not> list_all (\<lambda>byte. is_ascii_digit byte \<or> byte \<in> set ''abcdef'') value
     then Inl ''authority digests need 64 lowercase hex digits'' else Inr value)"

definition PositiveInteger_new :: "64 word \<Rightarrow> 64 word gateway_result" where
  "PositiveInteger_new value =
    (if \<not> (1 \<le> value \<and> value \<le> 9007199254740991)
     then refused ''authority integers must be positive and exact in RFC 8785'' else Inr value)"

text \<open>
  A \<^verbatim>\<open>DateTime<Utc>\<close> before it is checked: seconds since the epoch and nanoseconds, which exceed
  one second in a leap second.  The years 1 to 9999 are the given range of seconds.
\<close>

definition AuthorityTime_new :: "int \<Rightarrow> int \<Rightarrow> instant gateway_result" where
  "AuthorityTime_new seconds nanos =
    (if \<not> (-62135596800 \<le> seconds \<and> seconds < 253402300800) \<or> nanos mod 1000 \<noteq> 0 \<or> nanos \<ge> 1000000000
     then refused ''authority timestamps need microsecond precision without leap seconds''
     else Inr (seconds * 1000000 + nanos div 1000))"

text \<open>The signed form always has microseconds; the other form drops them when they are zero.\<close>

definition time_signing_value :: "authority_library \<Rightarrow> instant \<Rightarrow> structured_value" where
  "time_signing_value lib t = SText (al_rfc3339_micros lib t)"

definition time_json :: "authority_library \<Rightarrow> instant \<Rightarrow> structured_value" where
  "time_json lib t = SText (if t mod 1000000 = 0 then al_rfc3339_secs lib t else al_rfc3339_micros lib t)"

definition optional :: "('a \<Rightarrow> structured_value) \<Rightarrow> 'a option \<Rightarrow> structured_value" where
  "optional json x = (case x of None \<Rightarrow> SNull | Some v \<Rightarrow> json v)"

subsection \<open>Records\<close>

datatype scope_kind = ScopeSite | ScopePosConfiguration
datatype output_evidence = EvidenceTransport | EvidenceSpooler | EvidenceDevice
datatype device_test_result = TestPassed | TestFailedEnvironment | TestFailedContract
datatype signer_purpose =
    PurposeAuthorityRevision | PurposeDriverProfile | PurposeCertificationMatrix | PurposeBindingRevision
  | PurposeDeviceTestEvidence | PurposeDeviceObservation
datatype signer_state = SignerActive | SignerRetired

text \<open>The derived order of \<^verbatim>\<open>OutputEvidence\<close>.\<close>

fun evidence_rank :: "output_evidence \<Rightarrow> nat" where
  "evidence_rank EvidenceTransport = 0"
| "evidence_rank EvidenceSpooler = 1"
| "evidence_rank EvidenceDevice = 2"

record authority_scope =
  asc_database :: string
  asc_organization_id :: string
  asc_site_id :: string
  asc_kind :: scope_kind
  asc_pos_configuration_id :: "string option"

record signer_record =
  sg_key_id :: string
  sg_purpose :: signer_purpose
  sg_public_key :: bytes
  sg_state :: signer_state
  sg_not_before :: instant
  sg_not_after :: "instant option"
  sg_retired_at :: "instant option"

record authority_revision =
  av_revision_id :: string
  av_revision_number :: "64 word"
  av_manifest_digest :: string
  av_effective_at :: instant
  av_expires_at :: "instant option"

record authority_capability =
  dc_capability_id :: string
  dc_operation :: string
  dc_media_type :: string
  dc_contract_major :: "64 word"
  dc_output_evidence :: output_evidence
  dc_max_payload_bytes :: "64 word"
  dc_max_copies :: "64 word"
  dc_options_digest :: string

record driver_profile =
  dp_profile_id :: string
  dp_version :: string
  dp_driver_id :: string
  dp_min_agent_version :: string
  dp_capabilities :: "authority_capability list"
  dp_effective_at :: instant
  dp_expires_at :: "instant option"

record matrix_row =
  mx_row_id :: string
  mx_version :: "64 word"
  mx_device_id :: string
  mx_device_identity_digest :: string
  mx_manufacturer :: string
  mx_model :: string
  mx_firmware_version :: string
  mx_firmware_build :: string
  mx_driver_id :: string
  mx_driver_profile_digest :: string
  mx_capability_id :: string
  mx_platform_backend_id :: string
  mx_connection :: string
  mx_media_profile :: string
  mx_operating_system :: string
  mx_release_set_id :: string
  mx_effective_at :: instant
  mx_expires_at :: "instant option"

record binding_revision =
  br_binding_id :: string
  br_revision_id :: string
  br_revision_number :: "64 word"
  br_scope :: authority_scope
  br_purpose :: string
  br_device_id :: string
  br_device_identity_digest :: string
  br_capability_id :: string
  br_driver_profile_digest :: string
  br_matrix_row_id :: string
  br_options_digest :: string

record device_test_evidence =
  te_evidence_id :: string
  te_revision_id :: string
  te_device_id :: string
  te_device_identity_digest :: string
  te_capability_id :: string
  te_driver_profile_digest :: string
  te_matrix_row_id :: string
  te_output_evidence :: output_evidence
  te_result :: device_test_result
  te_test_pattern_digest :: string
  te_tested_at :: instant
  te_valid_until :: "instant option"

record device_observation =
  dob_observation_id :: string
  dob_device_id :: string
  dob_device_identity_digest :: string
  dob_driver_id :: string
  dob_driver_profile_digest :: string
  dob_platform_backend_id :: string
  dob_connection :: string
  dob_media_profile :: string
  dob_firmware_version :: string
  dob_firmware_build :: string
  dob_operating_system :: string
  dob_ready :: bool
  dob_state :: string
  dob_reason :: "string option"
  dob_observed_at :: instant

subsection \<open>JSON\<close>

fun scope_kind_text :: "scope_kind \<Rightarrow> string" where
  "scope_kind_text ScopeSite = ''site''"
| "scope_kind_text ScopePosConfiguration = ''pos_configuration''"

fun output_evidence_text :: "output_evidence \<Rightarrow> string" where
  "output_evidence_text EvidenceTransport = ''transport''"
| "output_evidence_text EvidenceSpooler = ''spooler''"
| "output_evidence_text EvidenceDevice = ''device''"

fun test_result_text :: "device_test_result \<Rightarrow> string" where
  "test_result_text TestPassed = ''passed''"
| "test_result_text TestFailedEnvironment = ''failed_environment''"
| "test_result_text TestFailedContract = ''failed_contract''"

fun purpose_text :: "signer_purpose \<Rightarrow> string" where
  "purpose_text PurposeAuthorityRevision = ''authority_revision''"
| "purpose_text PurposeDriverProfile = ''driver_profile''"
| "purpose_text PurposeCertificationMatrix = ''certification_matrix''"
| "purpose_text PurposeBindingRevision = ''binding_revision''"
| "purpose_text PurposeDeviceTestEvidence = ''device_test_evidence''"
| "purpose_text PurposeDeviceObservation = ''device_observation''"

fun signer_state_text :: "signer_state \<Rightarrow> string" where
  "signer_state_text SignerActive = ''active''"
| "signer_state_text SignerRetired = ''retired''"

definition scope_json :: "authority_scope \<Rightarrow> structured_value" where
  "scope_json s = SObject [(''database'', SText (asc_database s)), (''organization_id'', SText (asc_organization_id s)),
    (''site_id'', SText (asc_site_id s)), (''kind'', SText (scope_kind_text (asc_kind s))),
    (''pos_configuration_id'', optional SText (asc_pos_configuration_id s))]"

definition signer_json :: "authority_library \<Rightarrow> signer_record \<Rightarrow> structured_value" where
  "signer_json lib s = SObject [(''key_id'', SText (sg_key_id s)), (''purpose'', SText (purpose_text (sg_purpose s))),
    (''public_key'', SText (al_hex lib (sg_public_key s))), (''state'', SText (signer_state_text (sg_state s))),
    (''not_before'', time_json lib (sg_not_before s)), (''not_after'', optional (time_json lib) (sg_not_after s)),
    (''retired_at'', optional (time_json lib) (sg_retired_at s))]"

text \<open>The fields of the six records; \<open>time\<close> and \<open>time_option\<close> are filled in by the two forms.\<close>

definition revision_fields :: "(instant \<Rightarrow> structured_value) \<Rightarrow> authority_revision \<Rightarrow> structured_fields" where
  "revision_fields time r = [(''revision_id'', SText (av_revision_id r)), (''revision_number'', SUnsigned (av_revision_number r)),
    (''manifest_digest'', SText (av_manifest_digest r)), (''effective_at'', time (av_effective_at r)),
    (''expires_at'', optional time (av_expires_at r))]"

definition capability_json :: "authority_capability \<Rightarrow> structured_value" where
  "capability_json c = SObject [(''capability_id'', SText (dc_capability_id c)), (''operation'', SText (dc_operation c)),
    (''media_type'', SText (dc_media_type c)), (''contract_major'', SUnsigned (dc_contract_major c)),
    (''output_evidence'', SText (output_evidence_text (dc_output_evidence c))),
    (''max_payload_bytes'', SUnsigned (dc_max_payload_bytes c)), (''max_copies'', SUnsigned (dc_max_copies c)),
    (''options_digest'', SText (dc_options_digest c))]"

definition profile_fields :: "(instant \<Rightarrow> structured_value) \<Rightarrow> driver_profile \<Rightarrow> structured_fields" where
  "profile_fields time p = [(''profile_id'', SText (dp_profile_id p)), (''version'', SText (dp_version p)),
    (''driver_id'', SText (dp_driver_id p)), (''min_agent_version'', SText (dp_min_agent_version p)),
    (''capabilities'', SList (map capability_json (dp_capabilities p))), (''effective_at'', time (dp_effective_at p)),
    (''expires_at'', optional time (dp_expires_at p))]"

definition row_fields :: "(instant \<Rightarrow> structured_value) \<Rightarrow> matrix_row \<Rightarrow> structured_fields" where
  "row_fields time r = [(''row_id'', SText (mx_row_id r)), (''version'', SUnsigned (mx_version r)),
    (''device_id'', SText (mx_device_id r)), (''device_identity_digest'', SText (mx_device_identity_digest r)),
    (''manufacturer'', SText (mx_manufacturer r)), (''model'', SText (mx_model r)),
    (''firmware_version'', SText (mx_firmware_version r)), (''firmware_build'', SText (mx_firmware_build r)),
    (''driver_id'', SText (mx_driver_id r)), (''driver_profile_digest'', SText (mx_driver_profile_digest r)),
    (''capability_id'', SText (mx_capability_id r)), (''platform_backend_id'', SText (mx_platform_backend_id r)),
    (''connection'', SText (mx_connection r)), (''media_profile'', SText (mx_media_profile r)),
    (''operating_system'', SText (mx_operating_system r)), (''release_set_id'', SText (mx_release_set_id r)),
    (''effective_at'', time (mx_effective_at r)), (''expires_at'', optional time (mx_expires_at r))]"

definition binding_fields :: "(instant \<Rightarrow> structured_value) \<Rightarrow> binding_revision \<Rightarrow> structured_fields" where
  "binding_fields time b = [(''binding_id'', SText (br_binding_id b)), (''revision_id'', SText (br_revision_id b)),
    (''revision_number'', SUnsigned (br_revision_number b)), (''scope'', scope_json (br_scope b)),
    (''purpose'', SText (br_purpose b)), (''device_id'', SText (br_device_id b)),
    (''device_identity_digest'', SText (br_device_identity_digest b)), (''capability_id'', SText (br_capability_id b)),
    (''driver_profile_digest'', SText (br_driver_profile_digest b)), (''matrix_row_id'', SText (br_matrix_row_id b)),
    (''options_digest'', SText (br_options_digest b))]"

definition evidence_fields :: "(instant \<Rightarrow> structured_value) \<Rightarrow> device_test_evidence \<Rightarrow> structured_fields" where
  "evidence_fields time e = [(''evidence_id'', SText (te_evidence_id e)), (''revision_id'', SText (te_revision_id e)),
    (''device_id'', SText (te_device_id e)), (''device_identity_digest'', SText (te_device_identity_digest e)),
    (''capability_id'', SText (te_capability_id e)), (''driver_profile_digest'', SText (te_driver_profile_digest e)),
    (''matrix_row_id'', SText (te_matrix_row_id e)),
    (''output_evidence'', SText (output_evidence_text (te_output_evidence e))),
    (''result'', SText (test_result_text (te_result e))), (''test_pattern_digest'', SText (te_test_pattern_digest e)),
    (''tested_at'', time (te_tested_at e)), (''valid_until'', optional time (te_valid_until e))]"

definition observation_fields :: "(instant \<Rightarrow> structured_value) \<Rightarrow> device_observation \<Rightarrow> structured_fields" where
  "observation_fields time b = [(''observation_id'', SText (dob_observation_id b)), (''device_id'', SText (dob_device_id b)),
    (''device_identity_digest'', SText (dob_device_identity_digest b)), (''driver_id'', SText (dob_driver_id b)),
    (''driver_profile_digest'', SText (dob_driver_profile_digest b)), (''platform_backend_id'', SText (dob_platform_backend_id b)),
    (''connection'', SText (dob_connection b)), (''media_profile'', SText (dob_media_profile b)),
    (''firmware_version'', SText (dob_firmware_version b)), (''firmware_build'', SText (dob_firmware_build b)),
    (''operating_system'', SText (dob_operating_system b)), (''ready'', SBoolean (dob_ready b)), (''state'', SText (dob_state b)),
    (''reason'', optional SText (dob_reason b)), (''observed_at'', time (dob_observed_at b))]"

subsection \<open>Validation and signatures\<close>

definition validity :: "instant \<Rightarrow> instant option \<Rightarrow> unit gateway_result" where
  "validity start end_time =
    (if (case end_time of None \<Rightarrow> False | Some e \<Rightarrow> e \<le> start)
     then refused ''authority expiry must follow its effective time'' else Inr ())"

definition AuthorityScope_validate :: "authority_scope \<Rightarrow> unit gateway_result" where
  "AuthorityScope_validate s =
    (if (asc_kind s = ScopePosConfiguration) \<noteq> (asc_pos_configuration_id s \<noteq> None)
     then refused ''only POS scopes contain a POS configuration'' else Inr ())"

definition SignerRecord_validate :: "signer_record \<Rightarrow> unit gateway_result" where
  "SignerRecord_validate s =
    and_then (validity (sg_not_before s) (sg_not_after s)) (\<lambda>_.
    if (sg_state s = SignerActive) \<noteq> (sg_retired_at s = None) \<or>
       (case sg_retired_at s of None \<Rightarrow> False | Some at \<Rightarrow> at < sg_not_before s)
    then refused ''signer state and retirement time disagree'' else Inr ())"

text \<open>The trait \<^verbatim>\<open>RecordPayload\<close>: purpose, validation and the fields of the JSON object.\<close>

record 'r record_payload =
  pl_purpose :: signer_purpose
  pl_validate :: "'r \<Rightarrow> unit gateway_result"
  pl_fields :: "(instant \<Rightarrow> structured_value) \<Rightarrow> 'r \<Rightarrow> structured_fields"

definition AuthorityRevision_payload :: "authority_revision record_payload" where
  "AuthorityRevision_payload = \<lparr>pl_purpose = PurposeAuthorityRevision,
    pl_validate = (\<lambda>r. validity (av_effective_at r) (av_expires_at r)), pl_fields = revision_fields\<rparr>"

definition DriverProfile_payload :: "driver_profile record_payload" where
  "DriverProfile_payload = \<lparr>pl_purpose = PurposeDriverProfile,
    pl_validate = (\<lambda>p. and_then (validity (dp_effective_at p) (dp_expires_at p)) (\<lambda>_.
      if dp_capabilities p = [] \<or> \<not> distinct (map dc_capability_id (dp_capabilities p))
      then refused ''a Driver Profile needs at least one distinct capability'' else Inr ())),
    pl_fields = profile_fields\<rparr>"

definition MatrixRow_payload :: "matrix_row record_payload" where
  "MatrixRow_payload = \<lparr>pl_purpose = PurposeCertificationMatrix,
    pl_validate = (\<lambda>r. validity (mx_effective_at r) (mx_expires_at r)), pl_fields = row_fields\<rparr>"

definition BindingRevision_payload :: "binding_revision record_payload" where
  "BindingRevision_payload = \<lparr>pl_purpose = PurposeBindingRevision,
    pl_validate = (\<lambda>b. AuthorityScope_validate (br_scope b)), pl_fields = binding_fields\<rparr>"

definition DeviceTestEvidence_payload :: "device_test_evidence record_payload" where
  "DeviceTestEvidence_payload = \<lparr>pl_purpose = PurposeDeviceTestEvidence,
    pl_validate = (\<lambda>e. validity (te_tested_at e) (te_valid_until e)), pl_fields = evidence_fields\<rparr>"

definition DeviceObservation_payload :: "device_observation record_payload" where
  "DeviceObservation_payload = \<lparr>pl_purpose = PurposeDeviceObservation, pl_validate = (\<lambda>b. Inr ()),
    pl_fields = observation_fields\<rparr>"

text \<open>
  \<^verbatim>\<open>replace_times\<close> serializes a record and then overwrites its times: the fields with the times in
  the signed form.
\<close>

definition signing_value :: "'r record_payload \<Rightarrow> authority_library \<Rightarrow> 'r \<Rightarrow> structured_value" where
  "signing_value payload lib r = SObject (pl_fields payload (time_signing_value lib) r)"

record 'r canonical_record =
  cn_record :: 'r
  cn_digest :: string
  cn_bytes :: bytes

definition CanonicalRecord_new :: "'r record_payload \<Rightarrow> authority_library \<Rightarrow> 'r \<Rightarrow> 'r canonical_record gateway_result" where
  "CanonicalRecord_new payload lib r =
    and_then (pl_validate payload r) (\<lambda>_.
    and_then (map_err (\<lambda>_. Serialization) (al_canonical lib (signing_value payload lib r))) (\<lambda>bytes.
    Inr \<lparr>cn_record = r, cn_digest = AuthorityDigest_of lib bytes, cn_bytes = bytes\<rparr>))"

record 'r signed_record =
  sr_record :: 'r
  sr_digest :: string
  sr_signer_key_id :: string
  sr_signature :: bytes

definition from_signature :: "'r canonical_record \<Rightarrow> string \<Rightarrow> bytes \<Rightarrow> 'r signed_record" where
  "from_signature c signer_key_id signature =
    \<lparr>sr_record = cn_record c, sr_digest = cn_digest c, sr_signer_key_id = signer_key_id, sr_signature = signature\<rparr>"

definition signer_current :: "signer_record \<Rightarrow> instant \<Rightarrow> bool" where
  "signer_current signer now \<longleftrightarrow> sg_state signer = SignerActive \<and> sg_not_before signer \<le> now \<and>
    (case sg_not_after signer of None \<Rightarrow> True | Some e \<Rightarrow> now < e)"

definition signed_verify ::
    "'r record_payload \<Rightarrow> authority_library \<Rightarrow> 'r signed_record \<Rightarrow> signer_record \<Rightarrow> instant \<Rightarrow> unit gateway_result" where
  "signed_verify payload lib item signer now =
    and_then (SignerRecord_validate signer) (\<lambda>_.
    if sg_key_id signer \<noteq> sr_signer_key_id item \<or> sg_purpose signer \<noteq> pl_purpose payload then
      refused ''the authority signer key or purpose differs''
    else if \<not> signer_current signer now then refused ''the authority signer is not current''
    else
      and_then (CanonicalRecord_new payload lib (sr_record item)) (\<lambda>c.
      if cn_digest c \<noteq> sr_digest item then refused ''the authority digest differs from its record''
      else
        and_then (ok_or (InvalidInput ''the authority public key is invalid'') (al_key_from_bytes lib (sg_public_key signer))) (\<lambda>key.
        if al_verify_strict lib key (cn_bytes c) (sr_signature item) then Inr ()
        else refused ''the authority signature is invalid'')))"

subsection \<open>Bundles\<close>

record binding_activation =
  ba_revision_id :: string
  ba_evidence_id :: string

record authority_manifest =
  am_agent_id :: string
  am_scope :: authority_scope
  am_signers :: "signer_record list"
  am_profiles :: "driver_profile signed_record list"
  am_certification_rows :: "matrix_row signed_record list"
  am_bindings :: "binding_revision signed_record list"
  am_evidence :: "device_test_evidence signed_record list"
  am_activations :: "binding_activation list"

record authority_bundle =
  ab_revision :: "authority_revision signed_record"
  ab_manifest :: authority_manifest

definition signed_json ::
    "authority_library \<Rightarrow> string \<Rightarrow> ((instant \<Rightarrow> structured_value) \<Rightarrow> 'r \<Rightarrow> structured_fields) \<Rightarrow> 'r signed_record \<Rightarrow>
     structured_value" where
  "signed_json lib name record_fields item = SObject [(name, SObject (record_fields (time_json lib) (sr_record item))),
    (''digest'', SText (sr_digest item)), (''signer_key_id'', SText (sr_signer_key_id item)),
    (''signature'', SText (al_hex lib (sr_signature item)))]"

definition manifest_json :: "authority_library \<Rightarrow> authority_manifest \<Rightarrow> structured_value" where
  "manifest_json lib m = SObject [(''contract'', SText ''inari.device-authority.v1''), (''agent_id'', SText (am_agent_id m)),
    (''scope'', scope_json (am_scope m)), (''signers'', SList (map (signer_json lib) (am_signers m))),
    (''profiles'', SList (map (signed_json lib ''profile'' profile_fields) (am_profiles m))),
    (''certification_rows'', SList (map (signed_json lib ''row'' row_fields) (am_certification_rows m))),
    (''bindings'', SList (map (signed_json lib ''revision'' binding_fields) (am_bindings m))),
    (''evidence'', SList (map (signed_json lib ''evidence'' evidence_fields) (am_evidence m))),
    (''activations'', SList (map (\<lambda>a. SObject [(''revision_id'', SText (ba_revision_id a)),
      (''evidence_id'', SText (ba_evidence_id a))]) (am_activations m)))]"

definition AuthorityManifest_validate :: "authority_manifest \<Rightarrow> unit gateway_result" where
  "AuthorityManifest_validate m =
    and_then (AuthorityScope_validate (am_scope m)) (\<lambda>_.
    and_then (try_map SignerRecord_validate (am_signers m)) (\<lambda>_.
    if length (am_signers m) > 128 \<or> length (am_profiles m) > 256 \<or> length (am_certification_rows m) > 1024 \<or>
       length (am_bindings m) > 1024 \<or> length (am_evidence m) > 1024 \<or> length (am_activations m) > 1024 then
      refused ''the authority manifest exceeds its record limit''
    else if \<not> distinct (map sg_key_id (am_signers m)) \<or> \<not> distinct (map sr_digest (am_profiles m)) \<or>
       \<not> distinct (map (\<lambda>item. mx_row_id (sr_record item)) (am_certification_rows m)) \<or>
       \<not> distinct (map (\<lambda>item. br_revision_id (sr_record item)) (am_bindings m)) \<or>
       \<not> distinct (map (\<lambda>item. te_evidence_id (sr_record item)) (am_evidence m)) then
      refused ''the authority manifest repeats a record''
    else if list_ex (\<lambda>item. br_scope (sr_record item) \<noteq> am_scope m) (am_bindings m) then
      refused ''a Binding Revision belongs to another scope''
    else Inr ()))"

definition AuthorityManifest_digest :: "authority_library \<Rightarrow> authority_manifest \<Rightarrow> string gateway_result" where
  "AuthorityManifest_digest lib m =
    and_then (AuthorityManifest_validate m) (\<lambda>_.
    and_then (map_err (\<lambda>_. Serialization) (al_canonical lib (manifest_json lib m))) (\<lambda>bytes.
    Inr (AuthorityDigest_of lib bytes)))"

definition find_signer :: "authority_manifest \<Rightarrow> string \<Rightarrow> signer_record gateway_result" where
  "find_signer m key =
    ok_or (InvalidInput ''the authority record signing key is absent'') (find (\<lambda>item. sg_key_id item = key) (rev (am_signers m)))"

definition verify_all ::
    "'r record_payload \<Rightarrow> authority_library \<Rightarrow> authority_manifest \<Rightarrow> instant \<Rightarrow> 'r signed_record list \<Rightarrow> unit gateway_result" where
  "verify_all payload lib m now items =
    and_then (try_map (\<lambda>item. and_then (find_signer m (sr_signer_key_id item)) (\<lambda>signer.
      signed_verify payload lib item signer now)) items) (\<lambda>_. Inr ())"

definition period_current :: "instant \<Rightarrow> instant \<times> instant option \<Rightarrow> bool" where
  "period_current now = (\<lambda>(start, end_time). start \<le> now \<and> (case end_time of None \<Rightarrow> True | Some e \<Rightarrow> now < e))"

text \<open>The records that one activation refers to.\<close>

record activation_graph =
  gr_binding :: binding_revision
  gr_test :: device_test_evidence
  gr_profile :: driver_profile
  gr_row :: matrix_row
  gr_capability :: authority_capability

definition resolve_activation :: "authority_manifest \<Rightarrow> binding_activation \<Rightarrow> activation_graph gateway_result" where
  "resolve_activation m activation =
    and_then (ok_or (InvalidInput ''an activation Binding Revision is absent'')
      (find (\<lambda>item. br_revision_id (sr_record item) = ba_revision_id activation) (am_bindings m))) (\<lambda>binding.
    and_then (ok_or (InvalidInput ''activation evidence is absent'')
      (find (\<lambda>item. te_evidence_id (sr_record item) = ba_evidence_id activation) (am_evidence m))) (\<lambda>evidence.
    and_then (ok_or (InvalidInput ''the active Driver Profile is absent'')
      (find (\<lambda>item. sr_digest item = br_driver_profile_digest (sr_record binding)) (am_profiles m))) (\<lambda>profile.
    and_then (ok_or (InvalidInput ''the active certification row is absent'')
      (find (\<lambda>item. mx_row_id (sr_record item) = br_matrix_row_id (sr_record binding)) (am_certification_rows m))) (\<lambda>row.
    and_then (ok_or (InvalidInput ''the active Device Capability is absent'')
      (find (\<lambda>item. dc_capability_id item = br_capability_id (sr_record binding)) (dp_capabilities (sr_record profile)))) (\<lambda>capability.
    Inr \<lparr>gr_binding = sr_record binding, gr_test = sr_record evidence, gr_profile = sr_record profile, gr_row = sr_record row,
      gr_capability = capability\<rparr>)))))"

text \<open>The comparison of the source, without the set of purposes.\<close>

definition graph_agrees :: "activation_graph \<Rightarrow> bool" where
  "graph_agrees g \<longleftrightarrow> (let b = gr_binding g; e = gr_test g; p = gr_profile g; r = gr_row g; c = gr_capability g in
    dc_options_digest c = br_options_digest b \<and> mx_driver_id r = dp_driver_id p \<and> te_revision_id e = br_revision_id b \<and>
    te_result e = TestPassed \<and> br_device_id b = mx_device_id r \<and> br_device_id b = te_device_id e \<and>
    br_device_identity_digest b = mx_device_identity_digest r \<and> br_device_identity_digest b = te_device_identity_digest e \<and>
    br_capability_id b = mx_capability_id r \<and> br_capability_id b = te_capability_id e \<and>
    br_driver_profile_digest b = mx_driver_profile_digest r \<and> br_driver_profile_digest b = te_driver_profile_digest e \<and>
    te_matrix_row_id e = mx_row_id r \<and> evidence_rank (dc_output_evidence c) \<le> evidence_rank (te_output_evidence e))"

definition graph_periods :: "activation_graph \<Rightarrow> (instant \<times> instant option) list" where
  "graph_periods g = [(dp_effective_at (gr_profile g), dp_expires_at (gr_profile g)),
    (mx_effective_at (gr_row g), mx_expires_at (gr_row g)), (te_tested_at (gr_test g), te_valid_until (gr_test g))]"

definition verify_activation ::
    "authority_manifest \<Rightarrow> instant \<Rightarrow> binding_activation \<Rightarrow> string list \<Rightarrow> string list gateway_result" where
  "verify_activation m now activation purposes =
    and_then (resolve_activation m activation) (\<lambda>g.
    if br_purpose (gr_binding g) \<in> set purposes \<or> \<not> graph_agrees g then
      refused ''the active Binding Revision graph differs''
    else if \<not> list_all (period_current now) (graph_periods g) then
      refused ''an active authority record is not current''
    else Inr (br_purpose (gr_binding g) # purposes))"

definition verify_activations :: "authority_manifest \<Rightarrow> instant \<Rightarrow> unit gateway_result" where
  "verify_activations m now = and_then (try_fold (verify_activation m now) (am_activations m) []) (\<lambda>_. Inr ())"

definition AuthorityBundle_verify ::
    "authority_library \<Rightarrow> authority_bundle \<Rightarrow> signer_record \<Rightarrow> string \<Rightarrow> authority_scope \<Rightarrow> instant \<Rightarrow> unit gateway_result" where
  "AuthorityBundle_verify lib bundle trusted_signer agent_id scope now =
    (let m = ab_manifest bundle; revision = sr_record (ab_revision bundle) in
     if am_agent_id m \<noteq> agent_id \<or> am_scope m \<noteq> scope then
       refused ''the authority bundle targets another Agent or scope''
     else
       and_then (signed_verify AuthorityRevision_payload lib (ab_revision bundle) trusted_signer now) (\<lambda>_.
       if av_effective_at revision > now \<or> (case av_expires_at revision of None \<Rightarrow> True | Some e \<Rightarrow> e \<le> now) then
         refused ''an authority bundle needs a current, bounded lifetime''
       else
         and_then (AuthorityManifest_digest lib m) (\<lambda>digest.
         if digest \<noteq> av_manifest_digest revision then refused ''the authority manifest digest differs''
         else if list_ex (\<lambda>item. sg_key_id item = sg_key_id trusted_signer \<or> sg_purpose item = PurposeAuthorityRevision) (am_signers m)
         then refused ''the manifest cannot replace the authority trust key''
         else
           and_then (verify_all DriverProfile_payload lib m now (am_profiles m)) (\<lambda>_.
           and_then (verify_all MatrixRow_payload lib m now (am_certification_rows m)) (\<lambda>_.
           and_then (verify_all BindingRevision_payload lib m now (am_bindings m)) (\<lambda>_.
           and_then (verify_all DeviceTestEvidence_payload lib m now (am_evidence m)) (\<lambda>_.
           verify_activations m now)))))))"

section \<open>Lemmas\<close>

text \<open>
  A record is attested when a listed signer of exactly its purpose, valid and current, signed its
  canonical bytes.
\<close>

definition attested ::
    "'r record_payload \<Rightarrow> authority_library \<Rightarrow> signer_record list \<Rightarrow> instant \<Rightarrow> 'r signed_record \<Rightarrow> bool" where
  "attested payload lib signers now item \<longleftrightarrow>
    (\<exists>signer key c. signer \<in> set signers \<and> sg_key_id signer = sr_signer_key_id item \<and>
      sg_purpose signer = pl_purpose payload \<and> signer_current signer now \<and>
      al_key_from_bytes lib (sg_public_key signer) = Some key \<and>
      CanonicalRecord_new payload lib (sr_record item) = Inr c \<and> sr_digest item = AuthorityDigest_of lib (cn_bytes c) \<and>
      al_verify_strict lib key (cn_bytes c) (sr_signature item))"

lemma CanonicalRecord_digest:
  "CanonicalRecord_new payload lib r = Inr c \<Longrightarrow> cn_digest c = AuthorityDigest_of lib (cn_bytes c)"
  by (auto simp: CanonicalRecord_new_def and_then_eq_Inr)

lemma signed_verify_attested:
  assumes "signed_verify payload lib item signer now = Inr ()" and "signer \<in> set signers"
  shows "attested payload lib signers now item"
proof -
  obtain key c where "sg_key_id signer = sr_signer_key_id item" "sg_purpose signer = pl_purpose payload"
      "signer_current signer now" "al_key_from_bytes lib (sg_public_key signer) = Some key"
      "CanonicalRecord_new payload lib (sr_record item) = Inr c" "cn_digest c = sr_digest item"
      "al_verify_strict lib key (cn_bytes c) (sr_signature item)"
    using assms(1) by (auto simp: signed_verify_def refused_def and_then_eq_Inr ok_or_eq_Inr split: if_splits)
  then show ?thesis using assms(2) CanonicalRecord_digest unfolding attested_def by metis
qed

lemma find_member: "find P xs = Some x \<Longrightarrow> x \<in> set xs \<and> P x"
  by (auto simp: find_Some_iff)

lemma find_signer_Inr: "find_signer m key = Inr signer \<Longrightarrow> signer \<in> set (am_signers m)"
  by (auto simp: find_signer_def ok_or_eq_Inr dest!: find_member)

lemma verify_all_attested:
  assumes "verify_all payload lib m now items = Inr ()" and "item \<in> set items"
  shows "attested payload lib (am_signers m) now item"
proof -
  obtain i where "i < length items" "items ! i = item" using assms(2) by (auto simp: in_set_conv_nth)
  then obtain signer where "find_signer m (sr_signer_key_id item) = Inr signer" "signed_verify payload lib item signer now = Inr ()"
    using assms(1) by (auto simp: verify_all_def and_then_eq_Inr try_map_eq_Inr)
  then show ?thesis using signed_verify_attested find_signer_Inr by blast
qed

lemma verify_activation_Inr:
  "verify_activation m now a seen = Inr purposes \<longleftrightarrow> (\<exists>g. resolve_activation m a = Inr g \<and>
    br_purpose (gr_binding g) \<notin> set seen \<and> graph_agrees g \<and> list_all (period_current now) (graph_periods g) \<and>
    purposes = br_purpose (gr_binding g) # seen)"
  by (auto simp: verify_activation_def refused_def and_then_eq_Inr)

text \<open>What the activations of a verified bundle are, with the purposes they serve.\<close>

lemma activations_verified:
  assumes "try_fold (verify_activation m now) activations seen = Inr purposes" and "distinct seen"
  shows "distinct purposes \<and> (\<exists>graphs. list_all2 (\<lambda>a g. resolve_activation m a = Inr g \<and> graph_agrees g \<and>
    list_all (period_current now) (graph_periods g)) activations graphs \<and>
    purposes = rev (map (\<lambda>g. br_purpose (gr_binding g)) graphs) @ seen)"
  using assms
proof (induction activations arbitrary: seen)
  case (Cons a activations)
  from Cons.prems(1) obtain g where g: "resolve_activation m a = Inr g" "br_purpose (gr_binding g) \<notin> set seen" "graph_agrees g"
      "list_all (period_current now) (graph_periods g)"
      and rest: "try_fold (verify_activation m now) activations (br_purpose (gr_binding g) # seen) = Inr purposes"
    by (auto simp: verify_activation_Inr and_then_eq_Inr)
  have "distinct (br_purpose (gr_binding g) # seen)" using g(2) Cons.prems(2) by simp
  from Cons.IH [OF rest this] obtain graphs where "distinct purposes"
      "list_all2 (\<lambda>a g. resolve_activation m a = Inr g \<and> graph_agrees g \<and>
        list_all (period_current now) (graph_periods g)) activations graphs"
      "purposes = rev (map (\<lambda>g. br_purpose (gr_binding g)) graphs) @ br_purpose (gr_binding g) # seen"
    by blast
  then show ?case using g by (intro conjI exI [of _ "g # graphs"]) simp_all
qed auto

lemma resolve_activation_Inr:
  assumes "resolve_activation m a = Inr g"
  obtains binding evidence profile row where
    "binding \<in> set (am_bindings m)" "gr_binding g = sr_record binding" "br_revision_id (gr_binding g) = ba_revision_id a"
    "evidence \<in> set (am_evidence m)" "gr_test g = sr_record evidence" "te_evidence_id (gr_test g) = ba_evidence_id a"
    "profile \<in> set (am_profiles m)" "gr_profile g = sr_record profile" "sr_digest profile = br_driver_profile_digest (gr_binding g)"
    "row \<in> set (am_certification_rows m)" "gr_row g = sr_record row"
    "gr_capability g \<in> set (dp_capabilities (gr_profile g))"
proof -
  obtain binding evidence profile row capability where
    f: "find (\<lambda>item. br_revision_id (sr_record item) = ba_revision_id a) (am_bindings m) = Some binding"
      "find (\<lambda>item. te_evidence_id (sr_record item) = ba_evidence_id a) (am_evidence m) = Some evidence"
      "find (\<lambda>item. sr_digest item = br_driver_profile_digest (sr_record binding)) (am_profiles m) = Some profile"
      "find (\<lambda>item. mx_row_id (sr_record item) = br_matrix_row_id (sr_record binding)) (am_certification_rows m) = Some row"
      "find (\<lambda>item. dc_capability_id item = br_capability_id (sr_record binding)) (dp_capabilities (sr_record profile)) = Some capability"
    and g: "g = \<lparr>gr_binding = sr_record binding, gr_test = sr_record evidence, gr_profile = sr_record profile,
      gr_row = sr_record row, gr_capability = capability\<rparr>"
    using assms by (auto simp: resolve_activation_def and_then_eq_Inr ok_or_eq_Inr)
  show thesis
    by (rule that [of binding evidence profile row])
      (simp_all add: g find_member [OF f(1)] find_member [OF f(2)] find_member [OF f(3)] find_member [OF f(4)] find_member [OF f(5)])
qed

lemma bundle_verified:
  assumes "AuthorityBundle_verify lib bundle trusted agent_id scope now = Inr ()"
  shows "am_agent_id (ab_manifest bundle) = agent_id" "am_scope (ab_manifest bundle) = scope"
    "signed_verify AuthorityRevision_payload lib (ab_revision bundle) trusted now = Inr ()"
    "AuthorityManifest_digest lib (ab_manifest bundle) = Inr (av_manifest_digest (sr_record (ab_revision bundle)))"
    "list_all (\<lambda>s. sg_key_id s \<noteq> sg_key_id trusted \<and> sg_purpose s \<noteq> PurposeAuthorityRevision) (am_signers (ab_manifest bundle))"
    "verify_all DriverProfile_payload lib (ab_manifest bundle) now (am_profiles (ab_manifest bundle)) = Inr ()"
    "verify_all MatrixRow_payload lib (ab_manifest bundle) now (am_certification_rows (ab_manifest bundle)) = Inr ()"
    "verify_all BindingRevision_payload lib (ab_manifest bundle) now (am_bindings (ab_manifest bundle)) = Inr ()"
    "verify_all DeviceTestEvidence_payload lib (ab_manifest bundle) now (am_evidence (ab_manifest bundle)) = Inr ()"
    "verify_activations (ab_manifest bundle) now = Inr ()"
    "\<exists>e. av_expires_at (sr_record (ab_revision bundle)) = Some e \<and>
      av_effective_at (sr_record (ab_revision bundle)) \<le> now \<and> now < e"
  using assms
  by (auto simp: AuthorityBundle_verify_def Let_def refused_def and_then_eq_Inr list_ex_iff list_all_iff
      split: if_splits option.splits)

text \<open>The records of one activation agree, are current and are attested by signers of the manifest.\<close>

definition trusted_activation ::
    "authority_library \<Rightarrow> authority_manifest \<Rightarrow> instant \<Rightarrow> binding_activation \<Rightarrow> activation_graph \<Rightarrow> bool" where
  "trusted_activation lib m now a g \<longleftrightarrow>
    br_revision_id (gr_binding g) = ba_revision_id a \<and> te_evidence_id (gr_test g) = ba_evidence_id a \<and>
    te_result (gr_test g) = TestPassed \<and> graph_agrees g \<and> list_all (period_current now) (graph_periods g) \<and>
    gr_capability g \<in> set (dp_capabilities (gr_profile g)) \<and>
    (\<exists>binding evidence profile row.
      sr_record binding = gr_binding g \<and> attested BindingRevision_payload lib (am_signers m) now binding \<and>
      sr_record evidence = gr_test g \<and> attested DeviceTestEvidence_payload lib (am_signers m) now evidence \<and>
      sr_record profile = gr_profile g \<and> attested DriverProfile_payload lib (am_signers m) now profile \<and>
      sr_digest profile = br_driver_profile_digest (gr_binding g) \<and>
      sr_record row = gr_row g \<and> attested MatrixRow_payload lib (am_signers m) now row)"

lemma resolved_trusted:
  assumes "verify_all DriverProfile_payload lib m now (am_profiles m) = Inr ()"
    and "verify_all MatrixRow_payload lib m now (am_certification_rows m) = Inr ()"
    and "verify_all BindingRevision_payload lib m now (am_bindings m) = Inr ()"
    and "verify_all DeviceTestEvidence_payload lib m now (am_evidence m) = Inr ()"
    and "resolve_activation m a = Inr g" and "graph_agrees g" and "list_all (period_current now) (graph_periods g)"
  shows "trusted_activation lib m now a g"
  using assms(5)
proof (rule resolve_activation_Inr)
  fix binding evidence profile row
  assume r: "binding \<in> set (am_bindings m)" "gr_binding g = sr_record binding" "br_revision_id (gr_binding g) = ba_revision_id a"
    "evidence \<in> set (am_evidence m)" "gr_test g = sr_record evidence" "te_evidence_id (gr_test g) = ba_evidence_id a"
    "profile \<in> set (am_profiles m)" "gr_profile g = sr_record profile" "sr_digest profile = br_driver_profile_digest (gr_binding g)"
    "row \<in> set (am_certification_rows m)" "gr_row g = sr_record row" "gr_capability g \<in> set (dp_capabilities (gr_profile g))"
  have "te_result (gr_test g) = TestPassed" using assms(6) by (simp add: graph_agrees_def Let_def)
  moreover have "attested BindingRevision_payload lib (am_signers m) now binding"
      "attested DeviceTestEvidence_payload lib (am_signers m) now evidence"
      "attested DriverProfile_payload lib (am_signers m) now profile" "attested MatrixRow_payload lib (am_signers m) now row"
    using verify_all_attested assms(1-4) r(1,4,7,10) by blast+
  ultimately show ?thesis unfolding trusted_activation_def using r assms(6,7) by metis
qed

text \<open>A bundle with one activation, and a library whose digests are empty and whose signatures name their key.\<close>

definition toy_authority :: authority_library where
  "toy_authority = \<lparr>al_canonical = (\<lambda>v. Inr []), al_sha256 = (\<lambda>bytes. bytes), al_hex = (\<lambda>bytes. bytes),
    al_rfc3339_secs = (\<lambda>t. ''t''), al_rfc3339_micros = (\<lambda>t. ''t''), al_key_from_bytes = Some,
    al_verify_strict = (\<lambda>key message signature. signature = key)\<rparr>"

definition sample_scope :: authority_scope where
  "sample_scope = \<lparr>asc_database = ''d'', asc_organization_id = ''o'', asc_site_id = ''s'', asc_kind = ScopeSite,
    asc_pos_configuration_id = None\<rparr>"

definition sample_signer :: "string \<Rightarrow> signer_purpose \<Rightarrow> signer_record" where
  "sample_signer key purpose = \<lparr>sg_key_id = key, sg_purpose = purpose, sg_public_key = key, sg_state = SignerActive,
    sg_not_before = 0, sg_not_after = None, sg_retired_at = None\<rparr>"

definition signed_by :: "string \<Rightarrow> 'r \<Rightarrow> 'r signed_record" where
  "signed_by key r = \<lparr>sr_record = r, sr_digest = [], sr_signer_key_id = key, sr_signature = key\<rparr>"

definition sample_bundle :: authority_bundle where
  "sample_bundle = \<lparr>ab_revision = signed_by ''root'' \<lparr>av_revision_id = ''r1'', av_revision_number = 1, av_manifest_digest = [],
      av_effective_at = 1, av_expires_at = Some 9\<rparr>,
    ab_manifest = \<lparr>am_agent_id = ''agt'', am_scope = sample_scope,
      am_signers = [sample_signer ''kp'' PurposeDriverProfile, sample_signer ''km'' PurposeCertificationMatrix,
        sample_signer ''kb'' PurposeBindingRevision, sample_signer ''ke'' PurposeDeviceTestEvidence],
      am_profiles = [signed_by ''kp'' \<lparr>dp_profile_id = ''p1'', dp_version = ''1'', dp_driver_id = ''drv'', dp_min_agent_version = ''1'',
        dp_capabilities = [\<lparr>dc_capability_id = ''cap'', dc_operation = ''print'', dc_media_type = ''pdf'', dc_contract_major = 1,
          dc_output_evidence = EvidenceSpooler, dc_max_payload_bytes = 1, dc_max_copies = 1, dc_options_digest = []\<rparr>],
        dp_effective_at = 1, dp_expires_at = None\<rparr>],
      am_certification_rows = [signed_by ''km'' \<lparr>mx_row_id = ''m1'', mx_version = 1, mx_device_id = ''dev'',
        mx_device_identity_digest = [], mx_manufacturer = ''x'', mx_model = ''x'', mx_firmware_version = ''x'',
        mx_firmware_build = ''x'', mx_driver_id = ''drv'', mx_driver_profile_digest = [], mx_capability_id = ''cap'',
        mx_platform_backend_id = ''x'', mx_connection = ''x'', mx_media_profile = ''x'', mx_operating_system = ''x'',
        mx_release_set_id = ''x'', mx_effective_at = 1, mx_expires_at = None\<rparr>],
      am_bindings = [signed_by ''kb'' \<lparr>br_binding_id = ''bind'', br_revision_id = ''b1'', br_revision_number = 1,
        br_scope = sample_scope, br_purpose = ''receipt'', br_device_id = ''dev'', br_device_identity_digest = [],
        br_capability_id = ''cap'', br_driver_profile_digest = [], br_matrix_row_id = ''m1'', br_options_digest = []\<rparr>],
      am_evidence = [signed_by ''ke'' \<lparr>te_evidence_id = ''e1'', te_revision_id = ''b1'', te_device_id = ''dev'',
        te_device_identity_digest = [], te_capability_id = ''cap'', te_driver_profile_digest = [], te_matrix_row_id = ''m1'',
        te_output_evidence = EvidenceDevice, te_result = TestPassed, te_test_pattern_digest = [], te_tested_at = 2,
        te_valid_until = Some 8\<rparr>],
      am_activations = [\<lparr>ba_revision_id = ''b1'', ba_evidence_id = ''e1''\<rparr>]\<rparr>\<rparr>"

section \<open>Properties\<close>



end
