(* ===== verification/Spec2Isabelle.thy ===== *)
theory Spec2Isabelle
  imports Gateway_System Fleet Router_Controller Device_Authority
begin

text \<open>
  Verification library of the Inari Managed Gateway: the Controller's database layer, the Router
  hosts it admits Agents to, the loop between the two, and the signed Device Authority.

  \<^bold>\<open>The program.\<close>  Agents at customer sites enrol with an invitation, publish what they observe and
  receive commands.  The Controller keeps everything durable in one PostgreSQL database through
  \<^verbatim>\<open>GatewayRepository\<close> (\<^verbatim>\<open>src/crates/inari-gateway/src/persistence\<close>).  Traffic between them goes
  through Zenoh Routers; on each Router host a Supervisor (\<^verbatim>\<open>src/crates/inari-router/src\<close>) runs the
  Router process with the access control of a signed policy.  The admission controller
  (\<^verbatim>\<open>src/crates/inari-server/src/managed_gateway/router_policy.rs\<close>) builds that policy from the
  database, signs it, sends it to every Router and records their acknowledgment; commands and work
  are only accepted for Agents that an acknowledged, unexpired policy admits.  The Device Authority
  (\<^verbatim>\<open>inari-gateway/src/device_authority\<close>) decides which Device binding an Agent may use.

  \<^bold>\<open>Foundations.\<close>
  \<^item> \<^verbatim>\<open>Prelude\<close>: \<^verbatim>\<open>GatewayError\<close>, results as sums with the \<^verbatim>\<open>?\<close> operator as \<open>and_then\<close>, text functions.
  \<^item> \<^verbatim>\<open>Identifiers\<close>, \<^verbatim>\<open>Onboarding_Code\<close> (\<^verbatim>\<open>protocol/version.rs\<close>, \<^verbatim>\<open>identifiers.rs\<close>, \<^verbatim>\<open>onboarding/code.rs\<close>):
    the parsers.  The locales \<open>text_id\<close> and \<open>exact_text_id\<close> are the contract between parsing and printing,
    interpreted for every identifier type.
  \<^item> \<^verbatim>\<open>Protocol\<close> (\<^verbatim>\<open>protocol\<close>), \<^verbatim>\<open>Schema\<close> (\<^verbatim>\<open>persistence/entity\<close>, one record per row type and one list per
    table), \<^verbatim>\<open>Statements\<close> (the constraints of \<^verbatim>\<open>inari-migration\<close> and the statements that check them, with the
    locale \<open>row_store\<close> interpreted for every table), \<^verbatim>\<open>Db_Invariant\<close>, \<^verbatim>\<open>Sample_State\<close>.

  \<^bold>\<open>Controller database.\<close>  Each theory models one file of \<^verbatim>\<open>persistence\<close> unless another is named; an
  operation is a function from the database to the new database and a result.
  \<^item> \<^verbatim>\<open>Audit_Log\<close> (also \<^verbatim>\<open>audit.rs\<close>): events are read back as recorded.
  \<^item> \<^verbatim>\<open>Router_Admission\<close> (\<^verbatim>\<open>router_policy.rs\<close> and the triggers of the migration): preparing, acknowledging
    and requiring an admission.
  \<^item> \<^verbatim>\<open>Commands\<close>: gapless sequences, idempotent requests, complete history.
  \<^item> \<^verbatim>\<open>Inventory\<close>, \<^verbatim>\<open>Fleet\<close>: the Device projection refines a map update; the fleet inventory is complete or
    refused.
  \<^item> \<^verbatim>\<open>Onboarding\<close>, \<^verbatim>\<open>Enrollment\<close>, \<^verbatim>\<open>Retirement\<close>: the life of an invitation, of the keys of an Agent and their end;
    the attempt limit; replay of an enrolment.
  \<^item> \<^verbatim>\<open>Credentials\<close>, \<^verbatim>\<open>State_Envelopes\<close> (\<^verbatim>\<open>security.rs\<close>, \<^verbatim>\<open>security/state_envelopes.rs\<close>): what a validated
    credential and a verified envelope guarantee.
  \<^item> \<^verbatim>\<open>State_Observations\<close>, \<^verbatim>\<open>Publications\<close>, \<^verbatim>\<open>Managed_Work\<close>: signed evidence, idempotent recording, admission
    under quotas, payload storage and retention.
  \<^item> \<^verbatim>\<open>Progress\<close>, \<^verbatim>\<open>Gateway_System\<close>: the preorders along which the database may develop (locale
    \<open>state_preorder\<close>) and the repository as a state machine whose step is one call of a writing operation.
    Its properties hold in every reachable state: all constraints, bounded pending work, preserved history,
    and that retirement cuts an Agent off.

  \<^bold>\<open>Router hosts.\<close>
  \<^item> \<^verbatim>\<open>Router_Policy\<close> (\<^verbatim>\<open>policy.rs\<close>, \<^verbatim>\<open>acl.rs\<close>): signing, verification and the rendered access control, which
    is well formed and isolates Agents.
  \<^item> \<^verbatim>\<open>Router_Tls\<close> (\<^verbatim>\<open>tls.rs\<close>), \<^verbatim>\<open>Router_Supervisor\<close> (\<^verbatim>\<open>supervisor.rs\<close>, \<^verbatim>\<open>store.rs\<close>), \<^verbatim>\<open>Router_Management\<close>
    (\<^verbatim>\<open>management.rs\<close>): each method is an action that may fail and keeps the state it reached.
    \<open>supervisor_step\<close> is the life of a host, with failures, shutdown and restarts.
  \<^item> \<^verbatim>\<open>Router_Enforcement\<close>: weakest preconditions of the actions, the invariant, and that a running process
    has the access control of the verified policy in memory, that updates never roll back, and that an
    expired policy stops the process.

  \<^bold>\<open>Composition.\<close>  \<^verbatim>\<open>Router_Controller\<close> (\<^verbatim>\<open>router_policy.rs\<close> and \<^verbatim>\<open>config/router_policy.rs\<close> of the server) joins
  the database and the hosts: an admission means that every configured Router enforces one policy.
  Requests and replies may be lost, and other transactions may run in between.

  \<^bold>\<open>Device Authority.\<close>  \<^verbatim>\<open>Device_Authority\<close> (\<^verbatim>\<open>models.rs\<close>, \<^verbatim>\<open>primitives.rs\<close>, \<^verbatim>\<open>canonical.rs\<close>): every activation of
  a verified bundle leads back to the trusted key.

  \<^bold>\<open>Representation, bounds and fuel.\<close>  Text and bytes are \<^typ>\<open>string\<close>; instants and durations are integers in
  microseconds; \<^verbatim>\<open>u64\<close> values whose width matters are words.  A transaction is one atomic step, and an operation
  of several transactions is a sequence of them.  Clocks and random values are arguments, so a theorem covers
  all of them.  The environment of a Router host answers the n-th call with its n-th answer.  Text columns are ordered by
  their characters, which stands for the collation of the database.
  \<^item> \<open>wait_ready\<close> runs with fuel 101: the deadline is at most ten seconds away and each round sleeps 100 ms.
    Lemma \<open>wait_ready_enough\<close> shows that more fuel changes nothing.
  \<^item> \<open>trim_fuel\<close> has the length of the text as fuel, and each round removes at least one byte.
  \<^item> Retention works in batches of 256; its property shows that finitely many runs drain the overdue work.

  \<^bold>\<open>Hypotheses on code outside the repository.\<close>  Cryptography, JSON, Base64, certificate parsing and Zenoh's key
  matching are parameters.  Where a property needs a law of them it is a named hypothesis: \<open>storage_roundtrip\<close>
  and \<open>json_roundtrip\<close> (what was serialized is read back), the literal matching of leading key segments in
  \<open>agent_isolation\<close>, and \<open>digests_bind\<close>.  The last is an idealization: it says that no two policies have the same
  digest, where SHA-256 only makes a collision infeasible to find.

  \<^bold>\<open>Not modelled.\<close>
  \<^item> Of modelled files: the TLS handshake and HTTP servers of the Router, the lock file of the policy store, and
    the HTTPS client, key loading and five second loop of the admission controller.  They are input and output
    around the modelled decisions.  Row locks only order transactions.
  \<^item> The rest of \<^verbatim>\<open>inari-server\<close>: the service layer over the repository, payload encryption and dispatch
    envelopes, identity, the OpenBao client, bundle signing, the Zenoh session supervisor, the REST bridge,
    configuration and process set-up.  Much of it is input and output or calls of external services.  Some of it is
    decision logic that could be modelled in the same way and is not part of this library: validation of submissions,
    role mapping, content negotiation, selectors, and the state machine of the session supervisor.
  \<^item> The conversion of old rows by migrations; the constraints in force after the last one are modelled.
  \<^item> Other programs of the repository: the client library of the local Agent, Device Center, the web interface,
    the Python packages, the Zenoh transport patch and the deployment tooling.
\<close>

text \<open>
  C28. An Agent ID that parses is one literal key-expression segment: it starts with
  \<^verbatim>\<open>agt_\<close>, has at most 64 bytes and contains no separator and no wildcard, so that a
  namespace built from it never covers another Agent's keys.
\<close>

theorem agent_id_literal_segment:
  assumes "AgentId_from_str value = Inr a"
  shows "agent_str a = value \<and> length value \<le> 64 \<and> take 4 value = ''agt_'' \<and>
    set value \<inter> {CHR ''/'', CHR ''*'', CHR ''$'', CHR ''#'', CHR ''?''} = {}"
proof -
  obtain r where r: "a = AgentId value" "length value \<le> 64" "value = ''agt_'' @ r"
      "list_all agent_id_byte r"
    using assms by (auto simp: AgentId_from_str_iff)
  have "set r \<inter> {CHR ''/'', CHR ''*'', CHR ''$'', CHR ''#'', CHR ''?''} = {}"
    using r(4) agent_id_byte_literal by (force simp: list_all_iff)
  then show ?thesis using r by auto
qed

theorem agent_id_literal_segment_witness:
  "take 4 ''agt_browser_audit'' = ''agt_''"
proof -
  have "AgentId_from_str ''agt_browser_audit'' = Inr (AgentId ''agt_browser_audit'')"
    by code_simp
  then show ?thesis
    using agent_id_literal_segment [of "''agt_browser_audit''"] by blast
qed

end
